(* ===== verification/Prelude.thy ===== *)
theory Prelude
  imports Main "HOL-Library.Word" "HOL-Library.Multiset" "HOL-Library.Sublist"
begin

text \<open>
  What every component shares: the names of the model's basic types (tags, ports, instants,
  addresses of heap objects), the readings of the clock, the named collections that carry the
  component proofs, and generic lemmas on lists, maps and words.

  A Go \<open>uint16\<close> port is a \<open>16 word\<close>, so that \<open>port++\<close> wraps as in the code.  A
  \<open>time.Time\<close> is the number of nanoseconds since the zero instant \<open>time.Time{}\<close>, a
  \<open>time.Duration\<close> a number of nanoseconds.  A Go string is its list of bytes.
\<close>

section \<open>Types of the model\<close>

type_synonym tag = string
type_synonym port = "16 word"
type_synonym time = int
type_synonym duration = int
type_synonym addr = nat

text \<open>The zero value \<open>time.Time{}\<close>, and the units of package time.\<close>

definition zero_time :: time where
  "zero_time = 0"

definition second :: duration where
  "second = 1000000000"

definition hour :: duration where
  "hour = 3600 * second"

text \<open>
  The calls of \<open>time.Now()\<close> inside one operation, in program order: \<open>clk 0\<close> is the first
  reading, \<open>clk 1\<close> the second, and so on.
\<close>

type_synonym clock = "nat \<Rightarrow> time"

text \<open>\<open>Duration.Milliseconds\<close>: integer division truncated towards zero.\<close>

definition milliseconds :: "duration \<Rightarrow> int" where
  "milliseconds d = sgn d * (\<bar>d\<bar> div 1000000)"

section \<open>Collections\<close>

named_theorems frame_simps \<open>what an operation leaves unchanged\<close>
named_theorems effect_simps \<open>what an operation returns and writes\<close>

section \<open>Lists\<close>

text \<open>The last \<open>n\<close> elements of a list, the whole list when it is shorter.\<close>

definition take_last :: "nat \<Rightarrow> 'a list \<Rightarrow> 'a list" where
  "take_last n xs = drop (length xs - n) xs"

lemma length_take_last [simp]: "length (take_last n xs) = min n (length xs)"
  by (auto simp: take_last_def)

lemma take_last_all: "length xs \<le> n \<Longrightarrow> take_last n xs = xs"
  by (simp add: take_last_def)

lemma take_last_snoc:
  "0 < n \<Longrightarrow> take_last n (xs @ [x]) =
    (if n \<le> length xs then tl (take_last n xs) @ [x] else xs @ [x])"
  by (auto simp: take_last_def drop_Suc tl_drop Suc_diff_le)

text \<open>The first elements that satisfy a predicate, in order, are a subsequence.\<close>

lemma set_filter_subset: "set (filter P xs) \<subseteq> set xs"
  by auto

section \<open>Insertion sort by a less-than function\<close>

text \<open>
  \<open>sort.Slice\<close> sorts in place by a caller's \<open>less\<close> function and leaves the order of elements
  that are equal under it open.  The model sorts by insertion, which is one of the results
  \<open>sort.Slice\<close> may return; the properties below use only that the result is a permutation and
  that no later element is less than an earlier one.
\<close>

fun insert_by :: "('a \<Rightarrow> 'a \<Rightarrow> bool) \<Rightarrow> 'a \<Rightarrow> 'a list \<Rightarrow> 'a list" where
  "insert_by lt x [] = [x]"
| "insert_by lt x (y # ys) = (if lt y x then y # insert_by lt x ys else x # y # ys)"

fun sort_slice :: "('a \<Rightarrow> 'a \<Rightarrow> bool) \<Rightarrow> 'a list \<Rightarrow> 'a list" where
  "sort_slice lt [] = []"
| "sort_slice lt (x # xs) = insert_by lt x (sort_slice lt xs)"

lemma mset_insert_by [simp]: "mset (insert_by lt x xs) = add_mset x (mset xs)"
  by (induction xs) auto

lemma mset_sort_slice [simp]: "mset (sort_slice lt xs) = mset xs"
  by (induction xs) auto

lemma set_sort_slice [simp]: "set (sort_slice lt xs) = set xs"
  by (metis mset_sort_slice set_mset_mset)

lemma length_sort_slice [simp]: "length (sort_slice lt xs) = length xs"
  by (metis mset_sort_slice size_mset)

lemma distinct_sort_slice [simp]: "distinct (sort_slice lt xs) = distinct xs"
  by (metis mset_sort_slice distinct_count_atmost_1 set_sort_slice)

text \<open>What \<open>sort.Slice\<close> asks of \<open>less\<close>: a strict weak order.\<close>

locale strict_weak_order =
  fixes lt :: "'a \<Rightarrow> 'a \<Rightarrow> bool"
  assumes asym: "lt x y \<Longrightarrow> \<not> lt y x"
    and negtrans: "lt x z \<Longrightarrow> lt x y \<or> lt y z"
begin

lemma irrefl: "\<not> lt x x"
  using asym by blast

lemma sorted_insert_by:
  "sorted_wrt (\<lambda>a b. \<not> lt b a) xs \<Longrightarrow> sorted_wrt (\<lambda>a b. \<not> lt b a) (insert_by lt x xs)"
proof (induction xs)
  case Nil
  then show ?case by simp
next
  case (Cons y ys)
  have set: "set (insert_by lt x ys) = insert x (set ys)"
    by (metis mset_insert_by set_mset_add_mset_insert set_mset_mset)
  show ?case
  proof (cases "lt y x")
    case True
    with Cons set show ?thesis by (auto dest: asym)
  next
    case False
    with Cons show ?thesis using negtrans by auto
  qed
qed

lemma sorted_sort_slice: "sorted_wrt (\<lambda>a b. \<not> lt b a) (sort_slice lt xs)"
  by (induction xs) (auto intro: sorted_insert_by)

end

text \<open>Comparing by a key in a linear order is such an order.\<close>

lemma strict_weak_order_key: "strict_weak_order (\<lambda>x y. (key x :: 'b :: linorder) < key y)"
  by unfold_locales auto

section \<open>Words\<close>

lemma word16_cycle:
  fixes p q :: port
  shows "\<exists>n < 65536. q = p + of_nat n"
proof -
  have "unat (q - p) < 65536"
    using unsigned_less [of "q - p"] by simp
  moreover have "q = p + of_nat (unat (q - p))"
    by simp
  ultimately show ?thesis by blast
qed

lemma unat_port_le [simp]: "unat (p :: port) \<le> 65535"
  using unsigned_less [of p, where ?'a = nat] by simp

section \<open>Get-or-create by tag\<close>

text \<open>
  Two stores of the program hand out one object per tag and create it on the first request:
  the node table of the monitor (\<open>Manager.Register\<close>) and the store of shared member states
  (\<open>acquireSharedState\<close>).  The locale states what their clients rely on: a request for a known
  tag returns its object, a request for a new one an object no other tag has, and no request
  disturbs the other tags.
\<close>

locale tag_registry =
  fixes look :: "'s \<Rightarrow> tag \<Rightarrow> addr option"
    and request :: "'k \<Rightarrow> 's \<Rightarrow> addr \<times> 's"
    and key :: "'k \<Rightarrow> tag"
    and wf :: "'s \<Rightarrow> bool"
  assumes request_known: "wf s \<Longrightarrow> look s (key k) = Some a \<Longrightarrow> fst (request k s) = a"
    and request_look: "wf s \<Longrightarrow> look (snd (request k s)) = (look s)(key k \<mapsto> fst (request k s))"
    and request_fresh: "wf s \<Longrightarrow> look s (key k) = None \<Longrightarrow> look s t \<noteq> Some (fst (request k s))"
    and request_wf: "wf s \<Longrightarrow> wf (snd (request k s))"
begin

lemma request_stable:
  assumes "wf s" and "look s t = Some a"
  shows "look (snd (request k s)) t = Some a"
  using assms by (cases "t = key k") (auto simp: request_look intro: request_known)

lemma request_again:
  assumes "wf s" and "key k' = key k"
  shows "fst (request k' (snd (request k s))) = fst (request k s)"
  using assms by (auto intro!: request_known simp: request_wf request_look)

lemma request_injective:
  assumes wf: "wf s" and inj: "inj_on (look s) (dom (look s))"
  shows "inj_on (look (snd (request k s))) (dom (look (snd (request k s))))"
proof (rule inj_onI)
  fix t u
  assume "t \<in> dom (look (snd (request k s)))" "u \<in> dom (look (snd (request k s)))"
    and eq: "look (snd (request k s)) t = look (snd (request k s)) u"
  show "t = u"
  proof (cases "look s (key k)")
    case None
    then have "look s x \<noteq> Some (fst (request k s))" for x
      by (rule request_fresh [OF wf])
    with eq inj \<open>t \<in> _\<close> \<open>u \<in> _\<close> show ?thesis
      by (auto simp: request_look wf inj_on_def split: if_splits)
  next
    case (Some a)
    then have "look (snd (request k s)) = look s"
      using request_known [OF wf Some] by (auto simp: request_look wf fun_eq_iff)
    with eq inj \<open>t \<in> _\<close> \<open>u \<in> _\<close> show ?thesis
      by (auto dest: inj_onD)
  qed
qed

text \<open>Requests for a list of keys: what a pool does for its members.\<close>

lemma requests_look:
  assumes "wf s"
  shows "wf (fold (\<lambda>k s. snd (request k s)) ks s)
    \<and> dom (look (fold (\<lambda>k s. snd (request k s)) ks s)) = dom (look s) \<union> key ` set ks
    \<and> (\<forall>t a. look s t = Some a \<longrightarrow> look (fold (\<lambda>k s. snd (request k s)) ks s) t = Some a)"
  using assms
proof (induction ks arbitrary: s)
  case Nil
  then show ?case by simp
next
  case (Cons k ks)
  then have "wf (snd (request k s))" by (simp add: request_wf)
  note IH = Cons.IH [OF this]
  have "dom (look (snd (request k s))) = insert (key k) (dom (look s))"
    using Cons.prems by (simp add: request_look)
  with IH request_stable [OF Cons.prems] show ?case by auto
qed

end

section \<open>Searching a port\<close>

text \<open>
  The program searches ports in several places, each going round from a start.  What the callers
  rely on: as long as some port is acceptable, an acceptable one is found.
\<close>

locale port_scanner =
  fixes scan :: "(port \<Rightarrow> bool) \<Rightarrow> port \<Rightarrow> port option"
  assumes scan_hits: "\<not> busy r \<Longrightarrow> \<exists>q. scan busy p = Some q \<and> \<not> busy q"
begin

text \<open>With more free ports than ports in use, a free one that is not in use is found.\<close>

lemma scan_avoids:
  assumes "card used < card {p. free p}"
  shows "\<exists>q. scan (\<lambda>p. p \<in> used \<or> \<not> free p) c = Some q \<and> q \<notin> used \<and> free q"
proof -
  have "\<not> {p. free p} \<subseteq> used"
    using assms card_mono [of used "{p. free p}"] by force
  then obtain r where "\<not> (r \<in> used \<or> \<not> free r)" by blast
  from scan_hits [of "\<lambda>p. p \<in> used \<or> \<not> free p", OF this] show ?thesis by blast
qed

end

end
