(* ===== verification/Go_Strings.thy ===== *)
theory Go_Strings
  imports Prelude "HOL-Library.List_Lexorder" "HOL-Library.Char_ord"
begin

text \<open>
  The functions of Go's standard library on strings that the program calls, over the bytes of
  the string: \<open>strings.TrimSpace\<close>, \<open>ToLower\<close>, \<open>HasPrefix\<close>, \<open>TrimPrefix\<close>, \<open>Index\<close>,
  \<open>LastIndex\<close>, \<open>Contains\<close>, \<open>Split\<close>, \<open>Join\<close>, \<open>ReplaceAll\<close>, \<open>FieldsFunc\<close>,
  \<open>strconv.Itoa\<close>, \<open>strconv.Atoi\<close>, \<open>net.SplitHostPort\<close> and \<open>url.QueryUnescape\<close>.

  White space is Unicode's, by its UTF-8 encodings.  Case mapping is that of ASCII: on a string
  with cased letters outside ASCII \<open>strings.ToLower\<close> maps those too, which \<open>to_lower\<close> leaves
  as they are.  Go's \<open>(value, error)\<close> pairs are options where the program does not read the
  error's text.
\<close>

section \<open>White space\<close>

text \<open>The encodings of the runes for which \<open>unicode.IsSpace\<close> holds.\<close>

definition white_space :: "string list" where
  "white_space =
     [[CHR 0x09], [CHR 0x0A], [CHR 0x0B], [CHR 0x0C], [CHR 0x0D], [CHR 0x20],
      [CHR 0xC2, CHR 0x85], [CHR 0xC2, CHR 0xA0], [CHR 0xE1, CHR 0x9A, CHR 0x80],
      [CHR 0xE2, CHR 0x80, CHR 0x80], [CHR 0xE2, CHR 0x80, CHR 0x81],
      [CHR 0xE2, CHR 0x80, CHR 0x82], [CHR 0xE2, CHR 0x80, CHR 0x83],
      [CHR 0xE2, CHR 0x80, CHR 0x84], [CHR 0xE2, CHR 0x80, CHR 0x85],
      [CHR 0xE2, CHR 0x80, CHR 0x86], [CHR 0xE2, CHR 0x80, CHR 0x87],
      [CHR 0xE2, CHR 0x80, CHR 0x88], [CHR 0xE2, CHR 0x80, CHR 0x89],
      [CHR 0xE2, CHR 0x80, CHR 0x8A], [CHR 0xE2, CHR 0x80, CHR 0xA8],
      [CHR 0xE2, CHR 0x80, CHR 0xA9], [CHR 0xE2, CHR 0x80, CHR 0xAF],
      [CHR 0xE2, CHR 0x81, CHR 0x9F], [CHR 0xE3, CHR 0x80, CHR 0x80]]"

definition HasPrefix :: "string \<Rightarrow> string \<Rightarrow> bool" where
  "HasPrefix s p \<longleftrightarrow> take (length p) s = p"

lemma HasPrefix_iff: "HasPrefix s p \<longleftrightarrow> prefix p s"
  by (auto simp: HasPrefix_def prefix_def) (metis append_take_drop_id)

definition TrimPrefix :: "string \<Rightarrow> string \<Rightarrow> string" where
  "TrimPrefix s p = (if HasPrefix s p then drop (length p) s else s)"

definition HasSuffix :: "string \<Rightarrow> string \<Rightarrow> bool" where
  "HasSuffix s p \<longleftrightarrow> HasPrefix (rev s) (rev p)"

definition TrimSuffix :: "string \<Rightarrow> string \<Rightarrow> string" where
  "TrimSuffix s p = (if HasSuffix s p then take (length s - length p) s else s)"

text \<open>Strip words of \<open>ws\<close> from the front of \<open>s\<close>, as long as one of them is a prefix.\<close>

function trim_front :: "string list \<Rightarrow> string \<Rightarrow> string" where
  "trim_front ws s =
     (case find (\<lambda>w. w \<noteq> [] \<and> HasPrefix s w) ws of
        None \<Rightarrow> s
      | Some w \<Rightarrow> trim_front ws (drop (length w) s))"
  by pat_completeness auto
termination
proof (relation "measure (\<lambda>(ws, s). length s)", goal_cases)
  case (2 ws s w)
  then have "w \<noteq> []" and "HasPrefix s w"
    by (auto simp: find_Some_iff)
  then have "s \<noteq> []" by (auto simp: HasPrefix_def)
  with \<open>w \<noteq> []\<close> show ?case by simp
qed simp

declare trim_front.simps [simp del]

definition TrimSpace :: "string \<Rightarrow> string" where
  "TrimSpace s = rev (trim_front (map rev white_space) (rev (trim_front white_space s)))"

definition no_front :: "string list \<Rightarrow> string \<Rightarrow> bool" where
  "no_front ws s \<longleftrightarrow> (\<forall>w \<in> set ws. w = [] \<or> \<not> prefix w s)"

lemma find_None_no_front:
  "find (\<lambda>w. w \<noteq> [] \<and> HasPrefix s w) ws = None \<longleftrightarrow> no_front ws s"
  by (auto simp: find_None_iff no_front_def HasPrefix_iff)

lemma no_front_trim_front: "no_front ws (trim_front ws s)"
proof (induction ws s rule: trim_front.induct)
  case (1 ws s)
  then show ?case
    by (auto simp: trim_front.simps [of ws s] find_None_no_front split: option.splits)
qed

lemma trim_front_id: "no_front ws s \<Longrightarrow> trim_front ws s = s"
  by (simp add: trim_front.simps [of ws s] find_None_no_front [symmetric])

lemma suffix_trim_front: "suffix (trim_front ws s) s"
proof (induction ws s rule: trim_front.induct)
  case (1 ws s)
  then show ?case
    by (auto simp: trim_front.simps [of ws s] split: option.splits
        intro: suffix_order.trans suffix_drop)
qed

lemma no_front_prefix: "no_front ws s \<Longrightarrow> prefix t s \<Longrightarrow> no_front ws t"
  by (auto simp: no_front_def dest: prefix_order.trans)

text \<open>A trimmed string: no white space at either end.\<close>

definition trimmed :: "string \<Rightarrow> bool" where
  "trimmed s \<longleftrightarrow> no_front white_space s \<and> no_front (map rev white_space) (rev s)"

lemma trimmed_TrimSpace [simp]: "trimmed (TrimSpace s)"
proof -
  let ?t = "trim_front white_space s"
  have "suffix (trim_front (map rev white_space) (rev ?t)) (rev ?t)"
    by (rule suffix_trim_front)
  then have "prefix (TrimSpace s) ?t"
    by (simp add: TrimSpace_def suffix_to_prefix)
  then show ?thesis
    by (auto simp: trimmed_def TrimSpace_def no_front_trim_front
        intro: no_front_prefix [OF no_front_trim_front])
qed

lemma TrimSpace_trimmed: "trimmed s \<Longrightarrow> TrimSpace s = s"
  by (simp add: trimmed_def TrimSpace_def trim_front_id)

lemma TrimSpace_idem [simp]: "TrimSpace (TrimSpace s) = TrimSpace s"
  by (simp add: TrimSpace_trimmed)

lemma TrimSpace_Nil [simp]: "TrimSpace [] = []"
  by (rule TrimSpace_trimmed) (auto simp: trimmed_def no_front_def)

section \<open>Case, search, split and join\<close>

definition lower_char :: "char \<Rightarrow> char" where
  "lower_char c = (if CHR ''A'' \<le> c \<and> c \<le> CHR ''Z'' then char_of ((of_char c :: nat) + 32) else c)"

definition ToLower :: "string \<Rightarrow> string" where
  "ToLower s = map lower_char s"

definition EqualFold :: "string \<Rightarrow> string \<Rightarrow> bool" where
  "EqualFold s t \<longleftrightarrow> ToLower s = ToLower t"

text \<open>\<open>strings.Index\<close>: the position of the first occurrence; Go's -1 is \<open>None\<close>.\<close>

fun Index :: "string \<Rightarrow> string \<Rightarrow> nat option" where
  "Index [] sub = (if sub = [] then Some 0 else None)"
| "Index (c # cs) sub =
     (if HasPrefix (c # cs) sub then Some 0 else map_option Suc (Index cs sub))"

definition Contains :: "string \<Rightarrow> string \<Rightarrow> bool" where
  "Contains s sub \<longleftrightarrow> Index s sub \<noteq> None"

text \<open>The position of the last occurrence of a byte.\<close>

fun LastIndex :: "string \<Rightarrow> char \<Rightarrow> nat option" where
  "LastIndex [] c = None"
| "LastIndex (x # xs) c =
     (case LastIndex xs c of
        Some i \<Rightarrow> Some (Suc i)
      | None \<Rightarrow> if x = c then Some 0 else None)"

text \<open>\<open>strings.Split\<close> by a separator of one byte.\<close>

fun Split :: "string \<Rightarrow> char \<Rightarrow> string list" where
  "Split [] c = [[]]"
| "Split (x # xs) c =
     (if x = c then [] # Split xs c
      else (case Split xs c of [] \<Rightarrow> [[x]] | l # ls \<Rightarrow> (x # l) # ls))"

fun Join :: "string list \<Rightarrow> string \<Rightarrow> string" where
  "Join [] sep = []"
| "Join [x] sep = x"
| "Join (x # xs) sep = x @ sep @ Join xs sep"

text \<open>\<open>strings.ReplaceAll\<close> of a non-empty string, left to right without overlap.\<close>

function ReplaceAll :: "string \<Rightarrow> string \<Rightarrow> string \<Rightarrow> string" where
  "ReplaceAll s old new =
     (case s of
        [] \<Rightarrow> []
      | c # cs \<Rightarrow>
          if old \<noteq> [] \<and> HasPrefix s old then new @ ReplaceAll (drop (length old) s) old new
          else c # ReplaceAll cs old new)"
  by pat_completeness auto
termination
  by (relation "measure (\<lambda>(s, old, new). length s)") auto

declare ReplaceAll.simps [simp del]

text \<open>\<open>strings.FieldsFunc\<close> for a predicate on bytes: the maximal runs of the other bytes.\<close>

fun fields_acc :: "(char \<Rightarrow> bool) \<Rightarrow> string \<Rightarrow> string \<Rightarrow> string list" where
  "fields_acc f [] acc = (if acc = [] then [] else [rev acc])"
| "fields_acc f (x # xs) acc =
     (if f x then (if acc = [] then [] else [rev acc]) @ fields_acc f xs []
      else fields_acc f xs (x # acc))"

definition FieldsFunc :: "string \<Rightarrow> (char \<Rightarrow> bool) \<Rightarrow> string list" where
  "FieldsFunc s f = fields_acc f s []"

lemma Split_nonempty [simp]: "Split s c \<noteq> []"
  by (induction s) (auto split: list.splits)

lemma Split_no_sep: "c \<notin> set s \<Longrightarrow> Split s c = [s]"
  by (induction s) auto

lemma Split_append: "c \<notin> set x \<Longrightarrow> Split (x @ c # y) c = x # Split y c"
  by (induction x) auto

text \<open>Splitting what was joined by the separator gives the pieces back.\<close>

lemma Split_Join:
  "\<forall>x \<in> set xs. c \<notin> set x \<Longrightarrow> xs \<noteq> [] \<Longrightarrow> Split (Join xs [c]) c = xs"
  by (induction xs "[c]" rule: Join.induct) (auto simp: Split_no_sep Split_append)

lemma Split_Join_terminated:
  "\<forall>x \<in> set xs. c \<notin> set x \<Longrightarrow> xs \<noteq> [] \<Longrightarrow> Split (Join xs [c] @ [c]) c = xs @ [[]]"
  by (induction xs "[c]" rule: Join.induct) (auto simp: Split_append)

section \<open>Decimal numbers\<close>

definition digit_char :: "nat \<Rightarrow> char" where
  "digit_char d = char_of (48 + d)"

fun Itoa_nat :: "nat \<Rightarrow> string" where
  "Itoa_nat n =
     (if n < 10 then [digit_char n] else Itoa_nat (n div 10) @ [digit_char (n mod 10)])"

declare Itoa_nat.simps [simp del]

text \<open>\<open>strconv.Itoa\<close> and the verb \<open>%d\<close>.\<close>

definition Itoa :: "int \<Rightarrow> string" where
  "Itoa i = (if i < 0 then CHR ''-'' # Itoa_nat (nat (- i)) else Itoa_nat (nat i))"

definition is_digit :: "char \<Rightarrow> bool" where
  "is_digit c \<longleftrightarrow> CHR ''0'' \<le> c \<and> c \<le> CHR ''9''"

definition digit_value :: "char \<Rightarrow> int" where
  "digit_value c = of_char c - 48"

definition digits_value :: "string \<Rightarrow> int" where
  "digits_value s = foldl (\<lambda>a c. 10 * a + digit_value c) 0 s"

text \<open>\<open>strconv.Atoi\<close>: an optional sign, at least one digit, the value in the range of \<open>int64\<close>.\<close>

definition Atoi :: "string \<Rightarrow> int option" where
  "Atoi s =
     (let neg = HasPrefix s ''-'';
          ds = (if neg \<or> HasPrefix s ''+'' then tl s else s);
          v = (if neg then - digits_value ds else digits_value ds)
      in if ds \<noteq> [] \<and> list_all is_digit ds \<and> - (2 ^ 63) \<le> v \<and> v < 2 ^ 63 then Some v else None)"

text \<open>
  The number that \<open>strconv.Atoi\<close> returns beside its error: 0 for a text that is no number, the nearest
  \<open>int64\<close> for one out of range.
\<close>

definition Atoi_value :: "string \<Rightarrow> int" where
  "Atoi_value s =
     (let neg = HasPrefix s ''-'';
          ds = (if neg \<or> HasPrefix s ''+'' then tl s else s);
          v = (if neg then - digits_value ds else digits_value ds)
      in if ds \<noteq> [] \<and> list_all is_digit ds then max (- (2 ^ 63)) (min (2 ^ 63 - 1) v) else 0)"

section \<open>Host and port, URL escapes\<close>

text \<open>
  \<open>net.SplitHostPort\<close>: the port follows the last colon; an IPv6 host stands in brackets.
  The error values are not read by the program.
\<close>

definition SplitHostPort :: "string \<Rightarrow> (string \<times> string) option" where
  "SplitHostPort hp =
     (case LastIndex hp (CHR '':'') of
        None \<Rightarrow> None
      | Some i \<Rightarrow>
          (let bracketed = HasPrefix hp ''['' in
           case (if bracketed then Index hp '']'' else Some 0) of
             None \<Rightarrow> None
           | Some e \<Rightarrow>
               if bracketed \<and> e + 1 \<noteq> i then None
               else
                 (let host = (if bracketed then take (e - 1) (drop 1 hp) else take i hp);
                      j = (if bracketed then 1 else 0);
                      k = (if bracketed then e + 1 else 0)
                  in if \<not> bracketed \<and> CHR '':'' \<in> set host then None
                     else if CHR ''['' \<in> set (drop j hp) then None
                     else if CHR '']'' \<in> set (drop k hp) then None
                     else Some (host, drop (i + 1) hp))))"

definition hex_value :: "char \<Rightarrow> nat option" where
  "hex_value c =
     (if is_digit c then Some (of_char c - 48)
      else if CHR ''a'' \<le> c \<and> c \<le> CHR ''f'' then Some (of_char c - 87)
      else if CHR ''A'' \<le> c \<and> c \<le> CHR ''F'' then Some (of_char c - 55)
      else None)"

text \<open>\<open>url.QueryUnescape\<close>: \<open>%xy\<close> is the byte \<open>xy\<close>, \<open>+\<close> a space.\<close>

fun QueryUnescape :: "string \<Rightarrow> string option" where
  "QueryUnescape [] = Some []"
| "QueryUnescape (c # cs) =
     (if c = CHR ''%'' then
        (case cs of
           a # b # rest \<Rightarrow>
             (case (hex_value a, hex_value b) of
                (Some x, Some y) \<Rightarrow> map_option (Cons (char_of (16 * x + y))) (QueryUnescape rest)
              | _ \<Rightarrow> None)
         | _ \<Rightarrow> None)
      else map_option (Cons (if c = CHR ''+'' then CHR '' '' else c)) (QueryUnescape cs))"

subsection \<open>Searching for a single byte\<close>

lemma HasPrefix_append [simp]: "HasPrefix (p @ s) p"
  by (simp add: HasPrefix_def)

lemma HasPrefix_Cons [simp]: "HasPrefix (x # xs) (y # ys) \<longleftrightarrow> x = y \<and> HasPrefix xs ys"
  by (auto simp: HasPrefix_def)

lemma HasPrefix_Nil [simp]: "HasPrefix s []" "HasPrefix [] s \<longleftrightarrow> s = []"
  by (auto simp: HasPrefix_def)

lemma TrimPrefix_append [simp]: "TrimPrefix (p @ s) p = s"
  by (simp add: TrimPrefix_def)

lemma HasPrefix_member: "HasPrefix (a @ b) p \<Longrightarrow> c \<in> set p \<Longrightarrow> c \<notin> set a \<Longrightarrow> length a < length p"
  by (auto simp: HasPrefix_iff prefix_append dest: set_mono_prefix)

lemma Index_single_None: "c \<notin> set s \<Longrightarrow> Index s [c] = None"
  by (induction s) auto

lemma Index_single: "c \<notin> set a \<Longrightarrow> Index (a @ c # b) [c] = Some (length a)"
  by (induction a) auto

lemma LastIndex_None: "c \<notin> set s \<Longrightarrow> LastIndex s c = None"
  by (induction s) auto

lemma LastIndex_append: "c \<notin> set b \<Longrightarrow> LastIndex (a @ c # b) c = Some (length a)"
  by (induction a) (auto simp: LastIndex_None)

text \<open>A host and a port joined by a colon split back, when neither holds a colon or a bracket.\<close>

lemma SplitHostPort_join:
  assumes "set h \<inter> {CHR '':'', CHR ''['', CHR '']''} = {}"
    and "set p \<inter> {CHR '':'', CHR ''['', CHR '']''} = {}"
  shows "SplitHostPort (h @ '':'' @ p) = Some (h, p)"
proof -
  have "\<not> HasPrefix (h @ CHR '':'' # p) ''[''"
    using assms(1) by (cases h) auto
  with assms show ?thesis
    by (auto simp: SplitHostPort_def LastIndex_append)
qed

lemma SplitHostPort_no_colon: "CHR '':'' \<notin> set h \<Longrightarrow> SplitHostPort h = None"
  by (simp add: SplitHostPort_def LastIndex_None)

section \<open>Printing and reading a number\<close>

lemma digit_char_value: "d < 10 \<Longrightarrow> is_digit (digit_char d) \<and> digit_value (digit_char d) = int d"
proof -
  have "list_all (\<lambda>d. is_digit (digit_char d) \<and> digit_value (digit_char d) = int d) [0, 1, 2, 3, 4, 5, 6, 7, 8, 9]"
    by code_simp
  moreover assume "d < 10"
  then have "d \<in> set [0, 1, 2, 3, 4, 5, 6, 7, 8, 9]" by auto
  ultimately show ?thesis unfolding list_all_iff by blast
qed

lemma Itoa_nat_digits: "list_all is_digit (Itoa_nat n) \<and> digits_value (Itoa_nat n) = int n"
proof (induction n rule: Itoa_nat.induct)
  case (1 n)
  show ?case
  proof (cases "n < 10")
    case True
    then show ?thesis
      by (subst (1 2) Itoa_nat.simps) (simp add: digit_char_value digits_value_def)
  next
    case False
    with 1 have "list_all is_digit (Itoa_nat (n div 10))" "digits_value (Itoa_nat (n div 10)) = int (n div 10)"
      by blast+
    with False show ?thesis
      by (subst (1 2) Itoa_nat.simps)
        (simp add: digit_char_value digits_value_def zdiv_int zmod_int)
  qed
qed

lemma Itoa_nat_nonempty [simp]: "Itoa_nat n \<noteq> []"
  by (subst Itoa_nat.simps) simp

lemma digit_no_sign: "is_digit c \<Longrightarrow> c \<noteq> CHR ''-'' \<and> c \<noteq> CHR ''+''"
  by (auto simp: is_digit_def less_eq_char_def)

lemma Atoi_Itoa_nat:
  assumes "n < 2 ^ 63"
  shows "Atoi (Itoa_nat n) = Some (int n)"
proof -
  obtain c cs where c: "Itoa_nat n = c # cs" by (cases "Itoa_nat n") simp_all
  with Itoa_nat_digits [of n] digit_no_sign [of c]
  have "\<not> HasPrefix (Itoa_nat n) ''-''" "\<not> HasPrefix (Itoa_nat n) ''+''"
    by simp_all
  moreover have "int n < 2 ^ 63"
    using assms by (metis of_nat_less_iff of_nat_numeral of_nat_power)
  ultimately show ?thesis
    using Itoa_nat_digits [of n] by (simp add: Atoi_def Let_def)
qed

lemma Atoi_Itoa: "0 \<le> i \<Longrightarrow> i < 2 ^ 63 \<Longrightarrow> Atoi (Itoa i) = Some i"
  using Atoi_Itoa_nat [of "nat i"] by (simp add: Itoa_def nat_less_iff)

lemma Itoa_digits: "0 \<le> i \<Longrightarrow> list_all is_digit (Itoa i) \<and> Itoa i \<noteq> []"
  using Itoa_nat_digits [of "nat i"] by (simp add: Itoa_def)

section \<open>Lower case and white space\<close>

text \<open>Lower-casing changes letters only and no white space is a letter, so a trimmed text stays trimmed.\<close>

lemma lower_char_lower [simp]: "lower_char (lower_char c) = lower_char c"
  by (auto simp: lower_char_def less_eq_char_def)

lemma lower_char_image: "lower_char c = x \<Longrightarrow> \<not> (CHR ''a'' \<le> x \<and> x \<le> CHR ''z'') \<Longrightarrow> c = x"
  by (auto simp: lower_char_def less_eq_char_def split: if_splits)

lemma ToLower_idem [simp]: "ToLower (ToLower s) = ToLower s"
  by (simp add: ToLower_def)

lemma prefix_lower:
  "prefix w (map lower_char s) \<Longrightarrow> \<forall>x \<in> set w. \<not> (CHR ''a'' \<le> x \<and> x \<le> CHR ''z'') \<Longrightarrow> prefix w s"
proof (induction w arbitrary: s)
  case (Cons x w)
  then obtain c cs where s: "s = c # cs" "lower_char c = x" "prefix w (map lower_char cs)"
    by (cases s) auto
  with Cons have "c = x" "prefix w cs" using lower_char_image [of c x] by auto
  with s show ?case by simp
qed simp

lemma white_space_no_letter: "\<forall>w \<in> set white_space. \<forall>x \<in> set w. \<not> (CHR ''a'' \<le> x \<and> x \<le> CHR ''z'')"
proof -
  have "list_all (list_all (\<lambda>x. \<not> (CHR ''a'' \<le> x \<and> x \<le> CHR ''z''))) white_space"
    by code_simp
  then show ?thesis by (simp add: list_all_iff)
qed

lemma trimmed_ToLower:
  assumes "trimmed s"
  shows "trimmed (ToLower s)"
proof -
  have "no_front white_space (map lower_char s)" if "no_front white_space s" for s
    using that white_space_no_letter prefix_lower unfolding no_front_def by blast
  moreover have "no_front (map rev white_space) (map lower_char s)"
    if n: "no_front (map rev white_space) s" for s
    unfolding no_front_def
  proof
    fix w
    assume w: "w \<in> set (map rev white_space)"
    then have "\<forall>x \<in> set w. \<not> (CHR ''a'' \<le> x \<and> x \<le> CHR ''z'')"
      using white_space_no_letter by auto
    then show "w = [] \<or> \<not> prefix w (map lower_char s)"
      using n w prefix_lower unfolding no_front_def by blast
  qed
  ultimately show ?thesis
    using assms by (simp add: trimmed_def ToLower_def rev_map)
qed

end
