(* ===== verification/Geo_Info.thy ===== *)
theory Geo_Info
  imports Go_Strings
begin

text \<open>
  The GeoIP metadata of a node (\<open>internal/geo/info.go\<close>): the record and its display text, the
  non-empty fields joined by spaces.  A nil \<open>*Info\<close> is \<open>None\<close>.
\<close>

record geo_info =
  gi_IP :: string
  gi_Country :: string
  gi_CountryCode :: string
  gi_Region :: string
  gi_City :: string
  gi_ASN :: string
  gi_ISP :: string
  gi_Error :: string

definition empty_geo :: geo_info where
  "empty_geo = \<lparr>gi_IP = [], gi_Country = [], gi_CountryCode = [], gi_Region = [], gi_City = [],
                gi_ASN = [], gi_ISP = [], gi_Error = []\<rparr>"

definition geo_Text :: "geo_info option \<Rightarrow> string" where
  "geo_Text g =
     (case g of
        None \<Rightarrow> []
      | Some i \<Rightarrow>
          Join (filter (\<lambda>s. s \<noteq> [])
            [gi_CountryCode i, gi_Country i, gi_Region i, gi_City i, gi_ASN i, gi_ISP i]) '' '')"

lemma geo_Text_None [simp]: "geo_Text None = []"
  by (simp add: geo_Text_def)

lemma geo_Text_error [simp]: "geo_Text (Some (empty_geo\<lparr>gi_Error := e\<rparr>)) = []"
  by (simp add: geo_Text_def empty_geo_def)

end
