(* ===== verification/Monitor.thy ===== *)
theory Monitor
  imports Geo_Info "HOL-Library.Product_Lexorder"
begin

text \<open>
  The monitor manager (\<open>internal/monitor/manager.go\<close>): the entry it keeps per node, the entry's
  operations behind \<open>EntryHandle\<close>, registration, the probe target, snapshots, health checks,
  manual probe and release.

  Entries are heap objects, because the pool keeps pointers to them that outlive the table: a
  state holds the heap \<open>ents\<close> and the table \<open>nodes\<close> from tags to addresses.  The record is
  extensible; the shared member states and the pools extend it.  An \<open>EntryHandle\<close> is the
  address of its entry, \<open>None\<close> for nil.
\<close>

section \<open>Data\<close>

record monitor_config =
  mc_Enabled :: bool
  mc_Listen :: string
  mc_ProbeTarget :: string
  mc_Password :: string
  mc_ProxyUsername :: string
  mc_ProxyPassword :: string
  mc_ExternalIP :: string
  mc_SkipCertVerify :: bool

record node_info =
  ni_Tag :: tag
  ni_Name :: string
  ni_URI :: string
  ni_Mode :: string
  ni_ListenAddress :: string
  ni_Port :: port
  ni_Geo :: "geo_info option"

record timeline_event =
  te_Time :: time
  te_Success :: bool
  te_LatencyMs :: int
  te_Error :: string

definition maxTimelineSize :: nat where
  "maxTimelineSize = 20"

text \<open>
  \<open>M.Socksaddr\<close> is a type of the sing library: the zero value, or the result of
  \<open>M.ParseSocksaddrHostPort\<close>, which stands for itself.
\<close>

datatype socksaddr = Socksaddr_zero | ParseSocksaddrHostPort string port

text \<open>
  The closures the pool stores in an entry, as the data they capture: a release of one shared
  state or of whatever state a tag has at the time of the call, a probe of one member (its
  outbound and its entry) or of the member of a pool with a given tag.
\<close>

datatype release_fn = ReleaseShared "addr option" | ReleaseByTag tag
datatype probe_fn =
    ProbeMember nat "addr option" socksaddr
  | ProbeByTag addr tag socksaddr

record entry =
  e_info :: node_info
  e_failure :: int
  e_success :: int
  e_timeline :: "timeline_event list"
  e_blacklist :: bool
  e_until :: time
  e_lastError :: string
  e_lastFail :: time
  e_lastOK :: time
  e_lastProbe :: duration
  e_active :: "32 word"
  e_probe :: "probe_fn option"
  e_release :: "release_fn option"
  e_initialCheckDone :: bool
  e_available :: bool

definition new_entry :: "node_info \<Rightarrow> entry" where
  "new_entry info =
     \<lparr>e_info = info, e_failure = 0, e_success = 0, e_timeline = [], e_blacklist = False,
      e_until = zero_time, e_lastError = [], e_lastFail = zero_time, e_lastOK = zero_time,
      e_lastProbe = 0, e_active = 0, e_probe = None, e_release = None,
      e_initialCheckDone = False, e_available = False\<rparr>"

record mon_state =
  ents :: "addr \<Rightarrow> entry"
  next_ent :: addr
  nodes :: "tag \<Rightarrow> addr option"
  mon_cfg :: monitor_config
  probeDst :: socksaddr
  probeReady :: bool

section \<open>Operations of an entry\<close>

definition entry_appendTimeline :: "bool \<Rightarrow> int \<Rightarrow> string \<Rightarrow> time \<Rightarrow> entry \<Rightarrow> entry" where
  "entry_appendTimeline success latencyMs errStr now e =
     (let evt = \<lparr>te_Time = now, te_Success = success, te_LatencyMs = latencyMs, te_Error = errStr\<rparr>
      in if maxTimelineSize \<le> length (e_timeline e)
         then e\<lparr>e_timeline := tl (e_timeline e) @ [evt]\<rparr>
         else e\<lparr>e_timeline := e_timeline e @ [evt]\<rparr>)"

definition entry_recordFailure :: "string \<Rightarrow> clock \<Rightarrow> entry \<Rightarrow> entry" where
  "entry_recordFailure err clk e =
     entry_appendTimeline False 0 err (clk 1)
       (e\<lparr>e_failure := e_failure e + 1, e_lastError := err, e_lastFail := clk 0\<rparr>)"

definition entry_recordSuccess :: "clock \<Rightarrow> entry \<Rightarrow> entry" where
  "entry_recordSuccess clk e =
     entry_appendTimeline True 0 [] (clk 1) (e\<lparr>e_success := e_success e + 1, e_lastOK := clk 0\<rparr>)"

definition entry_recordSuccessWithLatency :: "duration \<Rightarrow> clock \<Rightarrow> entry \<Rightarrow> entry" where
  "entry_recordSuccessWithLatency latency clk e =
     (let latencyMs = (if milliseconds latency = 0 \<and> 0 < latency then 1 else milliseconds latency)
      in entry_appendTimeline True latencyMs [] (clk 1)
           (e\<lparr>e_success := e_success e + 1, e_lastOK := clk 0, e_lastProbe := latency\<rparr>))"

definition entry_blacklistUntil :: "time \<Rightarrow> entry \<Rightarrow> entry" where
  "entry_blacklistUntil t e = e\<lparr>e_blacklist := True, e_until := t\<rparr>"

definition entry_clearBlacklist :: "entry \<Rightarrow> entry" where
  "entry_clearBlacklist e = e\<lparr>e_blacklist := False, e_until := zero_time\<rparr>"

definition entry_incActive :: "entry \<Rightarrow> entry" where
  "entry_incActive e = e\<lparr>e_active := e_active e + 1\<rparr>"

definition entry_decActive :: "entry \<Rightarrow> entry" where
  "entry_decActive e = e\<lparr>e_active := e_active e - 1\<rparr>"

definition entry_setProbe :: "probe_fn option \<Rightarrow> entry \<Rightarrow> entry" where
  "entry_setProbe fn e = e\<lparr>e_probe := fn\<rparr>"

definition entry_setRelease :: "release_fn option \<Rightarrow> entry \<Rightarrow> entry" where
  "entry_setRelease fn e = e\<lparr>e_release := fn\<rparr>"

definition entry_recordProbeLatency :: "duration \<Rightarrow> entry \<Rightarrow> entry" where
  "entry_recordProbeLatency d e = e\<lparr>e_lastProbe := d\<rparr>"

definition entry_markInitialCheckDone :: "bool \<Rightarrow> entry \<Rightarrow> entry" where
  "entry_markInitialCheckDone available e =
     e\<lparr>e_initialCheckDone := True, e_available := available\<rparr>"

definition entry_markAvailable :: "bool \<Rightarrow> entry \<Rightarrow> entry" where
  "entry_markAvailable available e = e\<lparr>e_available := available\<rparr>"

section \<open>Entry handles\<close>

definition upd_ent :: "addr \<Rightarrow> (entry \<Rightarrow> entry) \<Rightarrow> 'a mon_state_scheme \<Rightarrow> 'a mon_state_scheme" where
  "upd_ent a f m = m\<lparr>ents := (ents m)(a := f (ents m a))\<rparr>"

text \<open>Every method of a handle returns at once on a nil handle.\<close>

definition on_handle ::
  "addr option \<Rightarrow> (entry \<Rightarrow> entry) \<Rightarrow> 'a mon_state_scheme \<Rightarrow> 'a mon_state_scheme" where
  "on_handle h f m = (case h of None \<Rightarrow> m | Some a \<Rightarrow> upd_ent a f m)"

definition RecordFailure ::
  "addr option \<Rightarrow> string \<Rightarrow> clock \<Rightarrow> 'a mon_state_scheme \<Rightarrow> 'a mon_state_scheme" where
  "RecordFailure h err clk = on_handle h (entry_recordFailure err clk)"

definition RecordSuccess ::
  "addr option \<Rightarrow> clock \<Rightarrow> 'a mon_state_scheme \<Rightarrow> 'a mon_state_scheme" where
  "RecordSuccess h clk = on_handle h (entry_recordSuccess clk)"

definition RecordSuccessWithLatency ::
  "addr option \<Rightarrow> duration \<Rightarrow> clock \<Rightarrow> 'a mon_state_scheme \<Rightarrow> 'a mon_state_scheme" where
  "RecordSuccessWithLatency h d clk = on_handle h (entry_recordSuccessWithLatency d clk)"

definition Blacklist :: "addr option \<Rightarrow> time \<Rightarrow> 'a mon_state_scheme \<Rightarrow> 'a mon_state_scheme" where
  "Blacklist h t = on_handle h (entry_blacklistUntil t)"

definition ClearBlacklist :: "addr option \<Rightarrow> 'a mon_state_scheme \<Rightarrow> 'a mon_state_scheme" where
  "ClearBlacklist h = on_handle h entry_clearBlacklist"

definition IncActive :: "addr option \<Rightarrow> 'a mon_state_scheme \<Rightarrow> 'a mon_state_scheme" where
  "IncActive h = on_handle h entry_incActive"

definition DecActive :: "addr option \<Rightarrow> 'a mon_state_scheme \<Rightarrow> 'a mon_state_scheme" where
  "DecActive h = on_handle h entry_decActive"

definition SetProbe ::
  "addr option \<Rightarrow> probe_fn option \<Rightarrow> 'a mon_state_scheme \<Rightarrow> 'a mon_state_scheme" where
  "SetProbe h fn = on_handle h (entry_setProbe fn)"

definition SetRelease ::
  "addr option \<Rightarrow> release_fn option \<Rightarrow> 'a mon_state_scheme \<Rightarrow> 'a mon_state_scheme" where
  "SetRelease h fn = on_handle h (entry_setRelease fn)"

definition MarkInitialCheckDone ::
  "addr option \<Rightarrow> bool \<Rightarrow> 'a mon_state_scheme \<Rightarrow> 'a mon_state_scheme" where
  "MarkInitialCheckDone h available = on_handle h (entry_markInitialCheckDone available)"

definition MarkAvailable ::
  "addr option \<Rightarrow> bool \<Rightarrow> 'a mon_state_scheme \<Rightarrow> 'a mon_state_scheme" where
  "MarkAvailable h available = on_handle h (entry_markAvailable available)"

definition Availability :: "addr option \<Rightarrow> 'a mon_state_scheme \<Rightarrow> bool \<times> bool" where
  "Availability h m =
     (case h of
        None \<Rightarrow> (False, True)
      | Some a \<Rightarrow> (e_initialCheckDone (ents m a), e_available (ents m a)))"

section \<open>The manager: registration and probe target\<close>

definition ResetNodes :: "'a mon_state_scheme \<Rightarrow> 'a mon_state_scheme" where
  "ResetNodes m = m\<lparr>nodes := Map.empty\<rparr>"

definition Register :: "node_info \<Rightarrow> 'a mon_state_scheme \<Rightarrow> addr \<times> 'a mon_state_scheme" where
  "Register info m =
     (case nodes m (ni_Tag info) of
        None \<Rightarrow>
          (next_ent m,
           m\<lparr>ents := (ents m)(next_ent m := new_entry info),
             nodes := (nodes m)(ni_Tag info \<mapsto> next_ent m),
             next_ent := Suc (next_ent m)\<rparr>)
      | Some a \<Rightarrow> (a, upd_ent a (\<lambda>e. e\<lparr>e_info := info\<rparr>) m))"

definition parsePort :: "string \<Rightarrow> port" where
  "parsePort value =
     (case Atoi value of
        None \<Rightarrow> 80
      | Some p \<Rightarrow> if p \<le> 0 \<or> 65535 < p then 80 else of_int p)"

text \<open>The host and port strings of a probe target, \<open>None\<close> for a blank one.\<close>

definition probe_host_port :: "string \<Rightarrow> (string \<times> string) option" where
  "probe_host_port target0 =
     (let target = TrimSpace target0 in
      if target = [] then None
      else
        (let stripped =
               (if HasPrefix target ''https://'' then TrimPrefix target ''https://''
                else if HasPrefix target ''http://'' then TrimPrefix target ''http://''
                else target);
             normalized =
               (case Index stripped ''/'' of None \<Rightarrow> stripped | Some i \<Rightarrow> take i stripped)
         in case SplitHostPort normalized of
              Some hp \<Rightarrow> Some hp
            | None \<Rightarrow>
                Some (normalized, if HasPrefix target ''https://'' then ''443'' else ''80'')))"

definition applyProbeTarget :: "string \<Rightarrow> 'a mon_state_scheme \<Rightarrow> 'a mon_state_scheme" where
  "applyProbeTarget target m =
     (case probe_host_port target of
        None \<Rightarrow> m\<lparr>probeReady := False, probeDst := Socksaddr_zero\<rparr>
      | Some (host, port) \<Rightarrow>
          m\<lparr>probeDst := ParseSocksaddrHostPort host (parsePort port), probeReady := True\<rparr>)"

definition NewManager :: "monitor_config \<Rightarrow> 'a mon_state_scheme \<Rightarrow> 'a mon_state_scheme" where
  "NewManager cfg m = applyProbeTarget (mc_ProbeTarget cfg) (m\<lparr>mon_cfg := cfg, nodes := Map.empty\<rparr>)"

definition SetProbeTarget :: "string \<Rightarrow> 'a mon_state_scheme \<Rightarrow> 'a mon_state_scheme" where
  "SetProbeTarget target m =
     applyProbeTarget target (m\<lparr>mon_cfg := (mon_cfg m)\<lparr>mc_ProbeTarget := target\<rparr>\<rparr>)"

definition DestinationForProbe :: "'a mon_state_scheme \<Rightarrow> socksaddr \<times> bool" where
  "DestinationForProbe m =
     (if \<not> probeReady m then (Socksaddr_zero, False) else (probeDst m, True))"

section \<open>Snapshots\<close>

text \<open>\<open>Snapshot\<close> embeds \<open>NodeInfo\<close>: a record extension.\<close>

record snapshot = node_info +
  sn_FailureCount :: int
  sn_SuccessCount :: int
  sn_Blacklisted :: bool
  sn_BlacklistedUntil :: time
  sn_ActiveConnections :: "32 word"
  sn_LastError :: string
  sn_LastFailure :: time
  sn_LastSuccess :: time
  sn_LastProbeLatency :: duration
  sn_LastLatencyMs :: int
  sn_Available :: bool
  sn_InitialCheckDone :: bool
  sn_Timeline :: "timeline_event list"

definition latency_ms :: "duration \<Rightarrow> int" where
  "latency_ms d = (if 0 < d then (if milliseconds d = 0 then 1 else milliseconds d) else - 1)"

definition entry_snapshot :: "entry \<Rightarrow> snapshot" where
  "entry_snapshot e =
     node_info.extend (e_info e)
       (snapshot.fields (e_failure e) (e_success e) (e_blacklist e) (e_until e) (e_active e)
          (e_lastError e) (e_lastFail e) (e_lastOK e) (e_lastProbe e) (latency_ms (e_lastProbe e))
          (e_available e) (e_initialCheckDone e) (e_timeline e))"

text \<open>The \<open>less\<close> function of \<open>SnapshotFiltered\<close>, branch by branch.\<close>

definition snapshot_less :: "snapshot \<Rightarrow> snapshot \<Rightarrow> bool" where
  "snapshot_less x y =
     (let lx = sn_LastLatencyMs x; ly = sn_LastLatencyMs y in
      if lx < 0 \<and> ly < 0 then ni_Name x < ni_Name y
      else if lx < 0 then False
      else if ly < 0 then True
      else if lx = ly then ni_Name x < ni_Name y
      else lx < ly)"

definition snapshot_kept :: "bool \<Rightarrow> snapshot \<Rightarrow> bool" where
  "snapshot_kept onlyAvailable snap \<longleftrightarrow>
     \<not> (onlyAvailable \<and> sn_InitialCheckDone snap \<and> \<not> sn_Available snap)"

text \<open>
  \<open>order\<close> is the order in which \<open>range m.nodes\<close> delivered the entries, which Go leaves open.
\<close>

definition SnapshotFiltered :: "addr list \<Rightarrow> bool \<Rightarrow> 'a mon_state_scheme \<Rightarrow> snapshot list" where
  "SnapshotFiltered order onlyAvailable m =
     sort_slice snapshot_less
       (filter (snapshot_kept onlyAvailable) (map (\<lambda>a. entry_snapshot (ents m a)) order))"

definition Snapshot :: "addr list \<Rightarrow> 'a mon_state_scheme \<Rightarrow> snapshot list" where
  "Snapshot order m = SnapshotFiltered order False m"

text \<open>A list of addresses that \<open>range m.nodes\<close> can deliver.\<close>

definition node_order :: "addr list \<Rightarrow> 'a mon_state_scheme \<Rightarrow> bool" where
  "node_order order m \<longleftrightarrow> distinct order \<and> set order = ran (nodes m)"

section \<open>Health checks, manual probe, release\<close>

definition apply_probe_result :: "string + duration \<Rightarrow> time \<Rightarrow> entry \<Rightarrow> entry" where
  "apply_probe_result r now e =
     (case r of
        Inl err \<Rightarrow> e\<lparr>e_lastError := err, e_lastFail := now, e_available := False,
                    e_initialCheckDone := True\<rparr>
      | Inr latency \<Rightarrow> e\<lparr>e_lastOK := now, e_lastProbe := latency, e_available := True,
                        e_initialCheckDone := True\<rparr>)"

text \<open>
  One node of a round: call its probe, then write the result into the entry.  \<open>run\<close> executes a
  probe closure on the state (the pool defines it), \<open>now\<close> is the clock at the write.
\<close>

definition probe_node ::
  "(probe_fn \<Rightarrow> 'a mon_state_scheme \<Rightarrow> (string + duration) \<times> 'a mon_state_scheme) \<Rightarrow>
   (addr \<Rightarrow> time) \<Rightarrow> addr \<Rightarrow> 'a mon_state_scheme \<Rightarrow> 'a mon_state_scheme" where
  "probe_node run now a m =
     (case e_probe (ents m a) of
        None \<Rightarrow> m
      | Some fn \<Rightarrow> (let (r, m') = run fn m in upd_ent a (apply_probe_result r (now a)) m'))"

text \<open>One round over all nodes, in the order in which the goroutines finish.\<close>

definition probeAllNodes ::
  "(probe_fn \<Rightarrow> 'a mon_state_scheme \<Rightarrow> (string + duration) \<times> 'a mon_state_scheme) \<Rightarrow>
   (addr \<Rightarrow> time) \<Rightarrow> addr list \<Rightarrow> 'a mon_state_scheme \<Rightarrow> 'a mon_state_scheme" where
  "probeAllNodes run now order m = fold (probe_node run now) order m"

text \<open>
  The background loop: nothing without a probe target, else one round at once and one per tick
  until the context is done.  \<open>rounds\<close> lists the rounds that ran, each with its own schedule.
\<close>

definition StartPeriodicHealthCheck ::
  "(probe_fn \<Rightarrow> 'a mon_state_scheme \<Rightarrow> (string + duration) \<times> 'a mon_state_scheme) \<Rightarrow>
   ((addr \<Rightarrow> time) \<times> addr list) list \<Rightarrow> 'a mon_state_scheme \<Rightarrow> 'a mon_state_scheme" where
  "StartPeriodicHealthCheck run rounds m =
     (if \<not> snd (DestinationForProbe m) then m
      else fold (\<lambda>(now, order). probeAllNodes run now order) rounds m)"

definition manager_entry :: "tag \<Rightarrow> 'a mon_state_scheme \<Rightarrow> string + addr" where
  "manager_entry t m =
     (case nodes m t of None \<Rightarrow> Inl (''node '' @ t @ '' not found'') | Some a \<Rightarrow> Inr a)"

definition Probe ::
  "(probe_fn \<Rightarrow> 'a mon_state_scheme \<Rightarrow> (string + duration) \<times> 'a mon_state_scheme) \<Rightarrow>
   tag \<Rightarrow> 'a mon_state_scheme \<Rightarrow> (string + duration) \<times> 'a mon_state_scheme" where
  "Probe run t m =
     (case manager_entry t m of
        Inl err \<Rightarrow> (Inl err, m)
      | Inr a \<Rightarrow>
          (case e_probe (ents m a) of
             None \<Rightarrow> (Inl ''probe not available for this node'', m)
           | Some fn \<Rightarrow>
               (case run fn m of
                  (Inl err, m') \<Rightarrow> (Inl err, m')
                | (Inr latency, m') \<Rightarrow>
                    (Inr latency, upd_ent a (entry_recordProbeLatency latency) m'))))"

text \<open>\<open>run_release\<close> executes a release closure; the shared member states define it.\<close>

definition Release ::
  "(release_fn \<Rightarrow> 'a mon_state_scheme \<Rightarrow> 'a mon_state_scheme) \<Rightarrow>
   tag \<Rightarrow> 'a mon_state_scheme \<Rightarrow> string option \<times> 'a mon_state_scheme" where
  "Release run_release t m =
     (case manager_entry t m of
        Inl err \<Rightarrow> (Some err, m)
      | Inr a \<Rightarrow>
          (case e_release (ents m a) of
             None \<Rightarrow> (Some ''release not available for this node'', m)
           | Some fn \<Rightarrow> (None, run_release fn m)))"

section \<open>What the operations do to an entry\<close>

lemmas entry_defs =
  entry_appendTimeline_def entry_recordFailure_def entry_recordSuccess_def
  entry_recordSuccessWithLatency_def entry_blacklistUntil_def entry_clearBlacklist_def
  entry_incActive_def entry_decActive_def entry_setProbe_def entry_setRelease_def
  entry_recordProbeLatency_def entry_markInitialCheckDone_def entry_markAvailable_def
  apply_probe_result_def

lemmas handle_defs =
  RecordFailure_def RecordSuccess_def RecordSuccessWithLatency_def Blacklist_def
  ClearBlacklist_def IncActive_def DecActive_def SetProbe_def SetRelease_def
  MarkInitialCheckDone_def MarkAvailable_def

lemma upd_ent_simps [simp]:
  "ents (upd_ent a f m) = (ents m)(a := f (ents m a))"
  "nodes (upd_ent a f m) = nodes m"
  "next_ent (upd_ent a f m) = next_ent m"
  "mon_cfg (upd_ent a f m) = mon_cfg m"
  "probeDst (upd_ent a f m) = probeDst m"
  "probeReady (upd_ent a f m) = probeReady m"
  "mon_state.more (upd_ent a f m) = mon_state.more m"
  by (simp_all add: upd_ent_def)

lemma on_handle_simps [simp]:
  "nodes (on_handle h f m) = nodes m"
  "next_ent (on_handle h f m) = next_ent m"
  "mon_cfg (on_handle h f m) = mon_cfg m"
  "probeDst (on_handle h f m) = probeDst m"
  "probeReady (on_handle h f m) = probeReady m"
  "mon_state.more (on_handle h f m) = mon_state.more m"
  "on_handle None f m = m"
  "on_handle (Some a) f m = upd_ent a f m"
  by (simp_all add: on_handle_def split: option.splits)

lemma ents_on_handle:
  "ents (on_handle h f m) a = (if h = Some a then f (ents m a) else ents m a)"
  by (simp add: on_handle_def split: option.splits)

text \<open>
  The view of an entry that the blacklist of the pool mirrors, and the part of it that decides
  whether a member is offered.
\<close>

definition blacklist_view :: "entry \<Rightarrow> bool \<times> time" where
  "blacklist_view e = (e_blacklist e, e_until e)"

definition check_view :: "entry \<Rightarrow> bool \<times> bool" where
  "check_view e = (e_initialCheckDone e, e_available e)"

lemma blacklist_view_simps [frame_simps]:
  "blacklist_view (entry_recordFailure err clk e) = blacklist_view e"
  "blacklist_view (entry_recordSuccess clk e) = blacklist_view e"
  "blacklist_view (entry_recordSuccessWithLatency d clk e) = blacklist_view e"
  "blacklist_view (entry_blacklistUntil t e) = (True, t)"
  "blacklist_view (entry_clearBlacklist e) = (False, zero_time)"
  "blacklist_view (entry_incActive e) = blacklist_view e"
  "blacklist_view (entry_decActive e) = blacklist_view e"
  "blacklist_view (entry_setProbe p e) = blacklist_view e"
  "blacklist_view (entry_setRelease r e) = blacklist_view e"
  "blacklist_view (entry_recordProbeLatency d e) = blacklist_view e"
  "blacklist_view (entry_markInitialCheckDone b e) = blacklist_view e"
  "blacklist_view (e\<lparr>e_info := i\<rparr>) = blacklist_view e"
  by (simp_all add: blacklist_view_def entry_defs Let_def)

lemma check_view_simps [frame_simps]:
  "check_view (entry_recordFailure err clk e) = check_view e"
  "check_view (entry_recordSuccess clk e) = check_view e"
  "check_view (entry_recordSuccessWithLatency d clk e) = check_view e"
  "check_view (entry_blacklistUntil t e) = check_view e"
  "check_view (entry_clearBlacklist e) = check_view e"
  "check_view (entry_incActive e) = check_view e"
  "check_view (entry_decActive e) = check_view e"
  "check_view (entry_setProbe p e) = check_view e"
  "check_view (entry_setRelease r e) = check_view e"
  "check_view (entry_recordProbeLatency d e) = check_view e"
  "check_view (entry_markInitialCheckDone b e) = (True, b)"
  "check_view (apply_probe_result res now e) = (True, \<not> isl res)"
  "check_view (e\<lparr>e_info := i\<rparr>) = check_view e"
  by (simp_all add: check_view_def entry_defs Let_def split: sum.splits)

lemma active_simps [frame_simps]:
  "e_active (entry_recordFailure err clk e) = e_active e"
  "e_active (entry_recordSuccess clk e) = e_active e"
  "e_active (entry_recordSuccessWithLatency d clk e) = e_active e"
  "e_active (entry_blacklistUntil t e) = e_active e"
  "e_active (entry_clearBlacklist e) = e_active e"
  "e_active (entry_incActive e) = e_active e + 1"
  "e_active (entry_decActive e) = e_active e - 1"
  "e_active (entry_setProbe p e) = e_active e"
  "e_active (entry_setRelease r e) = e_active e"
  "e_active (entry_recordProbeLatency d e) = e_active e"
  "e_active (entry_markInitialCheckDone b e) = e_active e"
  "e_active (apply_probe_result res now e) = e_active e"
  "e_active (e\<lparr>e_info := i\<rparr>) = e_active e"
  by (simp_all add: entry_defs Let_def split: sum.splits)

lemma Availability_check_view:
  "Availability h m = (case h of None \<Rightarrow> (False, True) | Some a \<Rightarrow> check_view (ents m a))"
  by (simp add: Availability_def check_view_def split: option.splits)

subsection \<open>The history of an entry\<close>

text \<open>
  Every way the program writes an entry, as an operation; \<open>entry_event\<close> is the event the
  operation puts on the timeline, if any.
\<close>

datatype entry_op =
    OpFailure string clock | OpSuccess clock | OpSuccessLatency duration clock
  | OpBlacklist time | OpClearBlacklist | OpIncActive | OpDecActive
  | OpSetProbe "probe_fn option" | OpSetRelease "release_fn option" | OpProbeLatency duration
  | OpInitialCheck bool | OpAvailable bool | OpProbeResult "string + duration" time
  | OpInfo node_info

fun entry_step :: "entry_op \<Rightarrow> entry \<Rightarrow> entry" where
  "entry_step (OpFailure err clk) = entry_recordFailure err clk"
| "entry_step (OpSuccess clk) = entry_recordSuccess clk"
| "entry_step (OpSuccessLatency d clk) = entry_recordSuccessWithLatency d clk"
| "entry_step (OpBlacklist t) = entry_blacklistUntil t"
| "entry_step OpClearBlacklist = entry_clearBlacklist"
| "entry_step OpIncActive = entry_incActive"
| "entry_step OpDecActive = entry_decActive"
| "entry_step (OpSetProbe p) = entry_setProbe p"
| "entry_step (OpSetRelease r) = entry_setRelease r"
| "entry_step (OpProbeLatency d) = entry_recordProbeLatency d"
| "entry_step (OpInitialCheck b) = entry_markInitialCheckDone b"
| "entry_step (OpAvailable b) = entry_markAvailable b"
| "entry_step (OpProbeResult r now) = apply_probe_result r now"
| "entry_step (OpInfo i) = (\<lambda>e. e\<lparr>e_info := i\<rparr>)"

definition mk_event :: "bool \<Rightarrow> int \<Rightarrow> string \<Rightarrow> time \<Rightarrow> timeline_event" where
  "mk_event success ms err now =
     \<lparr>te_Time = now, te_Success = success, te_LatencyMs = ms, te_Error = err\<rparr>"

fun entry_event :: "entry_op \<Rightarrow> timeline_event list" where
  "entry_event (OpFailure err clk) = [mk_event False 0 err (clk 1)]"
| "entry_event (OpSuccess clk) = [mk_event True 0 [] (clk 1)]"
| "entry_event (OpSuccessLatency d clk) =
     [mk_event True (if milliseconds d = 0 \<and> 0 < d then 1 else milliseconds d) [] (clk 1)]"
| "entry_event _ = []"

definition timeline_of :: "entry_op list \<Rightarrow> timeline_event list" where
  "timeline_of ops = concat (map entry_event ops)"

lemma timeline_appendTimeline:
  assumes "e_timeline e = take_last maxTimelineSize evs"
  shows "e_timeline (entry_appendTimeline s ms err now e)
    = take_last maxTimelineSize (evs @ [mk_event s ms err now])"
  using assms
  by (auto simp: entry_appendTimeline_def mk_event_def maxTimelineSize_def take_last_snoc
      take_last_all)

lemma timeline_step:
  "e_timeline e = take_last maxTimelineSize evs \<Longrightarrow>
   e_timeline (entry_step op e) = take_last maxTimelineSize (evs @ entry_event op)"
  by (cases op)
    (simp_all add: entry_recordFailure_def entry_recordSuccess_def
      entry_recordSuccessWithLatency_def Let_def timeline_appendTimeline entry_blacklistUntil_def
      entry_clearBlacklist_def entry_incActive_def entry_decActive_def entry_setProbe_def
      entry_setRelease_def entry_recordProbeLatency_def entry_markInitialCheckDone_def
      entry_markAvailable_def apply_probe_result_def split: sum.splits)

lemma timeline_fold:
  "e_timeline e = take_last maxTimelineSize evs \<Longrightarrow>
   e_timeline (fold entry_step ops e) = take_last maxTimelineSize (evs @ timeline_of ops)"
proof (induction ops arbitrary: e evs)
  case Nil
  then show ?case by (simp add: timeline_of_def)
next
  case (Cons op ops)
  from Cons.IH [OF timeline_step [OF Cons.prems]] show ?case
    by (simp add: timeline_of_def)
qed

text \<open>The counters count the failures and the successes of the whole history.\<close>

lemma counters_step:
  "e_failure (entry_step op e) =
     e_failure e + int (length (filter (\<lambda>ev. \<not> te_Success ev) (entry_event op)))"
  "e_success (entry_step op e) =
     e_success e + int (length (filter te_Success (entry_event op)))"
  by (cases op; simp add: entry_defs Let_def mk_event_def split: sum.splits)+

lemma counters_fold:
  "e_failure (fold entry_step ops e) =
     e_failure e + int (length (filter (\<lambda>ev. \<not> te_Success ev) (timeline_of ops)))"
  "e_success (fold entry_step ops e) =
     e_success e + int (length (filter te_Success (timeline_of ops)))"
  by (induction ops arbitrary: e) (simp_all add: timeline_of_def counters_step)

text \<open>
  The history of an entry.  Whatever sequence of operations runs on a newly registered entry,
  its timeline is exactly the last 20 recorded events in their order, and its two counters are
  the numbers of failure events and of success events of the whole history.
\<close>

theorem entry_history:
  "e_timeline (fold entry_step ops (new_entry info)) = take_last 20 (timeline_of ops) \<and>
   e_failure (fold entry_step ops (new_entry info)) =
     int (length (filter (\<lambda>ev. \<not> te_Success ev) (timeline_of ops))) \<and>
   e_success (fold entry_step ops (new_entry info)) =
     int (length (filter te_Success (timeline_of ops)))"
  using timeline_fold [of "new_entry info" "[]" ops]
  by (simp add: counters_fold new_entry_def take_last_def maxTimelineSize_def)

section \<open>Registration\<close>

text \<open>Addresses in the table are allocated, and two tags never share an entry.\<close>

definition nodes_wf :: "'a mon_state_scheme \<Rightarrow> bool" where
  "nodes_wf m \<longleftrightarrow> (\<forall>t a. nodes m t = Some a \<longrightarrow> a < next_ent m) \<and> inj_on (nodes m) (dom (nodes m))"

lemma nodes_wf_less: "nodes_wf m \<Longrightarrow> nodes m t = Some a \<Longrightarrow> a < next_ent m"
  by (simp add: nodes_wf_def)

lemma nodes_wf_inj: "nodes_wf m \<Longrightarrow> nodes m t = Some a \<Longrightarrow> nodes m u = Some a \<Longrightarrow> t = u"
  by (auto simp: nodes_wf_def inj_on_def dom_def)

lemma nodes_wf_cong:
  "nodes m' = nodes m \<Longrightarrow> next_ent m' = next_ent m \<Longrightarrow> nodes_wf m' = nodes_wf m"
  by (simp only: nodes_wf_def)

lemma nodes_wf_on_handle [simp]: "nodes_wf (on_handle h f m) = nodes_wf m"
  by (simp add: nodes_wf_def)

lemma nodes_wf_upd_ent [simp]: "nodes_wf (upd_ent a f m) = nodes_wf m"
  by (simp add: nodes_wf_def)

lemma nodes_Register: "nodes (snd (Register i m)) = (nodes m)(ni_Tag i \<mapsto> fst (Register i m))"
  by (auto simp: Register_def split: option.splits)

lemma Register_known:
  "nodes m (ni_Tag i) = Some a \<Longrightarrow> Register i m = (a, upd_ent a (\<lambda>e. e\<lparr>e_info := i\<rparr>) m)"
  by (simp add: Register_def)

lemma Register_new:
  "nodes m (ni_Tag i) = None \<Longrightarrow>
   fst (Register i m) = next_ent m \<and> next_ent (snd (Register i m)) = Suc (next_ent m) \<and>
   ents (snd (Register i m)) = (ents m)(next_ent m := new_entry i)"
  by (simp add: Register_def)

lemma nodes_wf_Register:
  assumes "nodes_wf m"
  shows "nodes_wf (snd (Register i m))"
proof (cases "nodes m (ni_Tag i)")
  case None
  with assms show ?thesis
    by (auto simp: nodes_wf_def Register_def inj_on_def dom_def less_SucI)
      (metis less_irrefl)+
next
  case (Some a)
  with assms show ?thesis by (simp add: Register_known)
qed

interpretation node_table: tag_registry nodes Register ni_Tag nodes_wf
proof unfold_locales
  fix m :: "'a mon_state_scheme" and i a t
  assume wf: "nodes_wf m"
  show "nodes m (ni_Tag i) = Some a \<Longrightarrow> fst (Register i m) = a"
    by (simp add: Register_known)
  show "nodes (snd (Register i m)) = (nodes m)(ni_Tag i \<mapsto> fst (Register i m))"
    by (rule nodes_Register)
  show "nodes m (ni_Tag i) = None \<Longrightarrow> nodes m t \<noteq> Some (fst (Register i m))"
    using wf by (auto simp: Register_new dest: nodes_wf_less)
  show "nodes_wf (snd (Register i m))"
    using wf by (rule nodes_wf_Register)
qed

lemma Register_frame [frame_simps]:
  "probeDst (snd (Register i m)) = probeDst m"
  "probeReady (snd (Register i m)) = probeReady m"
  "mon_cfg (snd (Register i m)) = mon_cfg m"
  "mon_state.more (snd (Register i m)) = mon_state.more m"
  by (auto simp: Register_def split: option.splits)

lemma ents_Register:
  "ents (snd (Register i m)) =
     (ents m)(fst (Register i m) :=
        (case nodes m (ni_Tag i) of
           None \<Rightarrow> new_entry i
         | Some a \<Rightarrow> (ents m a)\<lparr>e_info := i\<rparr>))"
  by (simp add: Register_def split: option.splits)

lemma next_ent_Register: "next_ent m \<le> next_ent (snd (Register i m))"
  by (simp add: Register_def split: option.splits)

text \<open>
  Registration.  \<open>Register\<close> puts the tag in the table under the returned entry and leaves all
  other tags and entries as they are.  A known tag keeps its entry with all counters, times and
  flags, only the metadata is replaced; a new tag gets a zero entry that no other tag shares.
\<close>

theorem Register_get_or_create:
  assumes "nodes_wf m" and "Register i m = (a, m')"
  shows "nodes m' = (nodes m)(ni_Tag i \<mapsto> a) \<and> nodes_wf m' \<and> (\<forall>b. b \<noteq> a \<longrightarrow> ents m' b = ents m b) \<and>
    (case nodes m (ni_Tag i) of
       Some c \<Rightarrow> a = c \<and> ents m' a = (ents m c)\<lparr>e_info := i\<rparr>
     | None \<Rightarrow> a \<notin> ran (nodes m) \<and> ents m' a = new_entry i)"
proof -
  have eq: "a = fst (Register i m)" "m' = snd (Register i m)"
    using assms(2) by simp_all
  have "nodes m' = (nodes m)(ni_Tag i \<mapsto> a) \<and> nodes_wf m'"
    using node_table.request_look [OF assms(1), of i] node_table.request_wf [OF assms(1), of i]
    by (simp add: eq)
  moreover have "\<forall>b. b \<noteq> a \<longrightarrow> ents m' b = ents m b"
    by (simp add: eq ents_Register)
  moreover have "nodes m (ni_Tag i) = None \<Longrightarrow> a \<notin> ran (nodes m)"
    using node_table.request_fresh [OF assms(1), of i] by (auto simp: eq ran_def)
  ultimately show ?thesis
    by (auto simp: eq ents_Register Register_known split: option.splits)
qed

definition sample_info :: "tag \<Rightarrow> string \<Rightarrow> node_info" where
  "sample_info t uri =
     \<lparr>ni_Tag = t, ni_Name = t, ni_URI = uri, ni_Mode = ''pool'', ni_ListenAddress = ''0.0.0.0'',
      ni_Port = 2323, ni_Geo = None\<rparr>"

definition empty_monitor :: mon_state where
  "empty_monitor =
     \<lparr>ents = (\<lambda>_. new_entry (sample_info [] [])), next_ent = 0, nodes = Map.empty,
      mon_cfg = \<lparr>mc_Enabled = True, mc_Listen = ''127.0.0.1:9090'', mc_ProbeTarget = [],
        mc_Password = [], mc_ProxyUsername = [], mc_ProxyPassword = [], mc_ExternalIP = [],
        mc_SkipCertVerify = False\<rparr>,
      probeDst = Socksaddr_zero, probeReady = False\<rparr>"

lemma nodes_wf_empty [simp]: "nodes_wf empty_monitor"
  by (simp add: nodes_wf_def empty_monitor_def)

theorem Register_get_or_create_witness:
  "\<exists>a m'. Register (sample_info ''a'' ''ss://a'') empty_monitor = (a, m') \<and>
     nodes m' ''a'' = Some a \<and> ents m' a = new_entry (sample_info ''a'' ''ss://a'')"
proof -
  obtain a m' where reg: "Register (sample_info ''a'' ''ss://a'') empty_monitor = (a, m')"
    by (metis surj_pair)
  have "nodes empty_monitor ''a'' = None" by (simp add: empty_monitor_def)
  with Register_get_or_create [OF nodes_wf_empty reg] reg show ?thesis
    by (auto simp: sample_info_def)
qed

section \<open>The order of snapshots\<close>

text \<open>A measured latency ranks before every missing one.\<close>

datatype latency_rank = Measured int | Unmeasured

instantiation latency_rank :: linorder
begin

fun less_eq_latency_rank :: "latency_rank \<Rightarrow> latency_rank \<Rightarrow> bool" where
  "less_eq_latency_rank x Unmeasured = True"
| "less_eq_latency_rank Unmeasured (Measured b) = False"
| "less_eq_latency_rank (Measured a) (Measured b) = (a \<le> b)"

definition less_latency_rank :: "latency_rank \<Rightarrow> latency_rank \<Rightarrow> bool" where
  "less_latency_rank x y \<longleftrightarrow> x \<le> y \<and> \<not> y \<le> x"

instance
proof
  fix x y z :: latency_rank
  show "(x < y) = (x \<le> y \<and> \<not> y \<le> x)" by (rule less_latency_rank_def)
  show "x \<le> x" by (cases x) auto
  show "x \<le> y \<Longrightarrow> y \<le> z \<Longrightarrow> x \<le> z" by (cases x; cases y; cases z) auto
  show "x \<le> y \<Longrightarrow> y \<le> x \<Longrightarrow> x = y" by (cases x; cases y) auto
  show "x \<le> y \<or> y \<le> x" by (cases x; cases y) auto
qed

end

definition snapshot_key :: "snapshot \<Rightarrow> latency_rank \<times> string" where
  "snapshot_key s =
     (if sn_LastLatencyMs s < 0 then Unmeasured else Measured (sn_LastLatencyMs s), ni_Name s)"

lemma snapshot_less_key: "snapshot_less x y \<longleftrightarrow> snapshot_key x < snapshot_key y"
  by (auto simp: snapshot_less_def snapshot_key_def Let_def less_latency_rank_def less_prod_def')

interpretation snapshot_order: strict_weak_order snapshot_less
  by unfold_locales (auto simp: snapshot_less_key)

text \<open>
  C22. Snapshots.  \<open>SnapshotFiltered\<close> returns exactly the kept snapshots of the registered nodes,
  each once, whatever order the map is walked in: with \<open>onlyAvailable\<close> the nodes that are
  checked and unavailable are left out.  Measured nodes come first by increasing latency, the
  others last, ties by name.
\<close>

theorem SnapshotFiltered_correct:
  assumes "node_order order m"
  shows "mset (SnapshotFiltered order only m) =
      filter_mset (snapshot_kept only)
        (image_mset (\<lambda>a. entry_snapshot (ents m a)) (mset_set (ran (nodes m)))) \<and>
    sorted_wrt (\<lambda>x y. snapshot_key x \<le> snapshot_key y) (SnapshotFiltered order only m)"
proof
  have "mset order = mset_set (ran (nodes m))"
    using assms by (metis mset_set_set node_order_def)
  then show "mset (SnapshotFiltered order only m) =
      filter_mset (snapshot_kept only)
        (image_mset (\<lambda>a. entry_snapshot (ents m a)) (mset_set (ran (nodes m))))"
    by (simp add: SnapshotFiltered_def)
  show "sorted_wrt (\<lambda>x y. snapshot_key x \<le> snapshot_key y) (SnapshotFiltered order only m)"
    using snapshot_order.sorted_sort_slice
    by (auto simp: SnapshotFiltered_def snapshot_less_key not_less elim!: sorted_wrt_mono_rel [rotated])
qed

definition two_nodes :: mon_state where
  "two_nodes =
     upd_ent 0 (apply_probe_result (Inr 5000000) 1)
       (snd (Register (sample_info ''b'' ''ss://b'')
         (snd (Register (sample_info ''a'' ''ss://a'') empty_monitor))))"

theorem SnapshotFiltered_correct_witness:
  "node_order [1, 0] two_nodes \<and> map ni_Name (SnapshotFiltered [1, 0] True two_nodes) = [''a'', ''b''] \<and>
   sorted_wrt (\<lambda>x y. snapshot_key x \<le> snapshot_key y) (SnapshotFiltered [1, 0] True two_nodes)"
proof -
  have "nodes two_nodes = [''a'' \<mapsto> 0, ''b'' \<mapsto> 1]"
    by (simp add: two_nodes_def Register_def empty_monitor_def sample_info_def)
  then have order: "node_order [1, 0] two_nodes"
    by (simp add: node_order_def)
  moreover have "map ni_Name (SnapshotFiltered [1, 0] True two_nodes) = [''a'', ''b'']"
    by code_simp
  ultimately show ?thesis
    using SnapshotFiltered_correct [OF order, of True] by blast
qed

section \<open>The probe target\<close>

lemma parsePort_nonzero: "parsePort v \<noteq> 0"
proof -
  have "(word_of_int p :: port) \<noteq> 0" if "0 < p" "p \<le> 65535" for p
  proof -
    have "uint (word_of_int p :: port) = p"
      using that by (simp add: unsigned_of_int take_bit_int_eq_self)
    with that show ?thesis by auto
  qed
  then show ?thesis
    by (auto simp: parsePort_def split: option.splits)
qed

lemma probe_host_port_parts:
  assumes scheme: "scheme \<in> {[], ''http://'', ''https://''}"
    and auth: "CHR ''/'' \<notin> set auth"
    and auth2: "auth \<notin> {''http:'', ''https:''}"
    and rest: "rest = [] \<or> HasPrefix rest ''/''"
    and trim: "trimmed (scheme @ auth @ rest)" "scheme @ auth \<noteq> []"
  shows "probe_host_port (scheme @ auth @ rest) =
    (case SplitHostPort auth of
       Some hp \<Rightarrow> Some hp
     | None \<Rightarrow> Some (auth, if scheme = ''https://'' then ''443'' else ''80''))"
proof -
  have idx: "(case Index (auth @ rest) ''/'' of None \<Rightarrow> auth @ rest | Some i \<Rightarrow> take i (auth @ rest)) = auth"
    using rest auth by (cases rest) (auto simp: Index_single Index_single_None)
  have no_scheme: "\<not> HasPrefix (auth @ rest) p" if "p \<in> {''http://'', ''https://''}" for p
  proof
    assume "HasPrefix (auth @ rest) p"
    then have "prefix p auth \<or> (\<exists>us. p = auth @ us \<and> prefix us rest)"
      by (auto simp: HasPrefix_iff prefix_append)
    then show False
    proof
      assume "prefix p auth"
      then have "set p \<subseteq> set auth" by (rule set_mono_prefix)
      with that auth show False by auto
    next
      assume "\<exists>us. p = auth @ us \<and> prefix us rest"
      then obtain us where us: "p = auth @ us" "prefix us rest" by blast
      have "takeWhile (\<lambda>c. c \<noteq> CHR ''/'') p = auth"
      proof (cases us)
        case Nil
        with us auth that show ?thesis by auto
      next
        case (Cons u us')
        with us rest have "u = CHR ''/''" by (cases rest) auto
        with us Cons auth show ?thesis by (auto simp: takeWhile_append)
      qed
      with that auth2 show False by auto
    qed
  qed
  have nonempty: "scheme @ auth @ rest \<noteq> []"
    using trim(2) by auto
  have scheme3: "scheme = [] \<or> scheme = ''http://'' \<or> scheme = ''https://''"
    using scheme by auto
  then show ?thesis
  proof (elim disjE)
    assume s: "scheme = []"
    have ns: "\<not> HasPrefix (auth @ rest) ''http://''" "\<not> HasPrefix (auth @ rest) ''https://''"
      by (rule no_scheme, simp)+
    have ne: "auth @ rest \<noteq> []" and tr: "TrimSpace (auth @ rest) = auth @ rest"
      using nonempty trim(1) s by (auto simp: TrimSpace_trimmed)
    have "probe_host_port (auth @ rest) =
        (case SplitHostPort auth of Some hp \<Rightarrow> Some hp | None \<Rightarrow> Some (auth, ''80''))"
      unfolding probe_host_port_def Let_def tr using ns ne idx
      by (cases "SplitHostPort auth") simp_all
    with s show ?thesis by simp
  next
    assume s: "scheme = ''http://''"
    have "TrimPrefix (''http://'' @ auth @ rest) ''http://'' = auth @ rest"
      by (rule TrimPrefix_append)
    then show ?thesis
      using idx trim(1) s
      by (cases "SplitHostPort auth") (simp_all add: probe_host_port_def TrimSpace_trimmed Let_def)
  next
    assume s: "scheme = ''https://''"
    have "TrimPrefix (''https://'' @ auth @ rest) ''https://'' = auth @ rest"
      by (rule TrimPrefix_append)
    then show ?thesis
      using idx trim(1) s
      by (cases "SplitHostPort auth") (simp_all add: probe_host_port_def TrimSpace_trimmed Let_def)
  qed
qed

text \<open>
  The probe target.  A target made of an optional \<open>http://\<close> or \<open>https://\<close>, an authority and
  an optional path (the authority is not itself a bare scheme) makes the manager ready, with the authority's host and port as destination;
  without a port the destination port is 443 after \<open>https://\<close> and 80 otherwise.
\<close>

theorem applyProbeTarget_destination:
  assumes "scheme \<in> {[], ''http://'', ''https://''}" and "CHR ''/'' \<notin> set auth"
    and "auth \<notin> {''http:'', ''https:''}" and "rest = [] \<or> HasPrefix rest ''/''"
    and "trimmed (scheme @ auth @ rest)" and "scheme @ auth \<noteq> []"
  shows "DestinationForProbe (applyProbeTarget (scheme @ auth @ rest) m) =
    (case SplitHostPort auth of
       Some (h, p) \<Rightarrow> ParseSocksaddrHostPort h (parsePort p)
     | None \<Rightarrow> ParseSocksaddrHostPort auth (if scheme = ''https://'' then 443 else 80), True)"
proof -
  have "parsePort ''443'' = 443" "parsePort ''80'' = 80"
    by code_simp+
  then show ?thesis
    by (auto simp: applyProbeTarget_def DestinationForProbe_def probe_host_port_parts [OF assms]
        split: option.splits)
qed

theorem applyProbeTarget_destination_witness:
  "DestinationForProbe (applyProbeTarget ''https://www.google.com/generate_204'' empty_monitor) =
     (ParseSocksaddrHostPort ''www.google.com'' 443, True) \<and>
   DestinationForProbe (applyProbeTarget ''www.apple.com:8080'' empty_monitor) =
     (ParseSocksaddrHostPort ''www.apple.com'' 8080, True)"
proof
  have t1: "trimmed (''https://'' @ ''www.google.com'' @ ''/generate_204'')"
    and t2: "trimmed ([] @ ''www.apple.com:8080'' @ [])"
    by (simp_all add: trimmed_def no_front_def white_space_def)
  have s1: "SplitHostPort ''www.google.com'' = None"
    and s2: "SplitHostPort ''www.apple.com:8080'' = Some (''www.apple.com'', ''8080'')"
    and p: "parsePort ''8080'' = 8080"
    by code_simp+
  show "DestinationForProbe (applyProbeTarget ''https://www.google.com/generate_204'' empty_monitor) =
     (ParseSocksaddrHostPort ''www.google.com'' 443, True)"
    using applyProbeTarget_destination [OF _ _ _ _ t1] s1 by simp
  show "DestinationForProbe (applyProbeTarget ''www.apple.com:8080'' empty_monitor) =
     (ParseSocksaddrHostPort ''www.apple.com'' 8080, True)"
    using applyProbeTarget_destination [OF _ _ _ _ t2, of empty_monitor] s2 p by simp
qed

section \<open>Health checks\<close>

text \<open>
  What a round of health checks relies on when it runs a probe closure: a closure of the given
  kind leaves the verdicts and the closures of all entries alone, and whether it fails is a
  matter of the closure.
\<close>

locale prober =
  fixes run :: "probe_fn \<Rightarrow> 'a mon_state_scheme \<Rightarrow> (string + duration) \<times> 'a mon_state_scheme"
    and good :: "probe_fn \<Rightarrow> bool"
    and fails :: "probe_fn \<Rightarrow> bool"
  assumes run_check: "good fn \<Longrightarrow> check_view (ents (snd (run fn m)) a) = check_view (ents m a)"
    and run_closure: "good fn \<Longrightarrow> e_probe (ents (snd (run fn m)) a) = e_probe (ents m a)"
    and run_fails: "good fn \<Longrightarrow> isl (fst (run fn m)) = fails fn"
begin

lemma probe_node_closure:
  "(\<And>fn. e_probe (ents m a) = Some fn \<Longrightarrow> good fn) \<Longrightarrow>
   e_probe (ents (probe_node run now a m) b) = e_probe (ents m b)"
  by (auto simp: probe_node_def split_beta Let_def run_closure apply_probe_result_def
      split: option.splits sum.splits)

lemma probe_node_check:
  "e_probe (ents m a) = Some fn \<Longrightarrow> good fn \<Longrightarrow>
   check_view (ents (probe_node run now a m) b) =
     (if b = a then (True, \<not> fails fn) else check_view (ents m b))"
  by (auto simp: probe_node_def split_beta Let_def run_check run_fails frame_simps)

text \<open>One round gives every probed entry the verdict of its closure and touches no other.\<close>

lemma round_verdicts:
  assumes "\<forall>a \<in> set order. \<exists>fn. e_probe (ents m a) = Some fn \<and> good fn"
  shows "check_view (ents (probeAllNodes run now order m) b) =
    (if b \<in> set order then (True, \<not> fails (the (e_probe (ents m b)))) else check_view (ents m b))"
  using assms
proof (induction order arbitrary: m)
  case (Cons a order)
  then obtain fn where fn: "e_probe (ents m a) = Some fn" "good fn" by auto
  let ?m = "probe_node run now a m"
  have closures: "e_probe (ents ?m c) = e_probe (ents m c)" for c
    using fn by (intro probe_node_closure) simp
  have "check_view (ents (probeAllNodes run now order ?m) b) =
      (if b \<in> set order then (True, \<not> fails (the (e_probe (ents ?m b)))) else check_view (ents ?m b))"
    using Cons.prems closures by (intro Cons.IH) simp
  then show ?case
    using fn by (simp add: probeAllNodes_def closures probe_node_check [OF fn])
qed (simp add: probeAllNodes_def)

end

end
