(* ===== verification/Shared_State.thy ===== *)
theory Shared_State
  imports Monitor
begin

text \<open>
  The shared member states (\<open>internal/outbound/pool/shared_state.go\<close>): the failure count, the
  blacklist and the count of active connections of a node, shared by every pool instance that
  has the node as a member, and the store that hands them out by tag.

  The world of the pools extends the monitor's: the heap \<open>shs\<close> of member states and the
  \<open>sync.Map\<close> \<open>tag_store\<close> from tags to their addresses.  A pool keeps the address of a state
  after the store has been cleared, as the code's pointers do.
\<close>

section \<open>State and operations\<close>

record shared =
  sh_failures :: int
  sh_blacklisted :: bool
  sh_until :: time
  sh_entry :: "addr option"
  sh_active :: "32 word"

definition new_shared :: shared where
  "new_shared = \<lparr>sh_failures = 0, sh_blacklisted = False, sh_until = zero_time, sh_entry = None,
                 sh_active = 0\<rparr>"

record shared_world = mon_state +
  shs :: "addr \<Rightarrow> shared"
  next_sh :: addr
  tag_store :: "tag \<Rightarrow> addr option"

definition upd_sh ::
  "addr \<Rightarrow> (shared \<Rightarrow> shared) \<Rightarrow> 'a shared_world_scheme \<Rightarrow> 'a shared_world_scheme" where
  "upd_sh s f w = w\<lparr>shs := (shs w)(s := f (shs w s))\<rparr>"

definition acquireSharedState ::
  "tag \<Rightarrow> 'a shared_world_scheme \<Rightarrow> addr \<times> 'a shared_world_scheme" where
  "acquireSharedState t w =
     (case tag_store w t of
        Some s \<Rightarrow> (s, w)
      | None \<Rightarrow>
          (next_sh w,
           w\<lparr>shs := (shs w)(next_sh w := new_shared),
             tag_store := (tag_store w)(t \<mapsto> next_sh w),
             next_sh := Suc (next_sh w)\<rparr>))"

definition lookupSharedState :: "tag \<Rightarrow> 'a shared_world_scheme \<Rightarrow> addr option" where
  "lookupSharedState t w = tag_store w t"

definition ResetSharedStateStore :: "'a shared_world_scheme \<Rightarrow> 'a shared_world_scheme" where
  "ResetSharedStateStore w = w\<lparr>tag_store := Map.empty\<rparr>"

definition attachEntry ::
  "addr \<Rightarrow> addr option \<Rightarrow> 'a shared_world_scheme \<Rightarrow> 'a shared_world_scheme" where
  "attachEntry s h w = (case h of None \<Rightarrow> w | Some a \<Rightarrow> upd_sh s (\<lambda>x. x\<lparr>sh_entry := Some a\<rparr>) w)"

definition entryHandle :: "addr \<Rightarrow> 'a shared_world_scheme \<Rightarrow> addr option" where
  "entryHandle s w = sh_entry (shs w s)"

text \<open>
  \<open>clk 0\<close> is the reading for the end of the blacklisting, the entry's own readings follow it.
  The result is the failure count, whether the threshold was reached, and the end.
\<close>

definition shared_recordFailure ::
  "addr \<Rightarrow> string \<Rightarrow> int \<Rightarrow> duration \<Rightarrow> clock \<Rightarrow> 'a shared_world_scheme \<Rightarrow>
   (int \<times> bool \<times> time) \<times> 'a shared_world_scheme" where
  "shared_recordFailure s cause threshold duration clk w =
     (let count = sh_failures (shs w s) + 1;
          triggered = (threshold \<le> count);
          until = (if triggered then clk 0 + duration else zero_time);
          w1 = upd_sh s (\<lambda>x. if triggered
                 then x\<lparr>sh_failures := 0, sh_blacklisted := True, sh_until := until\<rparr>
                 else x\<lparr>sh_failures := count\<rparr>) w;
          h = entryHandle s w1;
          w2 = RecordFailure h cause (\<lambda>n. clk (Suc n)) w1;
          w3 = (if triggered then Blacklist h until w2 else w2)
      in ((count, triggered, until), w3))"

definition shared_recordSuccess ::
  "addr \<Rightarrow> clock \<Rightarrow> 'a shared_world_scheme \<Rightarrow> 'a shared_world_scheme" where
  "shared_recordSuccess s clk w =
     (let w1 = upd_sh s (\<lambda>x. x\<lparr>sh_failures := 0\<rparr>) w
      in RecordSuccess (entryHandle s w1) clk w1)"

definition shared_isBlacklisted ::
  "addr \<Rightarrow> time \<Rightarrow> 'a shared_world_scheme \<Rightarrow> bool \<times> 'a shared_world_scheme" where
  "shared_isBlacklisted s now w =
     (let expired = (sh_blacklisted (shs w s) \<and> sh_until (shs w s) < now);
          w1 = (if expired
                then upd_sh s (\<lambda>x. x\<lparr>sh_blacklisted := False, sh_until := zero_time\<rparr>) w else w);
          w2 = (if expired then ClearBlacklist (entryHandle s w1) w1 else w1)
      in (sh_blacklisted (shs w1 s), w2))"

definition shared_forceRelease :: "addr \<Rightarrow> 'a shared_world_scheme \<Rightarrow> 'a shared_world_scheme" where
  "shared_forceRelease s w =
     (let w1 = upd_sh s (\<lambda>x. x\<lparr>sh_failures := 0, sh_blacklisted := False, sh_until := zero_time\<rparr>) w
      in ClearBlacklist (entryHandle s w1) w1)"

definition shared_incActive :: "addr \<Rightarrow> 'a shared_world_scheme \<Rightarrow> 'a shared_world_scheme" where
  "shared_incActive s w =
     (let w1 = upd_sh s (\<lambda>x. x\<lparr>sh_active := sh_active x + 1\<rparr>) w
      in IncActive (entryHandle s w1) w1)"

definition shared_decActive :: "addr \<Rightarrow> 'a shared_world_scheme \<Rightarrow> 'a shared_world_scheme" where
  "shared_decActive s w =
     (let w1 = upd_sh s (\<lambda>x. x\<lparr>sh_active := sh_active x - 1\<rparr>) w
      in DecActive (entryHandle s w1) w1)"

definition shared_activeCount :: "addr \<Rightarrow> 'a shared_world_scheme \<Rightarrow> int" where
  "shared_activeCount s w = sint (sh_active (shs w s))"

definition releaseSharedMember :: "tag \<Rightarrow> 'a shared_world_scheme \<Rightarrow> 'a shared_world_scheme" where
  "releaseSharedMember t w =
     (case lookupSharedState t w of None \<Rightarrow> w | Some s \<Rightarrow> shared_forceRelease s w)"

text \<open>
  The release closures of \<open>makeReleaseFunc\<close> and \<open>makeReleaseByTagFunc\<close>, as the monitor's
  \<open>Release\<close> calls them.
\<close>

definition run_release :: "release_fn \<Rightarrow> 'a shared_world_scheme \<Rightarrow> 'a shared_world_scheme" where
  "run_release fn w =
     (case fn of
        ReleaseShared so \<Rightarrow> (case so of None \<Rightarrow> w | Some s \<Rightarrow> shared_forceRelease s w)
      | ReleaseByTag t \<Rightarrow> releaseSharedMember t w)"

lemmas shared_defs =
  shared_recordFailure_def shared_recordSuccess_def shared_isBlacklisted_def
  shared_forceRelease_def shared_incActive_def shared_decActive_def

section \<open>Frames\<close>

lemma upd_sh_simps [simp]:
  "shs (upd_sh s f w) = (shs w)(s := f (shs w s))"
  "tag_store (upd_sh s f w) = tag_store w"
  "next_sh (upd_sh s f w) = next_sh w"
  "ents (upd_sh s f w) = ents w"
  "nodes (upd_sh s f w) = nodes w"
  "next_ent (upd_sh s f w) = next_ent w"
  "probeReady (upd_sh s f w) = probeReady w"
  "probeDst (upd_sh s f w) = probeDst w"
  "shared_world.more (upd_sh s f w) = shared_world.more w"
  by (simp_all add: upd_sh_def)

lemma on_handle_shared [simp]:
  "shs (on_handle h f w) = shs w"
  "tag_store (on_handle h f w) = tag_store w"
  "next_sh (on_handle h f w) = next_sh w"
  "shared_world.more (on_handle h f w) = shared_world.more w"
  by (simp_all add: on_handle_def upd_ent_def split: option.splits)

lemma upd_ent_shared [simp]:
  "shs (upd_ent a f w) = shs w"
  "tag_store (upd_ent a f w) = tag_store w"
  "next_sh (upd_ent a f w) = next_sh w"
  "shared_world.more (upd_ent a f w) = shared_world.more w"
  by (simp_all add: upd_ent_def)

lemma Register_shared [simp]:
  "shs (snd (Register i w)) = shs w"
  "tag_store (snd (Register i w)) = tag_store w"
  "next_sh (snd (Register i w)) = next_sh w"
  "shared_world.more (snd (Register i w)) = shared_world.more w"
  by (auto simp: Register_def upd_ent_def split: option.splits)

text \<open>The operations write one member state and the entry attached to it, nothing else.\<close>

lemma shared_recordFailure_frame [simp]:
  "nodes (snd (shared_recordFailure s c th d clk w)) = nodes w"
  "next_ent (snd (shared_recordFailure s c th d clk w)) = next_ent w"
  "tag_store (snd (shared_recordFailure s c th d clk w)) = tag_store w"
  "next_sh (snd (shared_recordFailure s c th d clk w)) = next_sh w"
  "sh_entry (shs (snd (shared_recordFailure s c th d clk w)) x) = sh_entry (shs w x)"
  "shared_world.more (snd (shared_recordFailure s c th d clk w)) = shared_world.more w"
  "sh_active (shs (snd (shared_recordFailure s c th d clk w)) x) = sh_active (shs w x)"
  by (auto simp: shared_recordFailure_def Let_def handle_defs)

lemma shared_recordSuccess_frame [simp]:
  "nodes (shared_recordSuccess s clk w) = nodes w"
  "next_ent (shared_recordSuccess s clk w) = next_ent w"
  "tag_store (shared_recordSuccess s clk w) = tag_store w"
  "next_sh (shared_recordSuccess s clk w) = next_sh w"
  "sh_entry (shs (shared_recordSuccess s clk w) x) = sh_entry (shs w x)"
  "shared_world.more (shared_recordSuccess s clk w) = shared_world.more w"
  "sh_active (shs (shared_recordSuccess s clk w) x) = sh_active (shs w x)"
  by (auto simp: shared_recordSuccess_def Let_def handle_defs)

lemma shared_isBlacklisted_frame [simp]:
  "nodes (snd (shared_isBlacklisted s now w)) = nodes w"
  "next_ent (snd (shared_isBlacklisted s now w)) = next_ent w"
  "tag_store (snd (shared_isBlacklisted s now w)) = tag_store w"
  "next_sh (snd (shared_isBlacklisted s now w)) = next_sh w"
  "sh_entry (shs (snd (shared_isBlacklisted s now w)) x) = sh_entry (shs w x)"
  "shared_world.more (snd (shared_isBlacklisted s now w)) = shared_world.more w"
  "sh_active (shs (snd (shared_isBlacklisted s now w)) x) = sh_active (shs w x)"
  by (auto simp: shared_isBlacklisted_def Let_def handle_defs)

lemma shared_forceRelease_frame [simp]:
  "nodes (shared_forceRelease s w) = nodes w"
  "next_ent (shared_forceRelease s w) = next_ent w"
  "tag_store (shared_forceRelease s w) = tag_store w"
  "next_sh (shared_forceRelease s w) = next_sh w"
  "sh_entry (shs (shared_forceRelease s w) x) = sh_entry (shs w x)"
  "shared_world.more (shared_forceRelease s w) = shared_world.more w"
  "sh_active (shs (shared_forceRelease s w) x) = sh_active (shs w x)"
  by (auto simp: shared_forceRelease_def Let_def handle_defs)

lemma shared_incActive_frame [simp]:
  "nodes (shared_incActive s w) = nodes w"
  "next_ent (shared_incActive s w) = next_ent w"
  "tag_store (shared_incActive s w) = tag_store w"
  "next_sh (shared_incActive s w) = next_sh w"
  "sh_entry (shs (shared_incActive s w) x) = sh_entry (shs w x)"
  "shared_world.more (shared_incActive s w) = shared_world.more w"
  "sh_active (shs (shared_incActive s w) x) = sh_active (shs w x) + (if x = s then 1 else 0)"
  by (auto simp: shared_incActive_def Let_def handle_defs)

lemma shared_decActive_frame [simp]:
  "nodes (shared_decActive s w) = nodes w"
  "next_ent (shared_decActive s w) = next_ent w"
  "tag_store (shared_decActive s w) = tag_store w"
  "next_sh (shared_decActive s w) = next_sh w"
  "sh_entry (shs (shared_decActive s w) x) = sh_entry (shs w x)"
  "shared_world.more (shared_decActive s w) = shared_world.more w"
  "sh_active (shs (shared_decActive s w) x) = sh_active (shs w x) - (if x = s then 1 else 0)"
  by (auto simp: shared_decActive_def Let_def handle_defs)

text \<open>The blacklist of a member state after each operation.\<close>

definition black :: "addr \<Rightarrow> 'a shared_world_scheme \<Rightarrow> bool \<times> time" where
  "black s w = (sh_blacklisted (shs w s), sh_until (shs w s))"

lemma black_simps [effect_simps]:
  "black x (snd (shared_recordFailure s c th d clk w)) =
     (if x = s \<and> th \<le> sh_failures (shs w s) + 1 then (True, clk 0 + d) else black x w)"
  "black x (shared_recordSuccess s clk w) = black x w"
  "black x (snd (shared_isBlacklisted s now w)) =
     (if x = s \<and> sh_blacklisted (shs w s) \<and> sh_until (shs w s) < now then (False, zero_time)
      else black x w)"
  "black x (shared_forceRelease s w) = (if x = s then (False, zero_time) else black x w)"
  "black x (shared_incActive s w) = black x w"
  "black x (shared_decActive s w) = black x w"
  by (auto simp: black_def shared_defs Let_def handle_defs)

text \<open>The entries after each operation, in the views that the member states mirror.\<close>

lemma view_simps [effect_simps]:
  "blacklist_view (ents (snd (shared_recordFailure s c th d clk w)) a) =
     (if sh_entry (shs w s) = Some a \<and> th \<le> sh_failures (shs w s) + 1 then (True, clk 0 + d)
      else blacklist_view (ents w a))"
  "blacklist_view (ents (shared_recordSuccess s clk w) a) = blacklist_view (ents w a)"
  "blacklist_view (ents (snd (shared_isBlacklisted s now w)) a) =
     (if sh_entry (shs w s) = Some a \<and> sh_blacklisted (shs w s) \<and> sh_until (shs w s) < now
      then (False, zero_time) else blacklist_view (ents w a))"
  "blacklist_view (ents (shared_forceRelease s w) a) =
     (if sh_entry (shs w s) = Some a then (False, zero_time) else blacklist_view (ents w a))"
  "blacklist_view (ents (shared_incActive s w) a) = blacklist_view (ents w a)"
  "blacklist_view (ents (shared_decActive s w) a) = blacklist_view (ents w a)"
  by (auto simp: shared_defs Let_def handle_defs ents_on_handle frame_simps entryHandle_def)

lemma entry_active_simps [effect_simps]:
  "e_active (ents (snd (shared_recordFailure s c th d clk w)) a) = e_active (ents w a)"
  "e_active (ents (shared_recordSuccess s clk w) a) = e_active (ents w a)"
  "e_active (ents (snd (shared_isBlacklisted s now w)) a) = e_active (ents w a)"
  "e_active (ents (shared_forceRelease s w) a) = e_active (ents w a)"
  "e_active (ents (shared_incActive s w) a) =
     e_active (ents w a) + (if sh_entry (shs w s) = Some a then 1 else 0)"
  "e_active (ents (shared_decActive s w) a) =
     e_active (ents w a) - (if sh_entry (shs w s) = Some a then 1 else 0)"
  by (auto simp: shared_defs Let_def handle_defs ents_on_handle frame_simps entryHandle_def)

lemma shared_check_view [frame_simps]:
  "check_view (ents (snd (shared_recordFailure s c th d clk w)) a) = check_view (ents w a)"
  "check_view (ents (shared_recordSuccess s clk w) a) = check_view (ents w a)"
  "check_view (ents (snd (shared_isBlacklisted s now w)) a) = check_view (ents w a)"
  "check_view (ents (shared_forceRelease s w) a) = check_view (ents w a)"
  "check_view (ents (shared_incActive s w) a) = check_view (ents w a)"
  "check_view (ents (shared_decActive s w) a) = check_view (ents w a)"
  by (auto simp: shared_defs Let_def handle_defs ents_on_handle frame_simps)

text \<open>The failure count after each operation.\<close>

lemma failures_simps [effect_simps]:
  "sh_failures (shs (snd (shared_recordFailure s c th d clk w)) x) =
     (if x = s then (if th \<le> sh_failures (shs w s) + 1 then 0 else sh_failures (shs w s) + 1)
      else sh_failures (shs w x))"
  "sh_failures (shs (shared_recordSuccess s clk w) x) =
     (if x = s then 0 else sh_failures (shs w x))"
  "sh_failures (shs (snd (shared_isBlacklisted s now w)) x) = sh_failures (shs w x)"
  "sh_failures (shs (shared_forceRelease s w) x) = (if x = s then 0 else sh_failures (shs w x))"
  "sh_failures (shs (shared_incActive s w) x) = sh_failures (shs w x)"
  "sh_failures (shs (shared_decActive s w) x) = sh_failures (shs w x)"
  by (auto simp: shared_defs Let_def handle_defs)

section \<open>The store of member states\<close>

definition store_wf :: "'a shared_world_scheme \<Rightarrow> bool" where
  "store_wf w \<longleftrightarrow>
     (\<forall>t s. tag_store w t = Some s \<longrightarrow> s < next_sh w) \<and> inj_on (tag_store w) (dom (tag_store w))"

lemma store_wf_less: "store_wf w \<Longrightarrow> tag_store w t = Some s \<Longrightarrow> s < next_sh w"
  by (simp add: store_wf_def)

lemma store_wf_cong:
  "tag_store w' = tag_store w \<Longrightarrow> next_sh w' = next_sh w \<Longrightarrow> store_wf w' = store_wf w"
  by (simp only: store_wf_def)

lemma acquire_known: "tag_store w t = Some s \<Longrightarrow> acquireSharedState t w = (s, w)"
  by (simp add: acquireSharedState_def)

lemma acquire_new:
  "tag_store w t = None \<Longrightarrow>
   acquireSharedState t w = (next_sh w, w\<lparr>shs := (shs w)(next_sh w := new_shared),
     tag_store := (tag_store w)(t \<mapsto> next_sh w), next_sh := Suc (next_sh w)\<rparr>)"
  by (simp add: acquireSharedState_def)

lemma acquire_frame [simp]:
  "nodes (snd (acquireSharedState t w)) = nodes w"
  "ents (snd (acquireSharedState t w)) = ents w"
  "next_ent (snd (acquireSharedState t w)) = next_ent w"
  "probeReady (snd (acquireSharedState t w)) = probeReady w"
  "probeDst (snd (acquireSharedState t w)) = probeDst w"
  "shared_world.more (snd (acquireSharedState t w)) = shared_world.more w"
  by (auto simp: acquireSharedState_def split: option.splits)

interpretation shared_store: tag_registry tag_store acquireSharedState "\<lambda>t. t" store_wf
proof unfold_locales
  fix w :: "'a shared_world_scheme" and t s u
  assume wf: "store_wf w"
  show "tag_store w t = Some s \<Longrightarrow> fst (acquireSharedState t w) = s"
    by (simp add: acquire_known)
  show "tag_store (snd (acquireSharedState t w)) =
      (tag_store w)(t \<mapsto> fst (acquireSharedState t w))"
    by (auto simp: acquireSharedState_def split: option.splits)
  show "tag_store w t = None \<Longrightarrow> tag_store w u \<noteq> Some (fst (acquireSharedState t w))"
    using wf by (auto simp: acquire_new dest: store_wf_less)
  show "store_wf (snd (acquireSharedState t w))"
  proof (cases "tag_store w t")
    case None
    with wf show ?thesis
      by (auto simp: store_wf_def acquire_new inj_on_def dom_def less_SucI) (metis less_irrefl)+
  qed (simp add: acquire_known wf)
qed

section \<open>Blacklisting\<close>

text \<open>
  Expiry.  A state is reported blacklisted exactly when it is blacklisted and its end has
  not passed; after the check the state itself says the same, so an expired blacklisting is
  gone from the state for every later check.
\<close>

theorem isBlacklisted_iff_not_expired:
  "(fst (shared_isBlacklisted s now w) \<longleftrightarrow>
      sh_blacklisted (shs w s) \<and> now \<le> sh_until (shs w s)) \<and>
   sh_blacklisted (shs (snd (shared_isBlacklisted s now w)) s) = fst (shared_isBlacklisted s now w)"
  by (auto simp: shared_isBlacklisted_def Let_def handle_defs)

lemma isBlacklisted_fst:
  "fst (shared_isBlacklisted s now w) \<longleftrightarrow> fst (black s w) \<and> now \<le> snd (black s w)"
  by (auto simp: shared_isBlacklisted_def Let_def black_def)

text \<open>A run of failures of one member, with no success, check or release between them.\<close>

definition fail_run ::
  "addr \<Rightarrow> int \<Rightarrow> duration \<Rightarrow> (string \<times> clock) list \<Rightarrow> 'a shared_world_scheme \<Rightarrow>
   'a shared_world_scheme" where
  "fail_run s th d fs w = fold (\<lambda>(c, clk) w. snd (shared_recordFailure s c th d clk w)) fs w"

lemma fail_run_below:
  "sh_failures (shs w s) + int (length fs) < th \<Longrightarrow>
   sh_failures (shs (fail_run s th d fs w) s) = sh_failures (shs w s) + int (length fs) \<and>
   black s (fail_run s th d fs w) = black s w"
proof (induction fs arbitrary: w)
  case Nil
  then show ?case by (simp add: fail_run_def)
next
  case (Cons f fs)
  obtain c clk where f: "f = (c, clk)" by fastforce
  let ?w = "snd (shared_recordFailure s c th d clk w)"
  have "sh_failures (shs ?w s) = sh_failures (shs w s) + 1" "black s ?w = black s w"
    using Cons.prems by (simp_all add: effect_simps)
  with Cons.IH [of ?w] Cons.prems show ?case
    by (simp add: fail_run_def f)
qed

lemma fail_run_entry [simp]: "sh_entry (shs (fail_run s th d fs w) x) = sh_entry (shs w x)"
  by (induction fs arbitrary: w) (auto simp: fail_run_def split_beta)

text \<open>
  C10. The threshold.  After a success, a release or at the start (no failures counted), fewer
  consecutive failures than the threshold leave the blacklist as it is, and the failure that
  reaches the threshold blacklists the node until its own time plus the duration and starts the
  count afresh.  An attached entry shows the blacklisting with the same end.
\<close>

theorem blacklisted_exactly_at_threshold:
  assumes "sh_failures (shs w s) = 0" and "int (length fs) + 1 = th"
  shows "black s (fail_run s th d fs w) = black s w \<and>
    fst (shared_recordFailure s c th d clk (fail_run s th d fs w)) = (th, True, clk 0 + d) \<and>
    black s (fail_run s th d (fs @ [(c, clk)]) w) = (True, clk 0 + d) \<and>
    sh_failures (shs (fail_run s th d (fs @ [(c, clk)]) w) s) = 0 \<and>
    (\<forall>a. sh_entry (shs w s) = Some a \<longrightarrow>
       blacklist_view (ents (fail_run s th d (fs @ [(c, clk)]) w) a) = (True, clk 0 + d))"
proof -
  let ?v = "fail_run s th d fs w"
  have below: "sh_failures (shs ?v s) = int (length fs)" "black s ?v = black s w"
    using fail_run_below [of w s fs th d] assms by simp_all
  have last: "fail_run s th d (fs @ [(c, clk)]) w = snd (shared_recordFailure s c th d clk ?v)"
    by (simp add: fail_run_def)
  show ?thesis
    using below assms(2)
    by (auto simp: last effect_simps fail_run_entry) (simp_all add: shared_recordFailure_def Let_def)
qed

text \<open>A world in which the pool has one member state with an attached entry.\<close>

definition enroll :: "node_info \<Rightarrow> 'a shared_world_scheme \<Rightarrow> 'a shared_world_scheme" where
  "enroll info w =
     (let (s, w1) = acquireSharedState (ni_Tag info) w;
          (a, w2) = Register info w1
      in attachEntry s (Some a) w2)"

definition empty_world :: shared_world where
  "empty_world =
     mon_state.extend empty_monitor
       (shared_world.fields (\<lambda>_. new_shared) 0 Map.empty)"

theorem blacklisted_exactly_at_threshold_witness:
  "let w = enroll (sample_info ''a'' ''ss://a'') empty_world;
       v = fail_run 0 3 60 [(''e'', \<lambda>_. 1), (''e'', \<lambda>_. 2), (''e'', \<lambda>_. 3)] w
   in sh_failures (shs w 0) = 0 \<and> black 0 v = (True, 63) \<and> blacklist_view (ents v 0) = (True, 63)"
proof -
  let ?w = "enroll (sample_info ''a'' ''ss://a'') empty_world"
  have 0: "sh_failures (shs ?w 0) = 0" and e: "sh_entry (shs ?w 0) = Some 0"
    by (simp_all add: enroll_def empty_world_def acquireSharedState_def Register_def attachEntry_def
        new_shared_def empty_monitor_def mon_state.extend_def shared_world.fields_def
        sample_info_def)
  show ?thesis
    using blacklisted_exactly_at_threshold
      [OF 0, of "[(''e'', \<lambda>_. 1), (''e'', \<lambda>_. 2)]" 3 60 "''e''" "\<lambda>_. 3"] 0 e
    by (simp add: Let_def)
qed

section \<open>The monitor shows what the pool knows\<close>

text \<open>
  The operations on an entry that change neither its blacklist nor its connection count: those
  that the probes, the health check and the registration perform on the entry alone.
\<close>

fun neutral_op :: "entry_op \<Rightarrow> bool" where
  "neutral_op (OpBlacklist t) = False"
| "neutral_op OpClearBlacklist = False"
| "neutral_op OpIncActive = False"
| "neutral_op OpDecActive = False"
| "neutral_op op = True"

lemma neutral_op_views:
  "neutral_op op \<Longrightarrow> blacklist_view (entry_step op e) = blacklist_view e"
  "neutral_op op \<Longrightarrow> e_active (entry_step op e) = e_active e"
  by (cases op; simp add: frame_simps; simp add: blacklist_view_def entry_defs split: sum.splits)+

text \<open>
  The invariant: both tables are well formed and know the same tags, a stored state is attached
  to the entry of its tag, no two states share an entry, and every attached entry shows the
  blacklist and the connection count of its state.
\<close>

definition linked :: "'a shared_world_scheme \<Rightarrow> bool" where
  "linked w \<longleftrightarrow> dom (tag_store w) = dom (nodes w) \<and>
     (\<forall>t s. tag_store w t = Some s \<longrightarrow> sh_entry (shs w s) = nodes w t)"

definition attached_once :: "'a shared_world_scheme \<Rightarrow> bool" where
  "attached_once w \<longleftrightarrow>
     (\<forall>s a. s < next_sh w \<longrightarrow> sh_entry (shs w s) = Some a \<longrightarrow>
        a < next_ent w \<and> (\<forall>s'. s' < next_sh w \<longrightarrow> sh_entry (shs w s') = Some a \<longrightarrow> s' = s))"

definition mirrored :: "addr \<Rightarrow> 'a shared_world_scheme \<Rightarrow> bool" where
  "mirrored s w \<longleftrightarrow>
     (\<forall>a. sh_entry (shs w s) = Some a \<longrightarrow>
        blacklist_view (ents w a) = black s w \<and> e_active (ents w a) = sh_active (shs w s))"

definition world_inv :: "'a shared_world_scheme \<Rightarrow> bool" where
  "world_inv w \<longleftrightarrow> nodes_wf w \<and> store_wf w \<and> linked w \<and> attached_once w \<and>
     (\<forall>s < next_sh w. mirrored s w)"

text \<open>An operation of a member state keeps everything but the mirroring by its frame.\<close>

lemma world_inv_frame:
  assumes inv: "world_inv w"
    and same: "nodes w' = nodes w" "next_ent w' = next_ent w" "tag_store w' = tag_store w"
      "next_sh w' = next_sh w" "\<And>x. sh_entry (shs w' x) = sh_entry (shs w x)"
    and mirror: "\<And>s. s < next_sh w \<Longrightarrow> mirrored s w'"
  shows "world_inv w'"
proof -
  have parts: "nodes_wf w" "store_wf w" "linked w" "attached_once w"
    using inv by (simp_all add: world_inv_def)
  have "nodes_wf w'"
    using parts(1) unfolding nodes_wf_def same .
  moreover have "store_wf w'"
    using parts(2) unfolding store_wf_def same .
  moreover have "linked w'"
    using parts(3) unfolding linked_def same .
  moreover have "attached_once w'"
    using parts(4) unfolding attached_once_def same .
  ultimately show ?thesis
    using mirror by (simp only: world_inv_def same) blast
qed

lemma other_state:
  assumes "world_inv w" "s < next_sh w" "s' < next_sh w" "s' \<noteq> s" "sh_entry (shs w s') = Some a"
  shows "sh_entry (shs w s) \<noteq> Some a"
  using assms by (auto simp: world_inv_def attached_once_def)

lemma mirrored_inv: "world_inv w \<Longrightarrow> s < next_sh w \<Longrightarrow> mirrored s w"
  by (simp add: world_inv_def)

text \<open>
  Each operation of a state keeps the mirroring: at the operated state it writes state and entry
  alike, at any other state the entry is another one.
\<close>

lemma mirrored_ops:
  assumes "world_inv w" "s < next_sh w" "x < next_sh w"
  shows "mirrored x (snd (shared_recordFailure s c th d clk w))"
    and "mirrored x (shared_recordSuccess s clk w)"
    and "mirrored x (snd (shared_isBlacklisted s now w))"
    and "mirrored x (shared_forceRelease s w)"
    and "mirrored x (shared_incActive s w)"
    and "mirrored x (shared_decActive s w)"
  using mirrored_inv [OF assms(1,3)] other_state [OF assms(1,2,3)]
  by (auto simp: mirrored_def effect_simps split: if_splits)

lemma world_inv_neutral:
  assumes "world_inv w" "neutral_op op"
  shows "world_inv (on_handle h (entry_step op) w)"
proof (rule world_inv_frame [OF assms(1)])
  fix s
  assume "s < next_sh w"
  then show "mirrored s (on_handle h (entry_step op) w)"
    using mirrored_inv [OF assms(1)] assms(2)
    by (auto simp: mirrored_def ents_on_handle neutral_op_views black_def)
qed simp_all

lemma world_inv_reset:
  assumes "world_inv w"
  shows "world_inv (ResetNodes (ResetSharedStateStore w))"
proof -
  let ?w = "ResetNodes (ResetSharedStateStore w)"
  have same: "shs ?w = shs w" "ents ?w = ents w" "next_sh ?w = next_sh w" "next_ent ?w = next_ent w"
    "tag_store ?w = Map.empty" "nodes ?w = Map.empty"
    by (simp_all add: ResetNodes_def ResetSharedStateStore_def)
  have "nodes_wf ?w" "store_wf ?w" "linked ?w"
    by (simp_all add: nodes_wf_def store_wf_def linked_def same)
  moreover have "attached_once ?w = attached_once w" and mir: "mirrored s ?w = mirrored s w" for s
    by (simp_all only: attached_once_def mirrored_def black_def same)
  ultimately show ?thesis
    using assms unfolding world_inv_def mir same(3) by blast
qed

lemma enroll_known:
  assumes "world_inv w" "tag_store w (ni_Tag i) = Some s"
  obtains a where "nodes w (ni_Tag i) = Some a" "sh_entry (shs w s) = Some a" "s < next_sh w"
    "enroll i w = upd_sh s (\<lambda>x. x\<lparr>sh_entry := Some a\<rparr>) (upd_ent a (\<lambda>e. e\<lparr>e_info := i\<rparr>) w)"
proof -
  have s: "s < next_sh w"
    using assms by (auto simp: world_inv_def dest: store_wf_less)
  have "ni_Tag i \<in> dom (nodes w)"
    using assms by (auto simp: world_inv_def linked_def)
  then obtain a where a: "nodes w (ni_Tag i) = Some a" by blast
  with assms have "sh_entry (shs w s) = Some a"
    by (auto simp: world_inv_def linked_def)
  with a s that show ?thesis
    by (simp add: enroll_def acquire_known assms(2) Register_known attachEntry_def)
qed

lemma world_inv_enroll:
  assumes inv: "world_inv w"
  shows "world_inv (enroll i w)"
proof (cases "tag_store w (ni_Tag i)")
  case (Some s)
  from inv Some obtain a where a: "nodes w (ni_Tag i) = Some a" "sh_entry (shs w s) = Some a"
    "enroll i w = upd_sh s (\<lambda>x. x\<lparr>sh_entry := Some a\<rparr>) (upd_ent a (\<lambda>e. e\<lparr>e_info := i\<rparr>) w)"
    by (rule enroll_known)
  show ?thesis
    unfolding a(3)
  proof (rule world_inv_frame [OF inv])
    fix x
    assume "x < next_sh w"
    then show "mirrored x (upd_sh s (\<lambda>x. x\<lparr>sh_entry := Some a\<rparr>) (upd_ent a (\<lambda>e. e\<lparr>e_info := i\<rparr>) w))"
      using mirrored_inv [OF inv] a(2) by (auto simp: mirrored_def black_def frame_simps)
  qed (use a(2) in auto)
next
  case None
  with inv have n: "nodes w (ni_Tag i) = None"
    unfolding world_inv_def linked_def by (metis domIff)
  have eq: "enroll i w =
      w\<lparr>ents := (ents w)(next_ent w := new_entry i), next_ent := Suc (next_ent w),
        nodes := (nodes w)(ni_Tag i \<mapsto> next_ent w),
        shs := (shs w)(next_sh w := new_shared\<lparr>sh_entry := Some (next_ent w)\<rparr>),
        next_sh := Suc (next_sh w), tag_store := (tag_store w)(ni_Tag i \<mapsto> next_sh w)\<rparr>"
    by (simp add: enroll_def acquire_new None Register_def n attachEntry_def upd_sh_def)
  have "nodes_wf (snd (Register i w))" "store_wf (snd (acquireSharedState (ni_Tag i) w))"
    using inv nodes_wf_Register shared_store.request_wf by (auto simp: world_inv_def)
  moreover have "nodes (enroll i w) = nodes (snd (Register i w))"
      "next_ent (enroll i w) = next_ent (snd (Register i w))"
      "tag_store (enroll i w) = tag_store (snd (acquireSharedState (ni_Tag i) w))"
      "next_sh (enroll i w) = next_sh (snd (acquireSharedState (ni_Tag i) w))"
    by (simp_all add: eq Register_def n acquire_new None)
  ultimately have tables: "nodes_wf (enroll i w)" "store_wf (enroll i w)"
    by (simp_all only: nodes_wf_cong [of "enroll i w" "snd (Register i w)"]
        store_wf_cong [of "enroll i w" "snd (acquireSharedState (ni_Tag i) w)"])
  have old: "s < next_sh w \<and> s \<noteq> next_sh w" if "tag_store w t = Some s" for t s
    using inv that by (auto simp: world_inv_def dest: store_wf_less)
  have att: "s < next_sh w \<Longrightarrow> sh_entry (shs w s) = Some a \<Longrightarrow> a < next_ent w" for s a
    using inv by (simp add: world_inv_def attached_once_def)
  have "linked (enroll i w)"
    using inv old by (auto simp: eq world_inv_def linked_def)
  moreover have "attached_once (enroll i w)"
  proof -
    have new: "sh_entry (shs (enroll i w) x) =
        (if x = next_sh w then Some (next_ent w) else sh_entry (shs w x))" for x
      by (simp add: eq)
    have size: "next_sh (enroll i w) = Suc (next_sh w)" "next_ent (enroll i w) = Suc (next_ent w)"
      by (simp_all add: eq)
    have once: "s = s'" if "s < next_sh w" "s' < next_sh w" "sh_entry (shs w s) = Some a"
        "sh_entry (shs w s') = Some a" for s s' a
      using inv that unfolding world_inv_def attached_once_def by blast
    show ?thesis
      unfolding attached_once_def new size
      using att once by (auto simp: less_Suc_eq split: if_splits)
  qed
  moreover have "mirrored s (enroll i w)" if "s < Suc (next_sh w)" for s
  proof (cases "s = next_sh w")
    case True
    then show ?thesis
      by (simp add: eq mirrored_def black_def blacklist_view_def new_shared_def new_entry_def)
  next
    case False
    with that have "s < next_sh w" by simp
    then show ?thesis
      using mirrored_inv [OF inv, of s] att [of s]
      by (auto simp: eq mirrored_def black_def dest: less_not_refl2)
  qed
  ultimately show ?thesis
    using tables by (simp add: world_inv_def eq)
qed

lemma world_inv_op:
  assumes "world_inv w" "s < next_sh w"
  shows "world_inv (snd (shared_recordFailure s c th d clk w))"
    and "world_inv (shared_recordSuccess s clk w)"
    and "world_inv (snd (shared_isBlacklisted s now w))"
    and "world_inv (shared_forceRelease s w)"
    and "world_inv (shared_incActive s w)"
    and "world_inv (shared_decActive s w)"
  by (rule world_inv_frame [OF assms(1)]; (rule mirrored_ops [OF assms], assumption | simp))+

text \<open>What the invariant says of a stored state.\<close>

lemma world_inv_shows:
  assumes inv: "world_inv w" and "tag_store w t = Some s"
  shows "\<exists>a. nodes w t = Some a \<and> e_blacklist (ents w a) = sh_blacklisted (shs w s) \<and>
    e_until (ents w a) = sh_until (shs w s) \<and> e_active (ents w a) = sh_active (shs w s)"
proof -
  from inv assms(2) obtain a where a: "nodes w t = Some a" "sh_entry (shs w s) = Some a"
    unfolding world_inv_def linked_def by (metis domD domI)
  have "mirrored s w"
    using inv assms(2) by (auto simp: world_inv_def dest: store_wf_less)
  with a show ?thesis
    by (auto simp: mirrored_def blacklist_view_def black_def)
qed

end
