(* ===== verification/Pool.thy ===== *)
theory Pool
  imports Shared_State
begin

text \<open>
  The pool outbound (\<open>internal/outbound/pool/pool.go\<close>): registration and initialisation of the
  members, the choice of the candidates for a connection, dialling with retries in the three
  scheduling modes, tracked connections, health probes and their closures.

  Pools are heap objects, as the probe closures refer to them.  What sing-box does is a
  parameter: \<open>mgr\<close> looks an outbound up by tag (an outbound is an opaque number), \<open>networks\<close>
  lists the networks of an outbound, \<open>dial\<close> gives the outcome of each attempt.  The recycling
  of candidate slices through \<open>sync.Pool\<close> is not modelled: a slice goes back only after its
  last use.
\<close>

section \<open>Data\<close>

record member_meta =
  mm_Name :: string
  mm_URI :: string
  mm_Mode :: string
  mm_ListenAddress :: string
  mm_Port :: port
  mm_Geo :: "geo_info option"

definition zero_meta :: member_meta where
  "zero_meta = \<lparr>mm_Name = [], mm_URI = [], mm_Mode = [], mm_ListenAddress = [], mm_Port = 0,
                mm_Geo = None\<rparr>"

record pool_options =
  po_Mode :: string
  po_Members :: "tag list"
  po_FailureThreshold :: int
  po_BlacklistDuration :: duration
  po_Metadata :: "tag \<Rightarrow> member_meta option"

record member =
  mb_outbound :: nat
  mb_tag :: tag
  mb_entry :: "addr option"
  mb_shared :: "addr option"

record pool =
  pl_options :: pool_options
  pl_mode :: string
  pl_members :: "member list"
  pl_rrCounter :: "32 word"
  pl_monitor :: bool

record pool_world = shared_world +
  pools :: "addr \<Rightarrow> pool"
  next_pool :: addr

definition modeSequential :: string where "modeSequential = ''sequential''"
definition modeRandom :: string where "modeRandom = ''random''"
definition modeBalance :: string where "modeBalance = ''balance''"

definition defaultDialAttempts :: int where
  "defaultDialAttempts = 3"

definition upd_pool :: "addr \<Rightarrow> (pool \<Rightarrow> pool) \<Rightarrow> 'a pool_world_scheme \<Rightarrow> 'a pool_world_scheme" where
  "upd_pool p f w = w\<lparr>pools := (pools w)(p := f (pools w p))\<rparr>"

section \<open>Creation and initialisation\<close>

definition normalizeOptions :: "pool_options \<Rightarrow> pool_options" where
  "normalizeOptions opt =
     opt\<lparr>po_FailureThreshold :=
           (if po_FailureThreshold opt \<le> 0 then 3 else po_FailureThreshold opt),
         po_BlacklistDuration :=
           (if po_BlacklistDuration opt \<le> 0 then 24 * hour else po_BlacklistDuration opt),
         po_Mode :=
           (if ToLower (po_Mode opt) = modeRandom then modeRandom
            else if ToLower (po_Mode opt) = modeBalance then modeBalance
            else modeSequential)\<rparr>"

text \<open>The \<open>NodeInfo\<close> of a member; a tag without metadata has the zero \<open>MemberMeta\<close>.\<close>

definition member_info :: "pool_options \<Rightarrow> tag \<Rightarrow> node_info" where
  "member_info opt t =
     (let meta = (case po_Metadata opt t of None \<Rightarrow> zero_meta | Some x \<Rightarrow> x)
      in \<lparr>ni_Tag = t, ni_Name = mm_Name meta, ni_URI = mm_URI meta, ni_Mode = mm_Mode meta,
          ni_ListenAddress = mm_ListenAddress meta, ni_Port = mm_Port meta, ni_Geo = mm_Geo meta\<rparr>)"

definition makeProbeByTagFunc :: "addr \<Rightarrow> tag \<Rightarrow> 'a pool_world_scheme \<Rightarrow> probe_fn option" where
  "makeProbeByTagFunc p t w =
     (if \<not> pl_monitor (pools w p) then None
      else (case DestinationForProbe w of
              (dst, ok) \<Rightarrow> if ok then Some (ProbeByTag p t dst) else None))"

definition makeProbeFunc :: "addr \<Rightarrow> member \<Rightarrow> 'a pool_world_scheme \<Rightarrow> probe_fn option" where
  "makeProbeFunc p mb w =
     (if \<not> pl_monitor (pools w p) then None
      else (case DestinationForProbe w of
              (dst, ok) \<Rightarrow>
                if ok then Some (ProbeMember (mb_outbound mb) (mb_entry mb) dst) else None))"

definition makeReleaseByTagFunc :: "tag \<Rightarrow> release_fn" where
  "makeReleaseByTagFunc t = ReleaseByTag t"

definition makeReleaseFunc :: "member \<Rightarrow> release_fn" where
  "makeReleaseFunc mb = ReleaseShared (mb_shared mb)"

text \<open>\<open>if probe := ...; probe != nil { entry.SetProbe(probe) }\<close>\<close>

definition set_probe_if :: "addr \<Rightarrow> probe_fn option \<Rightarrow> 'a mon_state_scheme \<Rightarrow> 'a mon_state_scheme" where
  "set_probe_if a fn w = (case fn of None \<Rightarrow> w | Some f \<Rightarrow> SetProbe (Some a) (Some f) w)"

text \<open>The registration of one member by \<open>newPool\<close>.\<close>

definition register_member :: "addr \<Rightarrow> tag \<Rightarrow> 'a pool_world_scheme \<Rightarrow> 'a pool_world_scheme" where
  "register_member p t w =
     (let (s, w1) = acquireSharedState t w;
          (a, w2) = Register (member_info (pl_options (pools w p)) t) w1;
          w3 = attachEntry s (Some a) w2;
          w4 = SetRelease (Some a) (Some (makeReleaseByTagFunc t)) w3
      in set_probe_if a (makeProbeByTagFunc p t w4) w4)"

text \<open>
  \<open>has_manager\<close> and \<open>has_monitor\<close> say whether the context carries sing-box's outbound manager
  and the monitor manager.
\<close>

definition newPool ::
  "bool \<Rightarrow> bool \<Rightarrow> pool_options \<Rightarrow> 'a pool_world_scheme \<Rightarrow> (string + addr) \<times> 'a pool_world_scheme" where
  "newPool has_manager has_monitor opts w =
     (if po_Members opts = [] then (Inl ''pool requires at least one member'', w)
      else if \<not> has_manager then (Inl ''missing outbound manager in context'', w)
      else
        (let normalized = normalizeOptions opts;
             p = next_pool w;
             w1 = w\<lparr>pools := (pools w)(p := \<lparr>pl_options = normalized, pl_mode = po_Mode normalized,
                      pl_members = [], pl_rrCounter = 0, pl_monitor = has_monitor\<rparr>),
                    next_pool := Suc p\<rparr>;
             w2 = (if has_monitor then fold (register_member p) (po_Members normalized) w1 else w1)
         in (Inr p, w2)))"

text \<open>One round of the loop of \<open>initializeMembersLocked\<close>, for an outbound that was found.\<close>

definition init_member ::
  "addr \<Rightarrow> tag \<Rightarrow> nat \<Rightarrow> 'a pool_world_scheme \<Rightarrow> member \<times> 'a pool_world_scheme" where
  "init_member p t detour w =
     (let (s, w1) = acquireSharedState t w;
          mb = \<lparr>mb_outbound = detour, mb_tag = t, mb_entry = entryHandle s w1, mb_shared = Some s\<rparr>
      in if pl_monitor (pools w p)
         then
           (let (a, w2) = Register (member_info (pl_options (pools w p)) t) w1;
                w3 = attachEntry s (Some a) w2;
                mb' = mb\<lparr>mb_entry := Some a\<rparr>;
                w4 = SetRelease (Some a) (Some (makeReleaseFunc mb')) w3
            in (mb', set_probe_if a (makeProbeFunc p mb' w4) w4))
         else (mb, w1))"

fun init_loop ::
  "addr \<Rightarrow> (tag \<Rightarrow> nat option) \<Rightarrow> tag list \<Rightarrow> member list \<Rightarrow> 'a pool_world_scheme \<Rightarrow>
   (string + member list) \<times> 'a pool_world_scheme" where
  "init_loop p mgr [] members w = (Inr members, w)"
| "init_loop p mgr (t # ts) members w =
     (case mgr t of
        None \<Rightarrow> (Inl (''pool member not found: '' @ t), w)
      | Some detour \<Rightarrow>
          (let (mb, w') = init_member p t detour w in init_loop p mgr ts (members @ [mb]) w'))"

definition initializeMembers ::
  "addr \<Rightarrow> (tag \<Rightarrow> nat option) \<Rightarrow> 'a pool_world_scheme \<Rightarrow> string option \<times> 'a pool_world_scheme" where
  "initializeMembers p mgr w =
     (if pl_members (pools w p) \<noteq> [] then (None, w)
      else
        (case init_loop p mgr (po_Members (pl_options (pools w p))) [] w of
           (Inl err, w') \<Rightarrow> (Some err, w')
         | (Inr members, w') \<Rightarrow> (None, upd_pool p (\<lambda>x. x\<lparr>pl_members := members\<rparr>) w')))"

text \<open>\<open>Start\<close> initialises at the stage \<open>start\<close> only; the health check then runs by itself.\<close>

definition pool_Start ::
  "addr \<Rightarrow> bool \<Rightarrow> (tag \<Rightarrow> nat option) \<Rightarrow> 'a pool_world_scheme \<Rightarrow>
   string option \<times> 'a pool_world_scheme" where
  "pool_Start p start_stage mgr w = (if \<not> start_stage then (None, w) else initializeMembers p mgr w)"

section \<open>Member operations\<close>

definition pool_recordFailure ::
  "addr \<Rightarrow> member \<Rightarrow> string \<Rightarrow> clock \<Rightarrow> 'a pool_world_scheme \<Rightarrow> 'a pool_world_scheme" where
  "pool_recordFailure p mb cause clk w =
     (case mb_shared mb of
        None \<Rightarrow> w
      | Some s \<Rightarrow>
          snd (shared_recordFailure s cause (po_FailureThreshold (pl_options (pools w p)))
                 (po_BlacklistDuration (pl_options (pools w p))) clk w))"

definition pool_recordSuccess ::
  "member \<Rightarrow> clock \<Rightarrow> 'a pool_world_scheme \<Rightarrow> 'a pool_world_scheme" where
  "pool_recordSuccess mb clk w =
     (case mb_shared mb of None \<Rightarrow> w | Some s \<Rightarrow> shared_recordSuccess s clk w)"

definition pool_incActive :: "member \<Rightarrow> 'a pool_world_scheme \<Rightarrow> 'a pool_world_scheme" where
  "pool_incActive mb w = (case mb_shared mb of None \<Rightarrow> w | Some s \<Rightarrow> shared_incActive s w)"

definition pool_decActive :: "member \<Rightarrow> 'a pool_world_scheme \<Rightarrow> 'a pool_world_scheme" where
  "pool_decActive mb w = (case mb_shared mb of None \<Rightarrow> w | Some s \<Rightarrow> shared_decActive s w)"

section \<open>Candidates\<close>

definition member_isBlacklisted ::
  "member \<Rightarrow> time \<Rightarrow> 'a pool_world_scheme \<Rightarrow> bool \<times> 'a pool_world_scheme" where
  "member_isBlacklisted mb now w =
     (case mb_shared mb of None \<Rightarrow> (False, w) | Some s \<Rightarrow> shared_isBlacklisted s now w)"

fun availableMembers ::
  "(nat \<Rightarrow> string list) \<Rightarrow> time \<Rightarrow> string \<Rightarrow> member list \<Rightarrow> 'a pool_world_scheme \<Rightarrow>
   member list \<times> 'a pool_world_scheme" where
  "availableMembers networks now network [] w = ([], w)"
| "availableMembers networks now network (mb # mbs) w =
     (let (checked, available) = Availability (mb_entry mb) w in
      if checked \<and> \<not> available then availableMembers networks now network mbs w
      else
        (let (black, w') = member_isBlacklisted mb now w;
             (rest, w'') = availableMembers networks now network mbs w'
         in if black \<or> (network \<noteq> [] \<and> network \<notin> set (networks (mb_outbound mb)))
            then (rest, w'') else (mb # rest, w'')))"

text \<open>The loop that stops at the first member that is not blacklisted.\<close>

fun all_blacklisted ::
  "time \<Rightarrow> member list \<Rightarrow> 'a pool_world_scheme \<Rightarrow> bool \<times> 'a pool_world_scheme" where
  "all_blacklisted now [] w = (True, w)"
| "all_blacklisted now (mb # mbs) w =
     (let (black, w') = member_isBlacklisted mb now w
      in if \<not> black then (False, w') else all_blacklisted now mbs w')"

definition release_member :: "member \<Rightarrow> 'a pool_world_scheme \<Rightarrow> 'a pool_world_scheme" where
  "release_member mb w =
     (case mb_shared mb of None \<Rightarrow> w | Some s \<Rightarrow> shared_forceRelease s w)"

definition releaseIfAllBlacklisted ::
  "time \<Rightarrow> member list \<Rightarrow> 'a pool_world_scheme \<Rightarrow> bool \<times> 'a pool_world_scheme" where
  "releaseIfAllBlacklisted now members w =
     (if members = [] then (False, w)
      else
        (case all_blacklisted now members w of
           (False, w') \<Rightarrow> (False, w')
         | (True, w') \<Rightarrow> (True, fold release_member members w')))"

definition pickCandidates ::
  "addr \<Rightarrow> (tag \<Rightarrow> nat option) \<Rightarrow> (nat \<Rightarrow> string list) \<Rightarrow> time \<Rightarrow> string \<Rightarrow>
   'a pool_world_scheme \<Rightarrow> (string + member list) \<times> 'a pool_world_scheme" where
  "pickCandidates p mgr networks now network w =
     (case (if pl_members (pools w p) = [] then initializeMembers p mgr w else (None, w)) of
        (Some err, w1) \<Rightarrow> (Inl err, w1)
      | (None, w1) \<Rightarrow>
          (let members = pl_members (pools w1 p);
               (c2, w2) = availableMembers networks now network members w1;
               (c3, w3) =
                 (if c2 = []
                  then (case releaseIfAllBlacklisted now members w2 of
                          (True, w') \<Rightarrow> availableMembers networks now network members w'
                        | (False, w') \<Rightarrow> (c2, w'))
                  else (c2, w2))
           in if c3 = [] then (Inl ''no healthy proxy available'', w3) else (Inr c3, w3)))"

section \<open>Dialling\<close>

text \<open>
  \<open>rand.Shuffle\<close>: Fisher and Yates' exchange of each position, from the last down, with a drawn
  one not behind it.  \<open>draws i\<close> is the number the generator delivers for position \<open>i\<close>.
\<close>

definition swap :: "nat \<Rightarrow> nat \<Rightarrow> 'b list \<Rightarrow> 'b list" where
  "swap i j xs = xs[i := xs ! j, j := xs ! i]"

fun shuffle_from :: "nat \<Rightarrow> (nat \<Rightarrow> nat) \<Rightarrow> 'b list \<Rightarrow> 'b list" where
  "shuffle_from 0 draws xs = xs"
| "shuffle_from (Suc i) draws xs =
     shuffle_from i draws (swap (Suc i) (draws (Suc i) mod (Suc (Suc i))) xs)"

definition Shuffle :: "(nat \<Rightarrow> nat) \<Rightarrow> 'b list \<Rightarrow> 'b list" where
  "Shuffle draws xs = shuffle_from (length xs - 1) draws xs"

definition member_active :: "member \<Rightarrow> 'a pool_world_scheme \<Rightarrow> int" where
  "member_active mb w = (case mb_shared mb of None \<Rightarrow> 0 | Some s \<Rightarrow> shared_activeCount s w)"

definition dial_attempts :: "'b list \<Rightarrow> nat" where
  "dial_attempts candidates =
     (if defaultDialAttempts \<le> 0 \<or> int (length candidates) < defaultDialAttempts
      then length candidates else nat defaultDialAttempts)"

text \<open>\<open>rrCounter.Add(1) - 1\<close>: the counter's old value; the counter wraps at 2^32.\<close>

definition next_rr :: "addr \<Rightarrow> 'a pool_world_scheme \<Rightarrow> nat \<times> 'a pool_world_scheme" where
  "next_rr p w =
     (unat (pl_rrCounter (pools w p)),
      upd_pool p (\<lambda>x. x\<lparr>pl_rrCounter := pl_rrCounter x + 1\<rparr>) w)"

text \<open>The members that an attempt loop tries, in its order, for each mode.\<close>

definition dial_order ::
  "addr \<Rightarrow> (nat \<Rightarrow> nat) \<Rightarrow> member list \<Rightarrow> 'a pool_world_scheme \<Rightarrow>
   member list \<times> 'a pool_world_scheme" where
  "dial_order p draws candidates w =
     (let n = dial_attempts candidates; mode = pl_mode (pools w p) in
      if mode = modeRandom then (take n (Shuffle draws candidates), w)
      else if mode = modeBalance then
        (take n (sort_slice (\<lambda>x y. member_active x w < member_active y w) candidates), w)
      else
        (let (old, w') = next_rr p w; startIdx = old mod length candidates
         in (map (\<lambda>i. candidates ! ((startIdx + i) mod length candidates)) [0..<n], w')))"

text \<open>A tracked connection: the wrapped one, the member it counts for, whether it was closed.\<close>

record 'c tracked_conn =
  tc_conn :: 'c
  tc_member :: member
  tc_closed :: bool

definition wrapConn :: "'c \<Rightarrow> member \<Rightarrow> 'c tracked_conn" where
  "wrapConn c mb = \<lparr>tc_conn = c, tc_member = mb, tc_closed = False\<rparr>"

text \<open>\<open>Close\<close>: the error of the wrapped connection's \<open>Close\<close> is passed on; \<open>once\<close> guards the release.\<close>

definition tracked_Close ::
  "string option \<Rightarrow> 'c tracked_conn \<Rightarrow> 'a pool_world_scheme \<Rightarrow>
   string option \<times> 'c tracked_conn \<times> 'a pool_world_scheme" where
  "tracked_Close close_err t w =
     (close_err, t\<lparr>tc_closed := True\<rparr>,
      if tc_closed t then w else pool_decActive (tc_member t) w)"

text \<open>
  \<open>tryDial\<close> and \<open>tryListen\<close>: one attempt at a member.  \<open>dial\<close> gives the outcome for the
  outbound, \<open>clk\<close> the clock of the attempt.
\<close>

definition tryDial ::
  "addr \<Rightarrow> (nat \<Rightarrow> string + 'c) \<Rightarrow> clock \<Rightarrow> member \<Rightarrow> 'a pool_world_scheme \<Rightarrow>
   (string + 'c tracked_conn) \<times> 'a pool_world_scheme" where
  "tryDial p dial clk mb w =
     (let w1 = pool_incActive mb w in
      case dial (mb_outbound mb) of
        Inl err \<Rightarrow> (Inl err, pool_recordFailure p mb err clk (pool_decActive mb w1))
      | Inr c \<Rightarrow> (Inr (wrapConn c mb), pool_recordSuccess mb clk w1))"

text \<open>The attempt loop: \<open>lastErr\<close> is the error of the last failed attempt.\<close>

fun dial_loop ::
  "addr \<Rightarrow> (nat \<Rightarrow> nat \<Rightarrow> string + 'c) \<Rightarrow> (nat \<Rightarrow> clock) \<Rightarrow> nat \<Rightarrow> string option \<Rightarrow>
   member list \<Rightarrow> 'a pool_world_scheme \<Rightarrow>
   (string option + 'c tracked_conn) \<times> 'a pool_world_scheme" where
  "dial_loop p dial clks i lastErr [] w = (Inl lastErr, w)"
| "dial_loop p dial clks i lastErr (mb # mbs) w =
     (case tryDial p (dial i) (clks i) mb w of
        (Inr c, w') \<Rightarrow> (Inr c, w')
      | (Inl err, w') \<Rightarrow> dial_loop p dial clks (Suc i) (Some err) mbs w')"

definition dial_candidates ::
  "addr \<Rightarrow> (nat \<Rightarrow> nat) \<Rightarrow> (nat \<Rightarrow> nat \<Rightarrow> string + 'c) \<Rightarrow> (nat \<Rightarrow> clock) \<Rightarrow> string \<Rightarrow>
   member list \<Rightarrow> 'a pool_world_scheme \<Rightarrow> (string + 'c tracked_conn) \<times> 'a pool_world_scheme" where
  "dial_candidates p draws dial clks failed candidates w =
     (let (order, w1) = dial_order p draws candidates w in
      case dial_loop p dial clks 0 None order w1 of
        (Inr c, w2) \<Rightarrow> (Inr c, w2)
      | (Inl None, w2) \<Rightarrow> (Inl failed, w2)
      | (Inl (Some err), w2) \<Rightarrow> (Inl err, w2))"

definition pool_DialContext ::
  "addr \<Rightarrow> (tag \<Rightarrow> nat option) \<Rightarrow> (nat \<Rightarrow> string list) \<Rightarrow> time \<Rightarrow> (nat \<Rightarrow> nat) \<Rightarrow>
   (nat \<Rightarrow> nat \<Rightarrow> string + 'c) \<Rightarrow> (nat \<Rightarrow> clock) \<Rightarrow> string \<Rightarrow> 'a pool_world_scheme \<Rightarrow>
   (string + 'c tracked_conn) \<times> 'a pool_world_scheme" where
  "pool_DialContext p mgr networks now draws dial clks network w =
     (case pickCandidates p mgr networks now network w of
        (Inl err, w1) \<Rightarrow> (Inl err, w1)
      | (Inr candidates, w1) \<Rightarrow>
          dial_candidates p draws dial clks ''dial failed'' candidates w1)"

definition pool_ListenPacket ::
  "addr \<Rightarrow> (tag \<Rightarrow> nat option) \<Rightarrow> (nat \<Rightarrow> string list) \<Rightarrow> time \<Rightarrow> (nat \<Rightarrow> nat) \<Rightarrow>
   (nat \<Rightarrow> nat \<Rightarrow> string + 'c) \<Rightarrow> (nat \<Rightarrow> clock) \<Rightarrow> 'a pool_world_scheme \<Rightarrow>
   (string + 'c tracked_conn) \<times> 'a pool_world_scheme" where
  "pool_ListenPacket p mgr networks now draws listen clks w =
     (case pickCandidates p mgr networks now ''udp'' w of
        (Inl err, w1) \<Rightarrow> (Inl err, w1)
      | (Inr candidates, w1) \<Rightarrow>
          dial_candidates p draws listen clks ''listen packet failed'' candidates w1)"

section \<open>Choosing a single member\<close>

text \<open>The running minimum of the balance mode; \<open>None\<close> is the nil \<open>selected\<close>.\<close>

fun select_min ::
  "member option \<Rightarrow> int \<Rightarrow> member list \<Rightarrow> 'a pool_world_scheme \<Rightarrow> member option" where
  "select_min selected minActive [] w = selected"
| "select_min selected minActive (mb # mbs) w =
     (if selected = None \<or> member_active mb w < minActive
      then select_min (Some mb) (member_active mb w) mbs w
      else select_min selected minActive mbs w)"

text \<open>\<open>draw\<close> is the generator's number behind \<open>rng.Intn\<close>.\<close>

definition selectMember ::
  "addr \<Rightarrow> nat \<Rightarrow> member list \<Rightarrow> 'a pool_world_scheme \<Rightarrow> member option \<times> 'a pool_world_scheme" where
  "selectMember p draw candidates w =
     (if pl_mode (pools w p) = modeRandom then
        (Some (candidates ! (draw mod length candidates)), w)
      else if pl_mode (pools w p) = modeBalance then (select_min None 0 candidates w, w)
      else
        (let (old, w') = next_rr p w in (Some (candidates ! (old mod length candidates)), w')))"

definition pickMember ::
  "addr \<Rightarrow> (tag \<Rightarrow> nat option) \<Rightarrow> (nat \<Rightarrow> string list) \<Rightarrow> time \<Rightarrow> nat \<Rightarrow> string \<Rightarrow>
   'a pool_world_scheme \<Rightarrow> (string + member option) \<times> 'a pool_world_scheme" where
  "pickMember p mgr networks now draw network w =
     (case pickCandidates p mgr networks now network w of
        (Inl err, w1) \<Rightarrow> (Inl err, w1)
      | (Inr candidates, w1) \<Rightarrow>
          (let (mb, w2) = selectMember p draw candidates w1 in (Inr mb, w2)))"

section \<open>Probes\<close>

text \<open>
  What a probe meets outside the program: the outcome of dialling the outbound, of writing the
  request and of reading the first byte (\<open>None\<close> is success), and the clock before the dial,
  before the write, after the read and at the end.  \<open>pe_addr\<close> is \<open>Socksaddr.AddrString\<close>.
\<close>

record probe_env =
  pe_dial :: "nat \<Rightarrow> socksaddr \<Rightarrow> string option"
  pe_write :: "nat \<Rightarrow> string \<Rightarrow> string option"
  pe_read :: "nat \<Rightarrow> string option"
  pe_addr :: "socksaddr \<Rightarrow> string"
  pe_start :: "nat \<Rightarrow> time"
  pe_sent :: "nat \<Rightarrow> time"
  pe_first :: "nat \<Rightarrow> time"
  pe_end :: "nat \<Rightarrow> time"
  pe_clock :: "nat \<Rightarrow> clock"

definition crlf :: string where
  "crlf = [CHR 0x0D, CHR 0x0A]"

definition probe_request :: "string \<Rightarrow> string" where
  "probe_request host =
     ''GET /generate_204 HTTP/1.1'' @ crlf @ ''Host: '' @ host @ crlf @ ''Connection: close'' @ crlf @
     ''User-Agent: Mozilla/5.0'' @ crlf @ crlf"

definition httpProbe :: "probe_env \<Rightarrow> nat \<Rightarrow> string \<Rightarrow> string + duration" where
  "httpProbe env ob host =
     (case pe_write env ob (probe_request host) of
        Some err \<Rightarrow> Inl (''write request: '' @ err)
      | None \<Rightarrow>
          (case pe_read env ob of
             Some err \<Rightarrow> Inl (''read response: '' @ err)
           | None \<Rightarrow> Inr (pe_first env ob - pe_sent env ob)))"

text \<open>Dial and HTTP probe of one outbound; the latency covers both.\<close>

definition probe_outcome :: "probe_env \<Rightarrow> nat \<Rightarrow> socksaddr \<Rightarrow> string + duration" where
  "probe_outcome env ob dst =
     (case pe_dial env ob dst of
        Some err \<Rightarrow> Inl err
      | None \<Rightarrow>
          (case httpProbe env ob (pe_addr env dst) of
             Inl err \<Rightarrow> Inl err
           | Inr _ \<Rightarrow> Inr (pe_end env ob - pe_start env ob)))"

text \<open>The body of the closure of \<open>makeProbeFunc\<close>.\<close>

definition probe_member ::
  "probe_env \<Rightarrow> nat \<Rightarrow> addr option \<Rightarrow> socksaddr \<Rightarrow> 'a pool_world_scheme \<Rightarrow>
   (string + duration) \<times> 'a pool_world_scheme" where
  "probe_member env ob h dst w =
     (case probe_outcome env ob dst of
        Inl err \<Rightarrow> (Inl err, RecordFailure h err (pe_clock env ob) w)
      | Inr d \<Rightarrow> (Inr d, RecordSuccessWithLatency h d (pe_clock env ob) w))"

text \<open>The body of the closure of \<open>makeProbeByTagFunc\<close>.\<close>

definition probe_by_tag ::
  "probe_env \<Rightarrow> (tag \<Rightarrow> nat option) \<Rightarrow> addr \<Rightarrow> tag \<Rightarrow> socksaddr \<Rightarrow> 'a pool_world_scheme \<Rightarrow>
   (string + duration) \<times> 'a pool_world_scheme" where
  "probe_by_tag env mgr p t dst w =
     (case (if pl_members (pools w p) = [] then initializeMembers p mgr w else (None, w)) of
        (Some err, w1) \<Rightarrow> (Inl err, w1)
      | (None, w1) \<Rightarrow>
          (case find (\<lambda>mb. mb_tag mb = t) (pl_members (pools w1 p)) of
             None \<Rightarrow> (Inl (''member not found: '' @ t), w1)
           | Some mb \<Rightarrow> probe_member env (mb_outbound mb) (mb_entry mb) dst w1))"

definition run_probe ::
  "probe_env \<Rightarrow> (tag \<Rightarrow> nat option) \<Rightarrow> probe_fn \<Rightarrow> 'a pool_world_scheme \<Rightarrow>
   (string + duration) \<times> 'a pool_world_scheme" where
  "run_probe env mgr fn w =
     (case fn of
        ProbeMember ob h dst \<Rightarrow> probe_member env ob h dst w
      | ProbeByTag p t dst \<Rightarrow> probe_by_tag env mgr p t dst w)"

text \<open>
  The first health check of a started pool.  Without a probe target every member counts as
  available; otherwise each member is probed and marked with the outcome.
\<close>

definition startup_probe ::
  "probe_env \<Rightarrow> socksaddr \<Rightarrow> member \<Rightarrow> 'a pool_world_scheme \<Rightarrow> 'a pool_world_scheme" where
  "startup_probe env dst mb w =
     (case probe_member env (mb_outbound mb) (mb_entry mb) dst w of
        (r, w') \<Rightarrow> MarkInitialCheckDone (mb_entry mb) (\<not> isl r) w')"

definition probeAllMembersOnStartup ::
  "probe_env \<Rightarrow> addr \<Rightarrow> 'a pool_world_scheme \<Rightarrow> 'a pool_world_scheme" where
  "probeAllMembersOnStartup env p w =
     (case DestinationForProbe w of
        (dst, False) \<Rightarrow>
          fold (\<lambda>mb. MarkInitialCheckDone (mb_entry mb) True) (pl_members (pools w p)) w
      | (dst, True) \<Rightarrow> fold (startup_probe env dst) (pl_members (pools w p)) w)"

end
