(* ===== verification/Pool_Choice.thy ===== *)
theory Pool_Choice
  imports Pool
begin

text \<open>
  What the pool outbound guarantees about the members it offers and the order in which it tries
  them: initialisation, the filter of the candidates, the release of a pool whose members are
  all blacklisted, the three scheduling modes.
\<close>

section \<open>Options\<close>

text \<open>
  Normalised options.  Whatever the configuration holds, a pool runs with one of the three
  modes (the one named, in any case, and sequential for anything else), a positive failure
  threshold and a positive blacklist duration; valid values are kept and normalising again
  changes nothing.
\<close>

theorem normalizeOptions_valid:
  "po_Mode (normalizeOptions opt) \<in> {modeSequential, modeRandom, modeBalance} \<and>
   (\<forall>m \<in> {modeSequential, modeRandom, modeBalance}.
      EqualFold (po_Mode opt) m \<longrightarrow> po_Mode (normalizeOptions opt) = m) \<and>
   0 < po_FailureThreshold (normalizeOptions opt) \<and>
   (0 < po_FailureThreshold opt \<longrightarrow>
      po_FailureThreshold (normalizeOptions opt) = po_FailureThreshold opt) \<and>
   0 < po_BlacklistDuration (normalizeOptions opt) \<and>
   (0 < po_BlacklistDuration opt \<longrightarrow>
      po_BlacklistDuration (normalizeOptions opt) = po_BlacklistDuration opt) \<and>
   po_Members (normalizeOptions opt) = po_Members opt \<and>
   normalizeOptions (normalizeOptions opt) = normalizeOptions opt"
proof -
  have modes: "ToLower modeSequential = modeSequential" "ToLower modeRandom = modeRandom"
    "ToLower modeBalance = modeBalance"
    by code_simp+
  have "modeSequential \<noteq> modeRandom" "modeSequential \<noteq> modeBalance" "modeRandom \<noteq> modeBalance"
    by (simp_all add: modeSequential_def modeRandom_def modeBalance_def)
  then show ?thesis
    by (simp add: normalizeOptions_def EqualFold_def modes hour_def second_def)
qed

theorem normalizeOptions_valid_witness:
  "let opt = \<lparr>po_Mode = ''BALANCE'', po_Members = [''a''], po_FailureThreshold = - 1,
              po_BlacklistDuration = 5, po_Metadata = Map.empty\<rparr>
   in po_Mode (normalizeOptions opt) = modeBalance \<and> po_BlacklistDuration (normalizeOptions opt) = 5"
proof -
  have "EqualFold ''BALANCE'' modeBalance" by code_simp
  then show ?thesis
    using normalizeOptions_valid [of "\<lparr>po_Mode = ''BALANCE'', po_Members = [''a''],
        po_FailureThreshold = - 1, po_BlacklistDuration = 5, po_Metadata = Map.empty\<rparr>"]
    by simp
qed

section \<open>Initialisation\<close>

lemma set_probe_if_on_handle:
  "set_probe_if a fn w = (case fn of None \<Rightarrow> w | Some f \<Rightarrow> on_handle (Some a) (entry_step (OpSetProbe (Some f))) w)"
  by (simp add: set_probe_if_def SetProbe_def split: option.splits)

lemma set_probe_if_frame [simp]:
  "nodes (set_probe_if a fn w) = nodes w"
  "next_ent (set_probe_if a fn w) = next_ent w"
  "probeReady (set_probe_if a fn w) = probeReady w"
  "probeDst (set_probe_if a fn w) = probeDst w"
  "mon_state.more (set_probe_if a fn w) = mon_state.more w"
  by (simp_all add: set_probe_if_def handle_defs split: option.splits)

lemma pools_more: "shared_world.more w = shared_world.more w' \<Longrightarrow> pools w = pools w'"
  by (metis pool_world.surjective pool_world.select_convs(1) shared_world.surjective
      shared_world.select_convs(4) pool_world.simps(1))

lemma upd_pool_frame [simp]:
  "ents (upd_pool p f w) = ents w" "nodes (upd_pool p f w) = nodes w"
  "next_ent (upd_pool p f w) = next_ent w" "shs (upd_pool p f w) = shs w"
  "tag_store (upd_pool p f w) = tag_store w" "next_sh (upd_pool p f w) = next_sh w"
  "probeReady (upd_pool p f w) = probeReady w" "probeDst (upd_pool p f w) = probeDst w"
  "pools (upd_pool p f w) = (pools w)(p := f (pools w p))"
  "next_pool (upd_pool p f w) = next_pool w"
  by (simp_all add: upd_pool_def)

lemma attachEntry_frame [simp]:
  "ents (attachEntry s h w) = ents w" "nodes (attachEntry s h w) = nodes w"
  "next_ent (attachEntry s h w) = next_ent w" "tag_store (attachEntry s h w) = tag_store w"
  "next_sh (attachEntry s h w) = next_sh w" "probeReady (attachEntry s h w) = probeReady w"
  "probeDst (attachEntry s h w) = probeDst w"
  "shared_world.more (attachEntry s h w) = shared_world.more w"
  by (simp_all add: attachEntry_def split: option.splits)

text \<open>The operations of member states, of entries and of the registries keep the pools.\<close>

lemma shared_world_more_on_handles [simp]:
  "shared_world.more (SetRelease h r w) = shared_world.more w"
  "shared_world.more (SetProbe h pf w) = shared_world.more w"
  "shared_world.more (set_probe_if a fn w) = shared_world.more w"
  "shared_world.more (RecordFailure h e clk w) = shared_world.more w"
  "shared_world.more (RecordSuccessWithLatency h d clk w) = shared_world.more w"
  "shared_world.more (MarkInitialCheckDone h b w) = shared_world.more w"
  by (simp_all add: handle_defs set_probe_if_def split: option.splits)

lemma pools_frame [simp]:
  "pools (on_handle h f w) = pools w"
  "pools (SetRelease h r w) = pools w"
  "pools (set_probe_if a fn w) = pools w"
  "pools (MarkInitialCheckDone h b w) = pools w"
  "pools (RecordFailure h e clk w) = pools w"
  "pools (RecordSuccessWithLatency h d clk w) = pools w"
  "pools (snd (Register i w)) = pools w"
  "pools (snd (acquireSharedState t w)) = pools w"
  "pools (attachEntry s h w) = pools w"
  "pools (snd (shared_recordFailure s c th d clk w)) = pools w"
  "pools (shared_recordSuccess s clk w) = pools w"
  "pools (snd (shared_isBlacklisted s now w)) = pools w"
  "pools (shared_forceRelease s w) = pools w"
  "pools (shared_incActive s w) = pools w"
  "pools (shared_decActive s w) = pools w"
  by (rule pools_more; simp)+

lemma pools_init_member [simp]: "pools (snd (init_member p t ob w)) = pools w"
  by (simp add: init_member_def split_beta Let_def)

lemma pools_init_loop: "pools (snd (init_loop p mgr ts ms w)) = pools w"
  by (induction p mgr ts ms w rule: init_loop.induct) (simp_all add: split_beta split: option.splits)

lemma init_member_fields [simp]:
  "mb_tag (fst (init_member p t ob w)) = t" "mb_outbound (fst (init_member p t ob w)) = ob"
  by (simp_all add: init_member_def split_beta Let_def)

lemma init_loop_found:
  "\<forall>t \<in> set ts. mgr t \<noteq> None \<Longrightarrow>
   \<exists>new. fst (init_loop p mgr ts ms w) = Inr (ms @ new) \<and> map mb_tag new = ts \<and>
     map (\<lambda>mb. Some (mb_outbound mb)) new = map mgr ts"
proof (induction ts arbitrary: ms w)
  case Nil
  then show ?case by simp
next
  case (Cons t ts)
  then obtain ob where ob: "mgr t = Some ob" by auto
  let ?r = "init_member p t ob w"
  from Cons obtain new where
    "fst (init_loop p mgr ts (ms @ [fst ?r]) (snd ?r)) = Inr ((ms @ [fst ?r]) @ new)"
    "map mb_tag new = ts" "map (\<lambda>mb. Some (mb_outbound mb)) new = map mgr ts"
    by (metis list.set_intros(2))
  then show ?case
    using ob by (intro exI [of _ "fst ?r # new"]) (simp add: split_beta)
qed

lemma init_loop_missing:
  "\<exists>t \<in> set ts. mgr t = None \<Longrightarrow>
   \<exists>t \<in> set ts. mgr t = None \<and> fst (init_loop p mgr ts ms w) = Inl (''pool member not found: '' @ t)"
proof (induction ts arbitrary: ms w)
  case (Cons t ts)
  show ?case
  proof (cases "mgr t")
    case None
    then show ?thesis by auto
  next
    case (Some ob)
    with Cons.prems have "\<exists>t \<in> set ts. mgr t = None" by auto
    from Cons.IH [OF this] Some show ?thesis by (auto simp: split_beta)
  qed
qed simp

text \<open>
  Initialisation.  It succeeds exactly when the outbound manager knows every configured tag;
  then the pool has one member per tag, in the order of the configuration, with the outbound of
  its tag.  When a tag is unknown the error names it and the pool stays without members, so that
  the next use tries again; a pool that has members is left alone.  No other pool is touched.
\<close>

theorem initializeMembers_all_or_nothing:
  "case initializeMembers p mgr w of (err, w') \<Rightarrow>
     pools w' = (pools w)(p := pools w' p) \<and>
     (if pl_members (pools w p) \<noteq> [] then err = None \<and> w' = w
      else if \<exists>t \<in> set (po_Members (pl_options (pools w p))). mgr t = None
      then pools w' p = pools w p \<and>
        (\<exists>t \<in> set (po_Members (pl_options (pools w p))).
           mgr t = None \<and> err = Some (''pool member not found: '' @ t))
      else err = None \<and>
        map mb_tag (pl_members (pools w' p)) = po_Members (pl_options (pools w p)) \<and>
        map (\<lambda>mb. Some (mb_outbound mb)) (pl_members (pools w' p)) =
          map mgr (po_Members (pl_options (pools w p))))"
proof (cases "pl_members (pools w p) = []")
  case False
  then show ?thesis by (simp add: initializeMembers_def)
next
  case True
  let ?ts = "po_Members (pl_options (pools w p))"
  have keep: "pools (snd (init_loop p mgr ?ts [] w)) = pools w" by (rule pools_init_loop)
  show ?thesis
  proof (cases "\<exists>t \<in> set ?ts. mgr t = None")
    case missing: True
    from init_loop_missing [OF this, of p "[]" w] obtain t w' where
      "t \<in> set ?ts" "mgr t = None"
      "init_loop p mgr ?ts [] w = (Inl (''pool member not found: '' @ t), w')"
      by (metis prod.collapse)
    with True missing keep show ?thesis by (auto simp: initializeMembers_def)
  next
    case found: False
    then have "\<forall>t \<in> set ?ts. mgr t \<noteq> None" by auto
    from init_loop_found [OF this, of p "[]" w] obtain new w' where
      "init_loop p mgr ?ts [] w = (Inr new, w')" "map mb_tag new = ?ts"
      "map (\<lambda>mb. Some (mb_outbound mb)) new = map mgr ?ts"
      by (metis append_Nil prod.collapse)
    with True found keep show ?thesis by (auto simp: initializeMembers_def)
  qed
qed

section \<open>Candidates\<close>

text \<open>
  The conditions under which a member is offered: not known to be unavailable, not blacklisted at
  \<open>now\<close>, and its outbound supports the network (an empty network asks for none).
\<close>

definition usable :: "member \<Rightarrow> 'a pool_world_scheme \<Rightarrow> bool" where
  "usable mb w \<longleftrightarrow> \<not> (fst (Availability (mb_entry mb) w) \<and> \<not> snd (Availability (mb_entry mb) w))"

definition barred :: "time \<Rightarrow> member \<Rightarrow> 'a pool_world_scheme \<Rightarrow> bool" where
  "barred now mb w \<longleftrightarrow>
     (case mb_shared mb of
        None \<Rightarrow> False
      | Some s \<Rightarrow> sh_blacklisted (shs w s) \<and> now \<le> sh_until (shs w s))"

definition supports :: "(nat \<Rightarrow> string list) \<Rightarrow> string \<Rightarrow> member \<Rightarrow> bool" where
  "supports networks network mb \<longleftrightarrow> network = [] \<or> network \<in> set (networks (mb_outbound mb))"

definition offered ::
  "(nat \<Rightarrow> string list) \<Rightarrow> time \<Rightarrow> string \<Rightarrow> 'a pool_world_scheme \<Rightarrow> member \<Rightarrow> bool" where
  "offered networks now network w mb \<longleftrightarrow>
     usable mb w \<and> \<not> barred now mb w \<and> supports networks network mb"

lemma barred_black:
  "barred now mb w \<longleftrightarrow>
     (case mb_shared mb of None \<Rightarrow> False | Some s \<Rightarrow> fst (black s w) \<and> now \<le> snd (black s w))"
  by (simp add: barred_def black_def split: option.splits)

lemma usable_check_view:
  "usable mb w \<longleftrightarrow>
     (case mb_entry mb of None \<Rightarrow> True | Some a \<Rightarrow> check_view (ents w a) \<noteq> (True, False))"
  by (cases "mb_entry mb") (auto simp: usable_def Availability_check_view prod_eq_iff)

lemma member_isBlacklisted_fst: "fst (member_isBlacklisted mb now w) = barred now mb w"
  by (simp add: member_isBlacklisted_def barred_black isBlacklisted_fst split: option.splits)

text \<open>A check of one member, at the same time, changes no verdict on any member.\<close>

lemma barred_member_isBlacklisted [simp]:
  "barred now mb (snd (member_isBlacklisted x now w)) = barred now mb w"
  by (cases "mb_shared x"; cases "mb_shared mb"; simp add: barred_black member_isBlacklisted_def effect_simps)
    (simp add: black_def)

lemma usable_member_isBlacklisted [simp]:
  "usable mb (snd (member_isBlacklisted x now w)) = usable mb w"
  by (simp add: usable_check_view member_isBlacklisted_def frame_simps split: option.splits)

lemma member_isBlacklisted_keeps [simp]:
  "offered networks now network (snd (member_isBlacklisted x now w)) =
     offered networks now network w"
  "pools (snd (member_isBlacklisted x now w)) = pools w"
  by (simp_all add: offered_def fun_eq_iff)
    (simp add: member_isBlacklisted_def split: option.splits)

lemma availableMembers_result:
  "fst (availableMembers networks now network mbs w) = filter (offered networks now network w) mbs"
  by (induction mbs arbitrary: w)
    (auto simp: split_beta Let_def member_isBlacklisted_fst offered_def usable_def [symmetric]
      supports_def, auto simp: usable_def)

lemma availableMembers_keeps [simp]:
  "offered networks' now network' (snd (availableMembers networks now network mbs w)) =
     offered networks' now network' w"
  "barred now mb (snd (availableMembers networks now network mbs w)) = barred now mb w"
  "usable mb (snd (availableMembers networks now network mbs w)) = usable mb w"
  "pools (snd (availableMembers networks now network mbs w)) = pools w"
  by (induction mbs arbitrary: w) (simp_all add: split_beta Let_def)

lemma all_blacklisted_result:
  "fst (all_blacklisted now mbs w) \<longleftrightarrow> (\<forall>mb \<in> set mbs. barred now mb w)"
  by (induction mbs arbitrary: w) (simp_all add: split_beta Let_def member_isBlacklisted_fst)

lemma all_blacklisted_keeps [simp]:
  "usable mb (snd (all_blacklisted now mbs w)) = usable mb w"
  "barred now mb (snd (all_blacklisted now mbs w)) = barred now mb w"
  "pools (snd (all_blacklisted now mbs w)) = pools w"
  by (induction mbs arbitrary: w) (simp_all add: split_beta Let_def)

lemma release_member_keeps [simp]:
  "usable mb (release_member x w) = usable mb w"
  "pools (release_member x w) = pools w"
  by (auto simp: usable_check_view release_member_def frame_simps split: option.splits)

lemma barred_release:
  "barred now mb (release_member x w) \<longleftrightarrow>
     barred now mb w \<and> mb_shared mb \<noteq> mb_shared x"
  by (auto simp: barred_black release_member_def effect_simps split: option.splits)

lemma releases_keep [simp]:
  "usable mb (fold release_member xs w) = usable mb w"
  "pools (fold release_member xs w) = pools w"
  by (induction xs arbitrary: w) simp_all

lemma barred_releases:
  "barred now mb (fold release_member xs w) \<longleftrightarrow>
     barred now mb w \<and> mb_shared mb \<notin> mb_shared ` set xs"
  by (induction xs arbitrary: w) (auto simp: barred_release)

text \<open>After its members were released, a pool has none that is barred.\<close>

lemma offered_releases:
  "mb \<in> set xs \<Longrightarrow>
   offered networks now network (fold release_member xs w) mb =
     (usable mb w \<and> supports networks network mb)"
  by (auto simp: offered_def barred_releases)

lemma releaseIfAllBlacklisted_eq:
  "members \<noteq> [] \<Longrightarrow>
   releaseIfAllBlacklisted now members w =
     (let (all, w') = all_blacklisted now members w
      in (all, if all then fold release_member members w' else w'))"
  by (simp add: releaseIfAllBlacklisted_def split_beta Let_def split: bool.splits)

text \<open>
  C14. Candidates.  For a pool with members, the candidates are exactly the members that are
  offered, in the order of the pool.  Only when there are none and every member is blacklisted
  are all members released at once; then the candidates are the members that are not known to be
  unavailable and support the network.  Without a candidate the error says so, and every
  successful choice is not empty.
\<close>

theorem pickCandidates_offered:
  assumes "pl_members (pools w p) = members" and "members \<noteq> []"
  shows "fst (pickCandidates p mgr networks now network w) =
    (let offers = filter (offered networks now network w) members;
         amnesty = filter (\<lambda>mb. usable mb w \<and> supports networks network mb) members
     in if offers \<noteq> [] then Inr offers
        else if (\<forall>mb \<in> set members. barred now mb w) \<and> amnesty \<noteq> [] then Inr amnesty
        else Inl ''no healthy proxy available'')"
proof -
  let ?a = "availableMembers networks now network members w"
  let ?b = "all_blacklisted now members (snd ?a)"
  have a: "fst ?a = filter (offered networks now network w) members"
    by (rule availableMembers_result)
  have b: "fst ?b \<longleftrightarrow> (\<forall>mb \<in> set members. barred now mb w)"
    by (simp add: all_blacklisted_result)
  have "filter (offered networks now network (fold release_member members (snd ?b))) members =
      filter (\<lambda>mb. usable mb w \<and> supports networks network mb) members"
    by (rule filter_cong) (simp_all add: offered_releases)
  then have c: "fst (availableMembers networks now network members
      (fold release_member members (snd ?b))) =
      filter (\<lambda>mb. usable mb w \<and> supports networks network mb) members"
    by (simp add: availableMembers_result)
  have "fst (pickCandidates p mgr networks now network w) =
      (if fst ?a \<noteq> [] then Inr (fst ?a)
       else if fst ?b \<and> fst (availableMembers networks now network members
           (fold release_member members (snd ?b))) \<noteq> []
       then Inr (fst (availableMembers networks now network members
           (fold release_member members (snd ?b))))
       else Inl ''no healthy proxy available'')"
    using assms
    by (simp add: pickCandidates_def releaseIfAllBlacklisted_eq Let_def split_beta)
  then show ?thesis
    by (simp only: a b c Let_def)
qed

text \<open>A started pool of two members in balance mode; a first failure blacklists for 60 ns.\<close>

definition demo_mgr :: "tag \<Rightarrow> nat option" where
  "demo_mgr = [''a'' \<mapsto> 7, ''b'' \<mapsto> 8]"

definition demo_a :: member where
  "demo_a = \<lparr>mb_outbound = 7, mb_tag = ''a'', mb_entry = Some 0, mb_shared = Some 0\<rparr>"

definition demo_b :: member where
  "demo_b = \<lparr>mb_outbound = 8, mb_tag = ''b'', mb_entry = Some 1, mb_shared = Some 1\<rparr>"

definition demo_pool :: pool where
  "demo_pool =
     \<lparr>pl_options = \<lparr>po_Mode = ''balance'', po_Members = [''a'', ''b''], po_FailureThreshold = 1,
                    po_BlacklistDuration = 60, po_Metadata = Map.empty\<rparr>,
      pl_mode = ''balance'', pl_members = [demo_a, demo_b], pl_rrCounter = 0, pl_monitor = True\<rparr>"

definition demo_world :: pool_world where
  "demo_world =
     shared_world.extend
       (mon_state.extend
         (empty_monitor\<lparr>next_ent := 2, nodes := [''a'' \<mapsto> 0, ''b'' \<mapsto> 1]\<rparr>)
         (shared_world.fields ((\<lambda>_. new_shared)(0 := new_shared\<lparr>sh_entry := Some 0\<rparr>,
            1 := new_shared\<lparr>sh_entry := Some 1\<rparr>)) 2 [''a'' \<mapsto> 0, ''b'' \<mapsto> 1]))
       (pool_world.fields (\<lambda>_. demo_pool) 1)"

theorem pickCandidates_offered_witness:
  "fst (pickCandidates 0 demo_mgr (\<lambda>_. [''tcp'']) 10 ''tcp''
      (pool_recordFailure 0 demo_a ''refused'' (\<lambda>_. 5) demo_world)) = Inr [demo_b] \<and>
   fst (pickCandidates 0 demo_mgr (\<lambda>_. [''tcp'']) 10 ''tcp''
      (pool_recordFailure 0 demo_b ''refused'' (\<lambda>_. 5)
        (pool_recordFailure 0 demo_a ''refused'' (\<lambda>_. 5) demo_world))) = Inr [demo_a, demo_b]"
proof -
  let ?u = "pool_recordFailure 0 demo_a ''refused'' (\<lambda>_. 5) demo_world"
  let ?v = "pool_recordFailure 0 demo_b ''refused'' (\<lambda>_. 5) ?u"
  have mem: "pl_members (pools ?u 0) = [demo_a, demo_b]" "pl_members (pools ?v 0) = [demo_a, demo_b]"
    by code_simp+
  have u: "filter (offered (\<lambda>_. [''tcp'']) 10 ''tcp'' ?u) [demo_a, demo_b] = [demo_b]"
    by code_simp
  have v: "filter (offered (\<lambda>_. [''tcp'']) 10 ''tcp'' ?v) [demo_a, demo_b] = []"
    "\<forall>mb \<in> set [demo_a, demo_b]. barred 10 mb ?v"
    "filter (\<lambda>mb. usable mb ?v \<and> supports (\<lambda>_. [''tcp'']) ''tcp'' mb) [demo_a, demo_b] =
       [demo_a, demo_b]"
    by code_simp+
  show ?thesis
    using pickCandidates_offered [OF mem(1), of demo_mgr "\<lambda>_. [''tcp'']" 10 "''tcp''"]
      pickCandidates_offered [OF mem(2), of demo_mgr "\<lambda>_. [''tcp'']" 10 "''tcp''"] u v
    by (simp only: Let_def) simp
qed

section \<open>The order of the attempts\<close>

lemma mset_shuffle_from: "i < length xs \<Longrightarrow> mset (shuffle_from i draws xs) = mset xs"
proof (induction i arbitrary: xs)
  case (Suc i)
  let ?ys = "swap (Suc i) (draws (Suc i) mod Suc (Suc i)) xs"
  have "draws (Suc i) mod Suc (Suc i) < length xs"
    using Suc.prems less_Suc_eq_le mod_less_divisor [of "Suc (Suc i)" "draws (Suc i)"] by linarith
  then have "mset ?ys = mset xs"
    using Suc.prems mset_swap [of "draws (Suc i) mod Suc (Suc i)" xs "Suc i"] by (simp add: swap_def)
  moreover have "length ?ys = length xs" by (simp add: swap_def)
  ultimately show ?case
    using Suc by simp
qed simp

lemma mset_Shuffle: "mset (Shuffle draws xs) = mset xs"
  by (cases xs) (simp_all add: Shuffle_def mset_shuffle_from del: shuffle_from.simps, simp)

lemma length_Shuffle [simp]: "length (Shuffle draws xs) = length xs"
  by (metis mset_Shuffle size_mset)

lemma dial_attempts_min: "dial_attempts cs = min 3 (length cs)"
  by (auto simp: dial_attempts_def defaultDialAttempts_def)

lemma mset_take_subset: "mset (take n xs) \<subseteq># mset xs"
  by (metis append_take_drop_id mset_append mset_subset_eq_add_left)

lemma mset_rotate_list: "mset (rotate k xs) = mset xs"
  by (metis add.commute append_take_drop_id mset_append rotate_drop_take)

lemma rotation_nth:
  "cs \<noteq> [] \<Longrightarrow> map (\<lambda>i. cs ! ((k mod length cs + i) mod length cs)) [0..<length cs] = rotate k cs"
  by (rule nth_equalityI) (simp_all add: nth_rotate mod_add_left_eq)

lemma rotation_take:
  "cs \<noteq> [] \<Longrightarrow> n \<le> length cs \<Longrightarrow>
   map (\<lambda>i. cs ! ((k mod length cs + i) mod length cs)) [0..<n] = take n (rotate k cs)"
  by (simp add: take_map flip: rotation_nth)

interpretation balance_order: strict_weak_order "\<lambda>x y. member_active x w < member_active y w" for w
  by (rule strict_weak_order_key)

text \<open>The three modes, as one equation each.\<close>

lemma dial_order_random:
  "pl_mode (pools w p) = modeRandom \<Longrightarrow>
   dial_order p draws cs w = (take (min 3 (length cs)) (Shuffle draws cs), w)"
  by (simp add: dial_order_def dial_attempts_min)

lemma dial_order_balance:
  "pl_mode (pools w p) = modeBalance \<Longrightarrow>
   dial_order p draws cs w =
     (take (min 3 (length cs)) (sort_slice (\<lambda>x y. member_active x w < member_active y w) cs), w)"
  by (simp add: dial_order_def dial_attempts_min modeBalance_def modeRandom_def)

lemma dial_order_sequential:
  "pl_mode (pools w p) \<notin> {modeRandom, modeBalance} \<Longrightarrow> cs \<noteq> [] \<Longrightarrow>
   dial_order p draws cs w =
     (take (min 3 (length cs)) (rotate (unat (pl_rrCounter (pools w p))) cs),
      upd_pool p (\<lambda>x. x\<lparr>pl_rrCounter := pl_rrCounter x + 1\<rparr>) w)"
  by (simp add: dial_order_def next_rr_def dial_attempts_min rotation_take Let_def)

text \<open>
  The attempts.  In every mode a connection is tried at min 3 n of the n candidates, at none
  of them more often than it is a candidate (distinct candidates are tried at most once each), so
  a pool with a candidate makes at least one attempt.
\<close>

theorem dial_order_candidates:
  assumes "cs \<noteq> []"
  shows "length (fst (dial_order p draws cs w)) = min 3 (length cs) \<and>
    mset (fst (dial_order p draws cs w)) \<subseteq># mset cs \<and>
    fst (dial_order p draws cs w) \<noteq> []"
proof -
  obtain xs where xs: "fst (dial_order p draws cs w) = take (min 3 (length cs)) xs" "mset xs = mset cs"
  proof (cases "pl_mode (pools w p) = modeRandom")
    case True
    then show ?thesis
      by (intro that [of "Shuffle draws cs"]) (simp_all add: dial_order_random mset_Shuffle)
  next
    case nr: False
    show ?thesis
    proof (cases "pl_mode (pools w p) = modeBalance")
      case True
      show ?thesis
        by (rule that [OF _ mset_sort_slice]) (simp add: dial_order_balance [OF True])
    next
      case False
      with nr assms have "dial_order p draws cs w =
          (take (min 3 (length cs)) (rotate (unat (pl_rrCounter (pools w p))) cs),
           upd_pool p (\<lambda>x. x\<lparr>pl_rrCounter := pl_rrCounter x + 1\<rparr>) w)"
        by (intro dial_order_sequential) auto
      then show ?thesis
        by (intro that [of "rotate (unat (pl_rrCounter (pools w p))) cs"])
          (simp_all add: mset_rotate_list)
    qed
  qed
  have "length xs = length cs"
    using xs(2) by (metis size_mset)
  then show ?thesis
    using assms xs mset_take_subset [of "min 3 (length cs)" xs] by (cases xs) (auto simp: min_def)
qed

theorem dial_order_candidates_witness:
  "length (fst (dial_order 0 (\<lambda>_. 1) [demo_a, demo_b] demo_world)) = 2 \<and>
   mset (fst (dial_order 0 (\<lambda>_. 1) [demo_a, demo_b] demo_world)) \<subseteq># {#demo_a, demo_b#}"
  using dial_order_candidates [of "[demo_a, demo_b]" 0 "\<lambda>_. 1" demo_world] by simp

text \<open>
  C23. Load balancing.  In balance mode the attempts go by increasing number of active
  connections, and every candidate that is tried has at most as many as every candidate that is
  left out; in particular the first attempt is at a least loaded candidate.
\<close>

theorem balance_least_loaded:
  assumes "pl_mode (pools w p) = modeBalance" and "dial_order p draws cs w = (order, w')"
  shows "w' = w \<and> sorted_wrt (\<lambda>x y. member_active x w \<le> member_active y w) order \<and>
    (\<exists>rest. mset order + mset rest = mset cs \<and>
       (\<forall>x \<in> set order. \<forall>y \<in> set rest. member_active x w \<le> member_active y w))"
proof -
  let ?lt = "\<lambda>x y. member_active x w < member_active y w"
  let ?xs = "sort_slice ?lt cs" and ?n = "min 3 (length cs)"
  have sorted: "sorted_wrt (\<lambda>x y. member_active x w \<le> member_active y w) ?xs"
    using balance_order.sorted_sort_slice [of w cs] by (simp add: not_less)
  have order: "order = take ?n ?xs" "w' = w"
    using assms(2) unfolding dial_order_balance [OF assms(1)] prod.inject by blast+
  have "sorted_wrt (\<lambda>x y. member_active x w \<le> member_active y w) (take ?n ?xs @ drop ?n ?xs)"
    using sorted by simp
  then have "sorted_wrt (\<lambda>x y. member_active x w \<le> member_active y w) order \<and>
      (\<forall>x \<in> set order. \<forall>y \<in> set (drop ?n ?xs). member_active x w \<le> member_active y w)"
    unfolding order sorted_wrt_append by blast
  moreover have "mset order + mset (drop ?n ?xs) = mset cs"
    unfolding order by (metis append_take_drop_id mset_append mset_sort_slice)
  ultimately show ?thesis
    using order(2) by blast
qed

theorem balance_least_loaded_witness:
  "\<exists>order. dial_order 0 (\<lambda>_. 0) [demo_a, demo_b] (pool_incActive demo_a demo_world) =
     (order, pool_incActive demo_a demo_world) \<and>
   sorted_wrt (\<lambda>x y. member_active x (pool_incActive demo_a demo_world)
      \<le> member_active y (pool_incActive demo_a demo_world)) order"
proof -
  let ?w = "pool_incActive demo_a demo_world"
  have mode: "pl_mode (pools ?w 0) = modeBalance" by code_simp
  obtain order w' where "dial_order 0 (\<lambda>_. 0) [demo_a, demo_b] ?w = (order, w')"
    by (metis surj_pair)
  with balance_least_loaded [OF mode this] show ?thesis by blast
qed

text \<open>
  The first candidates of \<open>k\<close> connections in a row, with the same candidates each time.
\<close>

fun first_tries :: "nat \<Rightarrow> addr \<Rightarrow> (nat \<Rightarrow> nat) \<Rightarrow> member list \<Rightarrow> 'a pool_world_scheme \<Rightarrow> member list" where
  "first_tries 0 p draws cs w = []"
| "first_tries (Suc k) p draws cs w =
     (let (order, w') = dial_order p draws cs w in hd order # first_tries k p draws cs w')"

lemma first_tries_rotate:
  assumes "cs \<noteq> []"
  shows "pl_mode (pools w p) \<notin> {modeRandom, modeBalance} \<Longrightarrow>
    unat (pl_rrCounter (pools w p)) + k \<le> 2 ^ 32 \<Longrightarrow>
    first_tries k p draws cs w =
      map (\<lambda>i. cs ! ((unat (pl_rrCounter (pools w p)) + i) mod length cs)) [0..<k]"
proof (induction k arbitrary: w)
  case (Suc k)
  let ?c = "pl_rrCounter (pools w p)" and ?n = "length cs"
  let ?w = "upd_pool p (\<lambda>x. x\<lparr>pl_rrCounter := pl_rrCounter x + 1\<rparr>) w"
  have order: "dial_order p draws cs w = (take (min 3 ?n) (rotate (unat ?c) cs), ?w)"
    by (rule dial_order_sequential [OF Suc.prems(1) assms])
  have head: "hd (take (min 3 ?n) (rotate (unat ?c) cs)) = cs ! (unat ?c mod ?n)"
    using assms by (simp add: hd_rotate_conv_nth)
  show ?case
  proof (cases k)
    case 0
    with order head show ?thesis by simp
  next
    case (Suc j)
    then have "unat ?c + 1 < 2 ^ 32" using Suc.prems(2) by simp
    then have next_c: "unat (?c + 1) = Suc (unat ?c)"
      by (simp add: unat_word_ariths)
    have "first_tries k p draws cs ?w =
        map (\<lambda>i. cs ! ((unat (pl_rrCounter (pools ?w p)) + i) mod ?n)) [0..<k]"
      using Suc.prems next_c by (intro Suc.IH) simp_all
    then have "first_tries k p draws cs ?w = map (\<lambda>i. cs ! (Suc (unat ?c + i) mod ?n)) [0..<k]"
      using next_c by simp
    with order head show ?thesis
      by (simp add: upt_conv_Cons map_Suc_upt [symmetric] comp_def del: upt_Suc)
  qed
qed simp

text \<open>
  C9. Round robin.  In sequential mode n connections in a row over the same n candidates start
  with each candidate exactly once, in a rotation of the pool's order, as long as the 32-bit
  counter does not pass its end on the way.
\<close>

theorem round_robin_fair:
  assumes "pl_mode (pools w p) = modeSequential" and "cs \<noteq> []"
    and "unat (pl_rrCounter (pools w p)) + length cs \<le> 2 ^ 32"
  shows "first_tries (length cs) p draws cs w = rotate (unat (pl_rrCounter (pools w p))) cs"
proof -
  have "pl_mode (pools w p) \<notin> {modeRandom, modeBalance}"
    using assms(1) by (simp add: modeSequential_def modeRandom_def modeBalance_def)
  from first_tries_rotate [OF assms(2) this assms(3)] rotation_nth [OF assms(2)] show ?thesis
    by (simp add: mod_add_left_eq)
qed

theorem round_robin_fair_witness:
  "let w = upd_pool 0 (\<lambda>x. x\<lparr>pl_mode := ''sequential'', pl_rrCounter := 1\<rparr>) demo_world
   in first_tries 2 0 (\<lambda>_. 0) [demo_a, demo_b] w = [demo_b, demo_a]"
proof -
  let ?w = "upd_pool 0 (\<lambda>x. x\<lparr>pl_mode := ''sequential'', pl_rrCounter := 1\<rparr>) demo_world"
  have "pl_mode (pools ?w 0) = modeSequential" "unat (pl_rrCounter (pools ?w 0)) = 1"
    by (simp_all add: modeSequential_def)
  with round_robin_fair [of ?w 0 "[demo_a, demo_b]" "\<lambda>_. 0"]
  have "first_tries (length [demo_a, demo_b]) 0 (\<lambda>_. 0) [demo_a, demo_b] ?w = [demo_b, demo_a]"
    by (simp del: first_tries.simps)
  then show ?thesis
    by (simp only: Let_def list.size)
      (simp del: first_tries.simps add: numeral_2_eq_2)
qed

end
