(* ===== verification/Pool_Traffic.thy ===== *)
theory Pool_Traffic
  imports Pool_Choice
begin

text \<open>
  What happens when a pool carries traffic: the outcome of dialling with retries, the count of
  active connections, the probes, and the invariant that ties the pools, the shared member states
  and the monitor together under every operation of the running program.
\<close>

section \<open>The outcome of the attempts\<close>

lemma tryDial_result:
  "fst (tryDial p dial clk mb w) =
     (case dial (mb_outbound mb) of Inl err \<Rightarrow> Inl err | Inr c \<Rightarrow> Inr (wrapConn c mb))"
  by (simp add: tryDial_def Let_def split: sum.splits)

lemma dial_loop_success:
  "fst (dial_loop p dial clks i lastErr mbs w) = Inr c \<Longrightarrow>
   \<exists>k < length mbs. (\<forall>j < k. isl (dial (i + j) (mb_outbound (mbs ! j)))) \<and>
     (\<exists>conn. dial (i + k) (mb_outbound (mbs ! k)) = Inr conn \<and> c = wrapConn conn (mbs ! k))"
proof (induction mbs arbitrary: i lastErr w)
  case (Cons mb mbs)
  show ?case
  proof (cases "dial i (mb_outbound mb)")
    case (Inr conn)
    with Cons.prems have "c = wrapConn conn mb"
      using tryDial_result [of p "dial i" "clks i" mb w] by (simp add: split_beta split: sum.splits)
    with Inr show ?thesis by (intro exI [of _ 0]) simp
  next
    case (Inl err)
    let ?w = "snd (tryDial p (dial i) (clks i) mb w)"
    from Inl Cons.prems have "fst (dial_loop p dial clks (Suc i) (Some err) mbs ?w) = Inr c"
      using tryDial_result [of p "dial i" "clks i" mb w] by (simp add: split_beta split: sum.splits)
    from Cons.IH [OF this] obtain k where k: "k < length mbs"
      "\<forall>j < k. isl (dial (Suc i + j) (mb_outbound (mbs ! j)))"
      "\<exists>conn. dial (Suc i + k) (mb_outbound (mbs ! k)) = Inr conn \<and> c = wrapConn conn (mbs ! k)"
      by blast
    with Inl show ?thesis
      by (intro exI [of _ "Suc k"]) (auto simp: nth_Cons isl_def split: nat.splits)
  qed
qed simp

lemma dial_loop_failure:
  "fst (dial_loop p dial clks i lastErr mbs w) = Inl e \<Longrightarrow>
   (\<forall>j < length mbs. isl (dial (i + j) (mb_outbound (mbs ! j)))) \<and>
   (if mbs = [] then e = lastErr
    else \<exists>err. dial (i + (length mbs - 1)) (mb_outbound (last mbs)) = Inl err \<and> e = Some err)"
proof (induction mbs arbitrary: i lastErr w)
  case (Cons mb mbs)
  show ?case
  proof (cases "dial i (mb_outbound mb)")
    case (Inr conn)
    with Cons.prems show ?thesis
      using tryDial_result [of p "dial i" "clks i" mb w] by (simp add: split_beta split: sum.splits)
  next
    case (Inl err)
    let ?w = "snd (tryDial p (dial i) (clks i) mb w)"
    from Inl Cons.prems have "fst (dial_loop p dial clks (Suc i) (Some err) mbs ?w) = Inl e"
      using tryDial_result [of p "dial i" "clks i" mb w] by (simp add: split_beta split: sum.splits)
    note IH = Cons.IH [OF this]
    have "isl (dial (i + j) (mb_outbound ((mb # mbs) ! j)))" if "j < length (mb # mbs)" for j
      using that IH Inl by (cases j) auto
    with IH Inl show ?thesis
      by (cases mbs) auto
  qed
qed simp

lemma dial_candidates_result:
  "fst (dial_candidates p draws dial clks failed cs w) =
     (case fst (dial_loop p dial clks 0 None (fst (dial_order p draws cs w))
                 (snd (dial_order p draws cs w))) of
        Inr c \<Rightarrow> Inr c | Inl None \<Rightarrow> Inl failed | Inl (Some err) \<Rightarrow> Inl err)"
  by (simp add: dial_candidates_def split_beta Let_def split: sum.splits option.splits)

lemma dial_order_nonempty: "cs \<noteq> [] \<Longrightarrow> fst (dial_order p draws cs w) \<noteq> []"
  using length_sort_slice [of "\<lambda>x y. member_active x w < member_active y w" cs]
    length_Shuffle [of draws cs]
  by (auto simp: dial_order_def dial_attempts_min Let_def next_rr_def simp del: length_Shuffle
      length_sort_slice)

text \<open>
  C24. Failover.  With a candidate, a dial returns the connection of the first attempt that
  succeeds, wrapped for the member that was tried, and only after every earlier attempt failed;
  it fails only when every attempt failed, with the error of the last one.
\<close>

theorem dial_first_success:
  assumes "cs \<noteq> []" and "dial_order p draws cs w = (order, w1)"
  shows "case fst (dial_candidates p draws dial clks failed cs w) of
      Inr c \<Rightarrow> \<exists>k < length order. (\<forall>j < k. isl (dial j (mb_outbound (order ! j)))) \<and>
        dial k (mb_outbound (order ! k)) = Inr (tc_conn c) \<and> tc_member c = order ! k \<and> \<not> tc_closed c
    | Inl err \<Rightarrow> (\<forall>j < length order. isl (dial j (mb_outbound (order ! j)))) \<and>
        dial (length order - 1) (mb_outbound (last order)) = Inl err"
proof (cases "fst (dial_loop p dial clks 0 None order w1)")
  case (Inr c)
  from dial_loop_success [OF this] assms(2) Inr show ?thesis
    by (auto simp: dial_candidates_result wrapConn_def)
next
  case (Inl e)
  have "order \<noteq> []"
    using assms dial_order_nonempty by (metis fst_conv)
  with dial_loop_failure [OF Inl] assms(2) Inl show ?thesis
    by (auto simp: dial_candidates_result)
qed

theorem dial_first_success_witness:
  "\<exists>c. fst (dial_candidates 0 (\<lambda>_. 0) (\<lambda>i ob. if i = 0 then Inl ''refused'' else Inr (ob :: nat))
      (\<lambda>_ _. 5) ''dial failed'' [demo_a, demo_b] demo_world) = Inr c \<and>
    tc_conn c = mb_outbound (tc_member c) \<and> \<not> tc_closed c"
proof -
  let ?dial = "\<lambda>(i :: nat) ob. if i = 0 then Inl ''refused'' else Inr (ob :: nat)"
  obtain order w1 where order: "dial_order 0 (\<lambda>_. 0) [demo_a, demo_b] demo_world = (order, w1)"
    by (metis surj_pair)
  have "length order = 2"
    using order by (simp add: dial_order_balance demo_world_def demo_pool_def modeBalance_def
        shared_world.defs pool_world.defs, auto)
  with dial_first_success [OF _ order, of ?dial "\<lambda>_ _. 5" "''dial failed''"] show ?thesis
    by (auto split: sum.splits if_splits)
qed

section \<open>Active connections\<close>

text \<open>Where an operation leaves the count of every allocated member state as it is.\<close>

definition same_active :: "'a shared_world_scheme \<Rightarrow> 'a shared_world_scheme \<Rightarrow> bool" where
  "same_active w w' \<longleftrightarrow>
     next_sh w \<le> next_sh w' \<and> (\<forall>s < next_sh w. sh_active (shs w' s) = sh_active (shs w s))"

lemma same_active_refl [simp]: "same_active w w"
  by (simp add: same_active_def)

lemma same_active_trans [trans]: "same_active u v \<Longrightarrow> same_active v w \<Longrightarrow> same_active u w"
  by (force simp: same_active_def)

lemma same_active_eqI: "shs w' = shs w \<Longrightarrow> next_sh w' = next_sh w \<Longrightarrow> same_active w w'"
  by (simp add: same_active_def)

lemma set_probe_if_shared [simp]:
  "shs (set_probe_if a fn w) = shs w" "next_sh (set_probe_if a fn w) = next_sh w"
  "tag_store (set_probe_if a fn w) = tag_store w"
  by (simp_all add: set_probe_if_def handle_defs split: option.splits)

lemma SetRelease_shared [simp]:
  "shs (SetRelease h r w) = shs w" "next_sh (SetRelease h r w) = next_sh w"
  "tag_store (SetRelease h r w) = tag_store w"
  by (simp_all add: handle_defs)

lemma same_active_init_member: "same_active w (snd (init_member p t ob w))"
  by (auto simp: init_member_def same_active_def split_beta Let_def attachEntry_def
      acquireSharedState_def split: option.splits)

lemma same_active_init_loop: "same_active w (snd (init_loop p mgr ts ms w))"
proof (induction ts arbitrary: ms w)
  case (Cons t ts)
  then show ?case
    using same_active_trans [OF same_active_init_member Cons]
    by (auto simp: split_beta split: option.splits)
qed simp

lemma same_active_initializeMembers: "same_active w (snd (initializeMembers p mgr w))"
  using same_active_init_loop [of w p mgr "po_Members (pl_options (pools w p))" "[]"]
  by (auto simp: initializeMembers_def same_active_def split: prod.splits sum.splits)

lemma same_active_member_isBlacklisted: "same_active w (snd (member_isBlacklisted mb now w))"
  by (simp add: member_isBlacklisted_def same_active_def split: option.splits)

lemma same_active_availableMembers: "same_active w (snd (availableMembers nets now network mbs w))"
proof (induction mbs arbitrary: w)
  case (Cons mb mbs)
  then show ?case
    using same_active_trans [OF same_active_member_isBlacklisted Cons]
    by (simp add: split_beta Let_def)
qed simp

lemma same_active_all_blacklisted: "same_active w (snd (all_blacklisted now mbs w))"
proof (induction mbs arbitrary: w)
  case (Cons mb mbs)
  then show ?case
    using same_active_trans [OF same_active_member_isBlacklisted Cons]
    by (simp add: split_beta Let_def same_active_member_isBlacklisted)
qed simp

lemma same_active_releases: "same_active w (fold release_member mbs w)"
proof (induction mbs arbitrary: w)
  case (Cons mb mbs)
  have "same_active w (release_member mb w)"
    by (simp add: release_member_def same_active_def split: option.splits)
  from same_active_trans [OF this Cons] show ?case by simp
qed simp

lemma same_active_releaseIfAll: "same_active w (snd (releaseIfAllBlacklisted now mbs w))"
  by (cases "mbs = []")
    (simp add: releaseIfAllBlacklisted_def, simp add: releaseIfAllBlacklisted_eq split_beta Let_def
      same_active_all_blacklisted same_active_trans [OF same_active_all_blacklisted same_active_releases])

lemma same_active_pickCandidates:
  "same_active w (snd (pickCandidates p mgr nets now network w))"
proof -
  define i where "i = (if pl_members (pools w p) = [] then initializeMembers p mgr w else (None, w))"
  define c where "c = availableMembers nets now network (pl_members (pools (snd i) p)) (snd i)"
  define r where "r = releaseIfAllBlacklisted now (pl_members (pools (snd i) p)) (snd c)"
  have i: "same_active w (snd i)"
    by (simp add: i_def same_active_initializeMembers)
  have c: "same_active w (snd c)"
    unfolding c_def using i same_active_availableMembers by (rule same_active_trans)
  have r: "same_active w (snd r)"
    unfolding r_def using c same_active_releaseIfAll by (rule same_active_trans)
  have a: "same_active w (snd (availableMembers nets now network (pl_members (pools (snd i) p)) (snd r)))"
    using r same_active_availableMembers by (rule same_active_trans)
  have "snd (pickCandidates p mgr nets now network w) \<in>
      {snd i, snd c, snd r, snd (availableMembers nets now network (pl_members (pools (snd i) p)) (snd r))}"
    unfolding pickCandidates_def i_def [symmetric]
    by (cases i; cases "fst i")
      (auto simp: Let_def split_beta c_def r_def split: bool.splits)
  with i c r a show ?thesis by auto
qed

lemma same_active_dial_order: "same_active w (snd (dial_order p draws cs w))"
  by (simp add: dial_order_def next_rr_def Let_def split_beta same_active_eqI)

text \<open>One attempt counts a connection exactly when it hands one out.\<close>

definition counted :: "'e + 'c tracked_conn \<Rightarrow> addr \<Rightarrow> 32 word" where
  "counted r s = (case r of Inl _ \<Rightarrow> 0 | Inr c \<Rightarrow> if mb_shared (tc_member c) = Some s then 1 else 0)"

lemma active_tryDial:
  "sh_active (shs (snd (tryDial p dial clk mb w)) s) =
     sh_active (shs w s) + counted (fst (tryDial p dial clk mb w)) s"
  by (cases "mb_shared mb")
    (auto simp: tryDial_def counted_def wrapConn_def pool_incActive_def pool_decActive_def
      pool_recordFailure_def pool_recordSuccess_def Let_def split: sum.splits)

lemma next_sh_tryDial [simp]: "next_sh (snd (tryDial p dial clk mb w)) = next_sh w"
  by (cases "mb_shared mb")
    (simp_all add: tryDial_def pool_incActive_def pool_decActive_def pool_recordFailure_def
      pool_recordSuccess_def Let_def split: sum.splits)

lemma active_dial_loop:
  "sh_active (shs (snd (dial_loop p dial clks i lastErr mbs w)) s) =
     sh_active (shs w s) + counted (fst (dial_loop p dial clks i lastErr mbs w)) s"
proof (induction mbs arbitrary: i lastErr w)
  case Nil
  then show ?case by (simp add: counted_def)
next
  case (Cons mb mbs)
  show ?case
    using Cons active_tryDial [of p "dial i" "clks i" mb w s]
    by (cases "fst (tryDial p (dial i) (clks i) mb w)")
      (simp_all add: split_beta counted_def)
qed

lemma active_dial_candidates:
  assumes "s < next_sh w"
  shows "sh_active (shs (snd (dial_candidates p draws dial clks failed cs w)) s) =
     sh_active (shs w s) + counted (fst (dial_candidates p draws dial clks failed cs w)) s"
proof -
  have "sh_active (shs (snd (dial_order p draws cs w)) s) = sh_active (shs w s)"
    using same_active_dial_order [of w p draws cs] assms by (simp add: same_active_def)
  then show ?thesis
    using active_dial_loop [of p dial clks 0 None "fst (dial_order p draws cs w)"
        "snd (dial_order p draws cs w)" s]
    by (simp add: dial_candidates_def split_beta Let_def split: sum.splits option.splits)
      (simp add: counted_def)
qed

text \<open>Closing a connection several times, with whatever errors of the wrapped connection.\<close>

fun close_run ::
  "string option list \<Rightarrow> 'c tracked_conn \<Rightarrow> 'a pool_world_scheme \<Rightarrow> 'a pool_world_scheme" where
  "close_run [] c w = w"
| "close_run (e # es) c w = (case tracked_Close e c w of (_, c', w') \<Rightarrow> close_run es c' w')"

lemma close_run_closed: "tc_closed c \<Longrightarrow> close_run es c w = w"
  by (induction es arbitrary: c) (simp_all add: tracked_Close_def)

lemma active_close_run:
  "\<not> tc_closed c \<Longrightarrow> es \<noteq> [] \<Longrightarrow>
   sh_active (shs (close_run es c w) s) =
     sh_active (shs w s) - (if mb_shared (tc_member c) = Some s then 1 else 0)"
  by (cases es)
    (simp_all add: tracked_Close_def close_run_closed pool_decActive_def
      split: option.splits)

lemma dial_open:
  "fst (dial_candidates p draws dial clks failed cs w) = Inr c \<Longrightarrow> \<not> tc_closed c"
  using dial_loop_success [of p dial clks 0 None "fst (dial_order p draws cs w)"
      "snd (dial_order p draws cs w)" c]
  by (auto simp: dial_candidates_result wrapConn_def split: sum.splits option.splits)

text \<open>
  C15. Connections are counted once.  A dial through the pool raises the active count of the
  member whose connection it returns by one and of no other; a failed dial, and every failed
  attempt on the way, leaves all counts as they were.  Closing the connection, any number of
  times and whatever the wrapped connection answers, restores every count.
\<close>

theorem connections_counted_once:
  assumes "s < next_sh w" and "pool_DialContext p mgr networks now draws dial clks network w = (r, w')"
  shows "case r of
      Inl err \<Rightarrow> sh_active (shs w' s) = sh_active (shs w s)
    | Inr c \<Rightarrow> sh_active (shs w' s) =
          sh_active (shs w s) + (if mb_shared (tc_member c) = Some s then 1 else 0) \<and>
        sh_active (shs (close_run (e # es) c w') s) = sh_active (shs w s)"
proof -
  define k where "k = pickCandidates p mgr networks now network w"
  have k: "s < next_sh (snd k)" "sh_active (shs (snd k) s) = sh_active (shs w s)"
    using same_active_pickCandidates [of w p mgr networks now network] assms(1)
    by (auto simp: k_def same_active_def)
  show ?thesis
  proof (cases "fst k")
    case (Inl err)
    with assms(2) k show ?thesis
      by (auto simp: pool_DialContext_def k_def [symmetric] split_beta)
  next
    case (Inr cs)
    with assms(2) have r: "r = fst (dial_candidates p draws dial clks ''dial failed'' cs (snd k))"
      "w' = snd (dial_candidates p draws dial clks ''dial failed'' cs (snd k))"
      by (simp_all add: pool_DialContext_def k_def [symmetric] split_beta)
    have "sh_active (shs w' s) = sh_active (shs w s) + counted r s"
      using active_dial_candidates [OF k(1), of p draws dial clks "''dial failed''" cs] k(2)
      by (simp add: r)
    then show ?thesis
      using dial_open [of p draws dial clks "''dial failed''" cs "snd k"] r(1)
      by (auto simp: counted_def active_close_run simp del: close_run.simps split: sum.splits)
  qed
qed

theorem connections_counted_once_witness:
  "\<exists>c w'. pool_DialContext 0 demo_mgr (\<lambda>_. [''tcp'']) 10 (\<lambda>_. 0) (\<lambda>i ob. Inr ob) (\<lambda>_ _. 5) ''tcp''
      demo_world = (Inr c, w') \<and> sh_active (shs w' 0) = 1 \<and>
    sh_active (shs (close_run [None, None] c w') 0) = 0"
proof -
  let ?dial = "\<lambda>(i :: nat) ob. (Inr ob :: string + nat)"
  let ?d = "pool_DialContext 0 demo_mgr (\<lambda>_. [''tcp'']) 10 (\<lambda>_. 0) ?dial (\<lambda>_ _. 5) ''tcp'' demo_world"
  have first: "fst ?d = Inr (wrapConn 7 demo_a)"
    by code_simp
  have "0 < next_sh demo_world" "sh_active (shs demo_world 0) = 0"
    by (simp_all add: demo_world_def shared_world.defs new_shared_def mon_state.defs)
  moreover have "mb_shared (tc_member (wrapConn 7 demo_a)) = Some 0"
    by (simp add: wrapConn_def demo_a_def)
  moreover obtain w' where "?d = (Inr (wrapConn 7 demo_a), w')"
    using first by (metis prod.collapse)
  ultimately show ?thesis
    using connections_counted_once [of 0 demo_world 0 demo_mgr "\<lambda>_. [''tcp'']" 10 "\<lambda>_. 0" ?dial
        "\<lambda>_ _. 5" "''tcp''" "Inr (wrapConn 7 demo_a)" w' None "[None]"]
    by (auto simp del: close_run.simps)
qed

section \<open>The monitor mirrors the pools in the running system\<close>

text \<open>
  The invariant of the whole program: the one of the member states and the monitor, unallocated
  states are attached to nothing, and every pool reports to the monitor.
\<close>

definition sys_inv :: "'a pool_world_scheme \<Rightarrow> bool" where
  "sys_inv w \<longleftrightarrow> world_inv w \<and> (\<forall>s. next_sh w \<le> s \<longrightarrow> sh_entry (shs w s) = None) \<and>
     (\<forall>p. pl_monitor (pools w p))"

text \<open>An operation of a state that no entry is attached to disturbs no mirroring.\<close>

lemma mirrored_unattached:
  assumes "mirrored x w" "sh_entry (shs w s) = None" "x \<noteq> s"
  shows "mirrored x (snd (shared_recordFailure s c th d clk w))"
    and "mirrored x (shared_recordSuccess s clk w)"
    and "mirrored x (snd (shared_isBlacklisted s now w))"
    and "mirrored x (shared_forceRelease s w)"
    and "mirrored x (shared_incActive s w)"
    and "mirrored x (shared_decActive s w)"
  using assms by (auto simp: mirrored_def effect_simps)

lemma world_inv_any:
  assumes inv: "world_inv w" and free: "\<forall>s. next_sh w \<le> s \<longrightarrow> sh_entry (shs w s) = None"
  shows "world_inv (snd (shared_recordFailure s c th d clk w))"
    and "world_inv (shared_recordSuccess s clk w)"
    and "world_inv (snd (shared_isBlacklisted s now w))"
    and "world_inv (shared_forceRelease s w)"
    and "world_inv (shared_incActive s w)"
    and "world_inv (shared_decActive s w)"
proof -
  have "s < next_sh w \<or> sh_entry (shs w s) = None \<and> next_sh w \<le> s"
    using free not_less by blast
  then have all: "world_inv (snd (shared_recordFailure s c th d clk w)) \<and>
      world_inv (shared_recordSuccess s clk w) \<and> world_inv (snd (shared_isBlacklisted s now w)) \<and>
      world_inv (shared_forceRelease s w) \<and> world_inv (shared_incActive s w) \<and>
      world_inv (shared_decActive s w)"
  proof
    assume "s < next_sh w"
    then show ?thesis by (simp add: world_inv_op inv)
  next
    assume s: "sh_entry (shs w s) = None \<and> next_sh w \<le> s"
    have other: "mirrored x w \<and> x \<noteq> s" if "x < next_sh w" for x
      using that s mirrored_inv [OF inv] by auto
    show ?thesis
      by (intro conjI; rule world_inv_frame [OF inv]; (simp | use other s in \<open>blast intro: mirrored_unattached\<close>))
  qed
  then show "world_inv (snd (shared_recordFailure s c th d clk w))"
    and "world_inv (shared_recordSuccess s clk w)"
    and "world_inv (snd (shared_isBlacklisted s now w))"
    and "world_inv (shared_forceRelease s w)"
    and "world_inv (shared_incActive s w)"
    and "world_inv (shared_decActive s w)"
    by blast+
qed

lemma sys_inv_shared:
  assumes "sys_inv w"
  shows "sys_inv (snd (shared_recordFailure s c th d clk w))"
    and "sys_inv (shared_recordSuccess s clk w)"
    and "sys_inv (snd (shared_isBlacklisted s now w))"
    and "sys_inv (shared_forceRelease s w)"
    and "sys_inv (shared_incActive s w)"
    and "sys_inv (shared_decActive s w)"
  using assms by (simp_all add: sys_inv_def world_inv_any)

lemma sys_inv_neutral: "sys_inv w \<Longrightarrow> neutral_op op \<Longrightarrow> sys_inv (on_handle h (entry_step op) w)"
  by (simp add: sys_inv_def world_inv_neutral)

lemma sys_inv_entry_ops:
  assumes "sys_inv w"
  shows "sys_inv (RecordFailure h e clk w)"
    and "sys_inv (RecordSuccessWithLatency h d clk w)"
    and "sys_inv (MarkInitialCheckDone h b w)"
    and "sys_inv (SetRelease h r w)"
    and "sys_inv (set_probe_if a fn w)"
    and "sys_inv (upd_ent a (apply_probe_result res t) w)"
    and "sys_inv (upd_ent a (entry_recordProbeLatency d) w)"
proof -
  have neutral: "sys_inv (on_handle h (entry_step op) w)" if "neutral_op op" for h op
    using assms that by (rule sys_inv_neutral)
  show "sys_inv (RecordFailure h e clk w)" "sys_inv (RecordSuccessWithLatency h d clk w)"
    "sys_inv (MarkInitialCheckDone h b w)" "sys_inv (SetRelease h r w)"
    using neutral [of "OpFailure e clk" h] neutral [of "OpSuccessLatency d clk" h]
      neutral [of "OpInitialCheck b" h] neutral [of "OpSetRelease r" h]
    by (simp_all add: handle_defs)
  show "sys_inv (upd_ent a (apply_probe_result res t) w)"
    "sys_inv (upd_ent a (entry_recordProbeLatency d) w)"
    using neutral [of "OpProbeResult res t" "Some a"] neutral [of "OpProbeLatency d" "Some a"]
    by simp_all
  show "sys_inv (set_probe_if a fn w)"
    using neutral [of "OpSetProbe fn" "Some a"] assms
    by (cases fn) (simp_all add: set_probe_if_def handle_defs)
qed

lemma world_inv_upd_pool [simp]: "world_inv (upd_pool p f w) = world_inv w"
proof -
  have same: "shs (upd_pool p f w) = shs w" "ents (upd_pool p f w) = ents w"
    "next_sh (upd_pool p f w) = next_sh w" "next_ent (upd_pool p f w) = next_ent w"
    "tag_store (upd_pool p f w) = tag_store w" "nodes (upd_pool p f w) = nodes w"
    by simp_all
  show ?thesis
    by (simp only: world_inv_def nodes_wf_def store_wf_def linked_def attached_once_def
        mirrored_def black_def same)
qed

lemma sys_inv_upd_pool:
  "sys_inv w \<Longrightarrow> (\<And>x. pl_monitor x \<Longrightarrow> pl_monitor (f x)) \<Longrightarrow> sys_inv (upd_pool p f w)"
  by (simp add: sys_inv_def)

lemma enroll_frame [simp]:
  "pools (enroll i w) = pools w"
  by (simp add: enroll_def split_beta Let_def)

lemma sys_inv_enroll: "sys_inv w \<Longrightarrow> sys_inv (enroll i w)"
  by (auto simp: sys_inv_def world_inv_enroll)
    (auto simp: enroll_def split_beta Let_def attachEntry_def acquireSharedState_def world_inv_def
      dest!: store_wf_less split: option.splits if_splits)

text \<open>The registration of a member is an enrolment followed by writes of its closures.\<close>

lemma init_member_enroll:
  "pl_monitor (pools w p) \<Longrightarrow>
   \<exists>a r fn. snd (init_member p t ob w) =
     set_probe_if a fn (SetRelease (Some a) r (enroll (member_info (pl_options (pools w p)) t) w))"
  by (auto simp: init_member_def enroll_def split_beta Let_def member_info_def)

lemma register_member_enroll:
  "\<exists>a r fn. register_member p t w =
     set_probe_if a fn (SetRelease (Some a) r (enroll (member_info (pl_options (pools w p)) t) w))"
  by (auto simp: register_member_def enroll_def split_beta Let_def member_info_def)

lemma sys_inv_init_member: "sys_inv w \<Longrightarrow> sys_inv (snd (init_member p t ob w))"
  using init_member_enroll [of w p t ob]
  by (auto simp: sys_inv_def [of w] sys_inv_enroll sys_inv_entry_ops)

lemma sys_inv_register_member: "sys_inv w \<Longrightarrow> sys_inv (register_member p t w)"
  using register_member_enroll [of p t w] by (auto simp: sys_inv_enroll sys_inv_entry_ops)

lemma sys_inv_fold:
  "sys_inv w \<Longrightarrow> (\<And>x w. sys_inv w \<Longrightarrow> sys_inv (f x w)) \<Longrightarrow> sys_inv (fold f xs w)"
  by (induction xs arbitrary: w) simp_all

lemma sys_inv_init_loop: "sys_inv w \<Longrightarrow> sys_inv (snd (init_loop p mgr ts ms w))"
  by (induction ts arbitrary: ms w) (simp_all add: split_beta sys_inv_init_member split: option.splits)

lemma sys_inv_initializeMembers: "sys_inv w \<Longrightarrow> sys_inv (snd (initializeMembers p mgr w))"
  using sys_inv_init_loop [of w p mgr "po_Members (pl_options (pools w p))" "[]"]
  by (auto simp: initializeMembers_def sys_inv_upd_pool split: prod.splits sum.splits)

lemma sys_inv_newPool: "sys_inv w \<Longrightarrow> sys_inv (snd (newPool has_mgr True opts w))"
proof -
  assume inv: "sys_inv w"
  define pl where "pl = \<lparr>pl_options = normalizeOptions opts, pl_mode = po_Mode (normalizeOptions opts),
    pl_members = [], pl_rrCounter = 0, pl_monitor = True\<rparr>"
  define w1 where "w1 = w\<lparr>pools := (pools w)(next_pool w := pl), next_pool := Suc (next_pool w)\<rparr>"
  have same: "shs w1 = shs w" "ents w1 = ents w" "next_sh w1 = next_sh w" "next_ent w1 = next_ent w"
    "tag_store w1 = tag_store w" "nodes w1 = nodes w"
    by (simp_all add: w1_def)
  have "world_inv w1 = world_inv w"
    by (simp only: world_inv_def nodes_wf_def store_wf_def linked_def attached_once_def
        mirrored_def black_def same)
  with inv have "sys_inv w1"
    by (simp add: sys_inv_def same) (simp add: w1_def pl_def)
  then have "sys_inv (fold (register_member (next_pool w)) ts w1)" for ts
    by (rule sys_inv_fold) (rule sys_inv_register_member)
  then show ?thesis
    using inv by (simp add: newPool_def Let_def w1_def pl_def)
qed

lemma sys_inv_member_isBlacklisted: "sys_inv w \<Longrightarrow> sys_inv (snd (member_isBlacklisted mb now w))"
  by (simp add: member_isBlacklisted_def sys_inv_shared split: option.splits)

lemma sys_inv_availableMembers:
  "sys_inv w \<Longrightarrow> sys_inv (snd (availableMembers nets now network mbs w))"
  by (induction mbs arbitrary: w) (simp_all add: split_beta Let_def sys_inv_member_isBlacklisted)

lemma sys_inv_all_blacklisted: "sys_inv w \<Longrightarrow> sys_inv (snd (all_blacklisted now mbs w))"
  by (induction mbs arbitrary: w) (simp_all add: split_beta Let_def sys_inv_member_isBlacklisted)

lemma sys_inv_releaseIfAll: "sys_inv w \<Longrightarrow> sys_inv (snd (releaseIfAllBlacklisted now mbs w))"
proof -
  assume inv: "sys_inv w"
  have "sys_inv (fold release_member mbs (snd (all_blacklisted now mbs w)))"
    by (rule sys_inv_fold [OF sys_inv_all_blacklisted [OF inv]])
      (simp add: release_member_def sys_inv_shared split: option.splits)
  with inv show ?thesis
    by (cases "mbs = []") (simp add: releaseIfAllBlacklisted_def,
        simp add: releaseIfAllBlacklisted_eq split_beta Let_def sys_inv_all_blacklisted)
qed

lemma sys_inv_pickCandidates: "sys_inv w \<Longrightarrow> sys_inv (snd (pickCandidates p mgr nets now network w))"
proof -
  assume inv: "sys_inv w"
  define i where "i = (if pl_members (pools w p) = [] then initializeMembers p mgr w else (None, w))"
  define c where "c = availableMembers nets now network (pl_members (pools (snd i) p)) (snd i)"
  define r where "r = releaseIfAllBlacklisted now (pl_members (pools (snd i) p)) (snd c)"
  have i: "sys_inv (snd i)" and c: "sys_inv (snd c)" and r: "sys_inv (snd r)"
    by (simp_all add: i_def c_def r_def inv sys_inv_initializeMembers sys_inv_availableMembers
        sys_inv_releaseIfAll)
  then have "sys_inv (snd (availableMembers nets now network (pl_members (pools (snd i) p)) (snd r)))"
    by (simp add: sys_inv_availableMembers)
  moreover have "snd (pickCandidates p mgr nets now network w) \<in>
      {snd i, snd c, snd r, snd (availableMembers nets now network (pl_members (pools (snd i) p)) (snd r))}"
    unfolding pickCandidates_def i_def [symmetric]
    by (cases i; cases "fst i") (auto simp: Let_def split_beta c_def r_def split: bool.splits)
  ultimately show ?thesis using i c r by auto
qed

lemma sys_inv_dial_order: "sys_inv w \<Longrightarrow> sys_inv (snd (dial_order p draws cs w))"
  by (simp add: dial_order_def next_rr_def Let_def split_beta sys_inv_upd_pool)

lemma sys_inv_tryDial: "sys_inv w \<Longrightarrow> sys_inv (snd (tryDial p dial clk mb w))"
  by (cases "mb_shared mb")
    (simp_all add: tryDial_def pool_incActive_def pool_decActive_def pool_recordFailure_def
      pool_recordSuccess_def Let_def sys_inv_shared split: sum.splits)

lemma sys_inv_dial_loop: "sys_inv w \<Longrightarrow> sys_inv (snd (dial_loop p dial clks i e mbs w))"
  by (induction mbs arbitrary: i e w) (simp_all add: split_beta sys_inv_tryDial split: sum.splits)

lemma sys_inv_dial_candidates:
  "sys_inv w \<Longrightarrow> sys_inv (snd (dial_candidates p draws dial clks failed cs w))"
  by (simp add: dial_candidates_def split_beta Let_def sys_inv_dial_loop sys_inv_dial_order
      split: sum.splits option.splits)

lemma sys_inv_DialContext:
  "sys_inv w \<Longrightarrow> sys_inv (snd (pool_DialContext p mgr nets now draws dial clks network w))"
  by (simp add: pool_DialContext_def split_beta sys_inv_pickCandidates sys_inv_dial_candidates
      split: sum.splits)

lemma sys_inv_ListenPacket:
  "sys_inv w \<Longrightarrow> sys_inv (snd (pool_ListenPacket p mgr nets now draws dial clks w))"
  by (simp add: pool_ListenPacket_def split_beta sys_inv_pickCandidates sys_inv_dial_candidates
      split: sum.splits)

lemma sys_inv_Close: "sys_inv w \<Longrightarrow> sys_inv (snd (snd (tracked_Close e c w)))"
  by (simp add: tracked_Close_def pool_decActive_def sys_inv_shared split: option.splits)

lemma sys_inv_probe_member: "sys_inv w \<Longrightarrow> sys_inv (snd (probe_member env ob h dst w))"
  by (simp add: probe_member_def sys_inv_entry_ops split: sum.splits)

lemma sys_inv_run_probe: "sys_inv w \<Longrightarrow> sys_inv (snd (run_probe env mgr fn w))"
  by (cases fn)
    (simp_all add: run_probe_def probe_by_tag_def split_beta Let_def sys_inv_probe_member
      sys_inv_initializeMembers split: option.splits)

lemma sys_inv_run_release: "sys_inv w \<Longrightarrow> sys_inv (run_release fn w)"
  by (cases fn)
    (simp_all add: run_release_def releaseSharedMember_def sys_inv_shared split: option.splits)

lemma sys_inv_probe_node: "sys_inv w \<Longrightarrow> sys_inv (probe_node (run_probe env mgr) now a w)"
  by (simp add: probe_node_def split_beta Let_def sys_inv_entry_ops sys_inv_run_probe
      split: option.splits)

lemma sys_inv_startup:
  "sys_inv w \<Longrightarrow> sys_inv (probeAllMembersOnStartup env p w)"
  by (auto simp: probeAllMembersOnStartup_def startup_probe_def split_beta sys_inv_entry_ops
      sys_inv_probe_member intro!: sys_inv_fold split: prod.splits bool.splits)

text \<open>
  One step of the running program: the monitor is made before any pool, a pool is created, started
  or used by a connection, a connection is closed, a probe of a node or of a started pool runs, the
  web interface releases or probes a node or sets the target of the probes, or a reload clears both
  tables.  What the outside answers is arbitrary.  Not a step is the retry after a port conflict,
  which clears the member states without the monitor: see below.
\<close>

inductive sys_step :: "'a pool_world_scheme \<Rightarrow> 'a pool_world_scheme \<Rightarrow> bool" where
  create: "sys_step w (snd (newPool has_mgr True opts w))"
| start: "sys_step w (snd (pool_Start p stage mgr w))"
| connect: "sys_step w (snd (pool_DialContext p mgr nets now draws (dial :: nat \<Rightarrow> nat \<Rightarrow> string + nat) clks network w))"
| listen: "sys_step w (snd (pool_ListenPacket p mgr nets now draws (dial :: nat \<Rightarrow> nat \<Rightarrow> string + nat) clks w))"
| close: "sys_step w (snd (snd (tracked_Close err (c :: nat tracked_conn) w)))"
| startup: "sys_step w (probeAllMembersOnStartup env p w)"
| periodic: "sys_step w (probe_node (run_probe env mgr) readings a w)"
| probe: "sys_step w (snd (Probe (run_probe env mgr) t w))"
| release: "sys_step w (snd (Release run_release t w))"
| target: "sys_step w (SetProbeTarget dst w)"
| manager: "tag_store w = Map.empty \<Longrightarrow> sys_step w (NewManager cfg w)"
| reload: "sys_step w (ResetNodes (ResetSharedStateStore w))"

inductive_cases sys_stepE: "sys_step w w'"

inductive sys_reachable :: "'a pool_world_scheme \<Rightarrow> bool" where
  boot: "tag_store w = Map.empty \<Longrightarrow> nodes w = Map.empty \<Longrightarrow> next_sh w = 0 \<Longrightarrow>
    \<forall>s. sh_entry (shs w s) = None \<Longrightarrow> \<forall>p. pl_monitor (pools w p) \<Longrightarrow> sys_reachable w"
| step: "sys_reachable w \<Longrightarrow> sys_step w w' \<Longrightarrow> sys_reachable w'"

lemma sys_inv_reload: "sys_inv w \<Longrightarrow> sys_inv (ResetNodes (ResetSharedStateStore w))"
  by (simp add: sys_inv_def world_inv_reset) (simp add: ResetNodes_def ResetSharedStateStore_def)

text \<open>What the invariant of the system reads.\<close>

lemma sys_inv_cong:
  assumes "shs v = shs w" "ents v = ents w" "next_sh v = next_sh w" "next_ent v = next_ent w"
    "tag_store v = tag_store w" "nodes v = nodes w" "pools v = pools w"
  shows "sys_inv v = sys_inv w"
  by (simp only: sys_inv_def world_inv_def nodes_wf_def store_wf_def linked_def attached_once_def
      mirrored_def black_def assms)

lemma applyProbeTarget_frame:
  "shs (applyProbeTarget t w) = shs w" "ents (applyProbeTarget t w) = ents w"
  "next_sh (applyProbeTarget t w) = next_sh w" "next_ent (applyProbeTarget t w) = next_ent w"
  "tag_store (applyProbeTarget t w) = tag_store w" "nodes (applyProbeTarget t w) = nodes w"
  "pools (applyProbeTarget t w) = pools w"
  by (simp_all add: applyProbeTarget_def split: option.split)

lemma sys_inv_SetProbeTarget: "sys_inv w \<Longrightarrow> sys_inv (SetProbeTarget t w)"
  by (subst sys_inv_cong [of _ w]) (simp_all add: SetProbeTarget_def applyProbeTarget_frame)

lemma sys_inv_NewManager:
  assumes "sys_inv w" and "tag_store w = Map.empty"
  shows "sys_inv (NewManager cfg w)"
proof -
  let ?w = "ResetNodes (ResetSharedStateStore w)"
  have "tag_store ?w = tag_store w" "shs ?w = shs w" "ents ?w = ents w" "next_sh ?w = next_sh w"
    "next_ent ?w = next_ent w" "nodes ?w = Map.empty" "pools ?w = pools w"
    using assms(2) by (simp_all add: ResetNodes_def ResetSharedStateStore_def)
  then have "sys_inv (NewManager cfg w) = sys_inv ?w"
    by (intro sys_inv_cong) (simp_all add: NewManager_def applyProbeTarget_frame)
  then show ?thesis using sys_inv_reload [OF assms(1)] by simp
qed

lemma sys_step_inv: "sys_step w w' \<Longrightarrow> sys_inv w \<Longrightarrow> sys_inv w'"
proof (induction rule: sys_step.induct)
  case (probe w env mgr t)
  then show ?case
    by (simp add: Probe_def split_beta sys_inv_run_probe sys_inv_entry_ops split: sum.splits option.splits)
next
  case (release w t)
  then show ?case
    by (simp add: Release_def sys_inv_run_release split: sum.splits option.splits)
qed (simp_all add: sys_inv_newPool pool_Start_def sys_inv_initializeMembers sys_inv_DialContext
    sys_inv_ListenPacket sys_inv_Close sys_inv_startup sys_inv_probe_node sys_inv_reload
    sys_inv_SetProbeTarget sys_inv_NewManager)

lemma sys_reachable_inv: "sys_reachable w \<Longrightarrow> sys_inv w"
proof (induction rule: sys_reachable.induct)
  case (boot w)
  then show ?case
    by (simp add: sys_inv_def world_inv_def nodes_wf_def store_wf_def linked_def attached_once_def)
next
  case (step w w')
  then show ?case by (blast intro: sys_step_inv)
qed


definition boot_world :: pool_world where
  "boot_world = shared_world.extend empty_world (pool_world.fields (\<lambda>_. demo_pool) 0)"

lemma boot_world_reachable: "sys_reachable boot_world"
  by (rule sys_reachable.boot)
    (simp_all add: boot_world_def empty_world_def empty_monitor_def demo_pool_def new_shared_def
      shared_world.defs pool_world.defs mon_state.defs)


section \<open>The retry after a port conflict\<close>

definition untouched :: "'a shared_world_scheme \<Rightarrow> bool" where
  "untouched w \<longleftrightarrow> nodes_wf w \<and> store_wf w \<and>
     (\<forall>t a. nodes w t = Some a \<longrightarrow>
        blacklist_view (ents w a) = (False, zero_time) \<and> e_active (ents w a) = 0) \<and>
     (\<forall>t s. tag_store w t = Some s \<longrightarrow>
        nodes w t \<noteq> None \<and> black s w = (False, zero_time) \<and> sh_active (shs w s) = 0)"

lemma wf_enroll: "nodes_wf w \<Longrightarrow> store_wf w \<Longrightarrow> nodes_wf (enroll i w) \<and> store_wf (enroll i w)"
proof -
  assume wf: "nodes_wf w" "store_wf w"
  define v where "v = snd (acquireSharedState (ni_Tag i) w)"
  have "nodes_wf v" using wf(1) by (simp add: v_def nodes_wf_def)
  then have n: "nodes_wf (snd (Register i v))" by (rule nodes_wf_Register)
  have "store_wf v" unfolding v_def by (rule shared_store.request_wf [OF wf(2)])
  then have s: "store_wf (snd (Register i v))" by (simp add: store_wf_def)
  have "enroll i w = upd_sh (fst (acquireSharedState (ni_Tag i) w))
      (\<lambda>x. x\<lparr>sh_entry := Some (fst (Register i v))\<rparr>) (snd (Register i v))"
    by (simp add: enroll_def split_beta Let_def attachEntry_def v_def)
  then show ?thesis using n s by (simp add: nodes_wf_def store_wf_def)
qed

lemma untouched_enroll:
  assumes "untouched w"
  shows "untouched (enroll i w)"
proof -
  have wf: "nodes_wf w" "store_wf w" using assms by (simp_all add: untouched_def)
  have "(\<forall>t a. nodes (enroll i w) t = Some a \<longrightarrow>
        blacklist_view (ents (enroll i w) a) = (False, zero_time) \<and> e_active (ents (enroll i w) a) = 0) \<and>
     (\<forall>t s. tag_store (enroll i w) t = Some s \<longrightarrow> nodes (enroll i w) t \<noteq> None \<and>
        black s (enroll i w) = (False, zero_time) \<and> sh_active (shs (enroll i w) s) = 0)"
    using assms wf unfolding untouched_def
    by (cases "tag_store w (ni_Tag i)"; cases "nodes w (ni_Tag i)")
      (auto simp: enroll_def acquireSharedState_def Register_def attachEntry_def new_entry_def
        new_shared_def blacklist_view_def black_def dest: nodes_wf_less store_wf_less)
  then show ?thesis
    using wf_enroll [OF wf] by (simp only: untouched_def simp_thms)
qed

lemma untouched_newPool: "untouched w \<Longrightarrow> untouched (snd (newPool has_mgr True opts w))"
proof -
  assume "untouched w"
  define w1 where "w1 = w\<lparr>pools := (pools w)(next_pool w := \<lparr>pl_options = normalizeOptions opts,
    pl_mode = po_Mode (normalizeOptions opts), pl_members = [], pl_rrCounter = 0, pl_monitor = True\<rparr>),
    next_pool := Suc (next_pool w)\<rparr>"
  have "untouched w1"
    using \<open>untouched w\<close> by (simp add: w1_def untouched_def nodes_wf_def store_wf_def black_def)
  moreover have "untouched (register_member p t v)" if "untouched v" for p t and v :: "'a pool_world_scheme"
  proof -
    obtain a r fn where "register_member p t v =
        set_probe_if a fn (SetRelease (Some a) r (enroll (member_info (pl_options (pools v p)) t) v))"
      using register_member_enroll by blast
    moreover have neutral: "untouched (on_handle h (entry_step op) u)" if "untouched u" "neutral_op op"
      for h op and u :: "'a pool_world_scheme"
      using that by (auto simp: untouched_def store_wf_def ents_on_handle neutral_op_views black_def)
    moreover have "untouched (SetRelease (Some a) r u)" "untouched (set_probe_if a fn u)" if "untouched u"
      for r a fn and u :: "'a pool_world_scheme"
      using neutral [OF that, of "OpSetRelease r" "Some a"] neutral [OF that, of "OpSetProbe fn" "Some a"] that
      by (cases fn; simp add: set_probe_if_def handle_defs)+
    ultimately show ?thesis using untouched_enroll [OF that] by simp
  qed
  then have "untouched v \<Longrightarrow> untouched (fold (register_member p) ts v)" for p ts and v :: "'a pool_world_scheme"
    by (induction ts arbitrary: v) simp_all
  ultimately show ?thesis
    using \<open>untouched w\<close> by (simp add: newPool_def Let_def w1_def)
qed

lemma retry_of_untouched_entries:
  fixes w :: "'a pool_world_scheme" and optss :: "pool_options list"
  assumes "sys_reachable w"
    and "\<forall>t a. nodes w t = Some a \<longrightarrow>
      blacklist_view (ents w a) = (False, zero_time) \<and> e_active (ents w a) = 0"
  defines "v \<equiv> fold (\<lambda>opts w. snd (newPool True True opts w)) optss (ResetSharedStateStore w)"
  assumes "tag_store v t = Some s"
  shows "\<exists>a. nodes v t = Some a \<and> blacklist_view (ents v a) = black s v \<and>
    e_active (ents v a) = sh_active (shs v s)"
proof -
  have "sys_inv w" by (rule sys_reachable_inv [OF assms(1)])
  then have "untouched (ResetSharedStateStore w)"
    using assms(2)
    by (simp add: untouched_def ResetSharedStateStore_def nodes_wf_def store_wf_def sys_inv_def world_inv_def)
  moreover have "untouched u \<Longrightarrow> untouched (fold (\<lambda>opts w. snd (newPool True True opts w)) optss u)"
    for u :: "'a pool_world_scheme"
    by (induction optss arbitrary: u) (simp_all add: untouched_newPool)
  ultimately have "untouched v" by (simp add: v_def)
  with assms(4) show ?thesis
    unfolding untouched_def by (metis option.exhaust)
qed

text \<open>
  A retry over the entry of a blacklisted node, as after failures of an instance that ran for a
  while, breaks the agreement: the entry stays blacklisted, the fresh state is not.
\<close>

lemma retry_keeps_old_blacklist:
  assumes "nodes w (ni_Tag i) = Some a" and "e_blacklist (ents w a)"
  defines "v \<equiv> enroll i (ResetSharedStateStore w)"
  shows "\<exists>s. tag_store v (ni_Tag i) = Some s \<and> nodes v (ni_Tag i) = Some a \<and>
    e_blacklist (ents v a) \<and> \<not> sh_blacklisted (shs v s)"
  using assms(1,2)
  by (simp add: v_def enroll_def acquireSharedState_def ResetSharedStateStore_def Register_def
      attachEntry_def new_shared_def)


section \<open>Health checks\<close>

lemma check_view_probe_member [simp]:
  "check_view (ents (snd (probe_member env ob h dst w)) a) = check_view (ents w a)"
  by (auto simp: probe_member_def handle_defs ents_on_handle frame_simps split: sum.splits)

lemma e_probe_probe_member [simp]:
  "e_probe (ents (snd (probe_member env ob h dst w)) a) = e_probe (ents w a)"
  by (auto simp: probe_member_def handle_defs ents_on_handle entry_defs Let_def split: sum.splits)

lemma fst_probe_member [simp]: "fst (probe_member env ob h dst w) = probe_outcome env ob dst"
  by (simp add: probe_member_def split: sum.splits)

text \<open>The closures that a started pool stores, and what decides whether they fail.\<close>

fun member_probe :: "probe_fn \<Rightarrow> bool" where
  "member_probe (ProbeMember ob h dst) = True"
| "member_probe (ProbeByTag p t dst) = False"

fun probe_fails :: "probe_env \<Rightarrow> probe_fn \<Rightarrow> bool" where
  "probe_fails env (ProbeMember ob h dst) = isl (probe_outcome env ob dst)"
| "probe_fails env (ProbeByTag p t dst) = False"

interpretation pool_prober: prober "run_probe env mgr" member_probe "probe_fails env" for env mgr
proof
  fix fn and w :: "'a pool_world_scheme" and a
  assume fn: "member_probe fn"
  show "check_view (ents (snd (run_probe env mgr fn w)) a) = check_view (ents w a)"
    using fn by (cases fn) (simp_all add: run_probe_def)
  show "e_probe (ents (snd (run_probe env mgr fn w)) a) = e_probe (ents w a)"
    using fn by (cases fn) (simp_all add: run_probe_def)
  show "isl (fst (run_probe env mgr fn w)) = probe_fails env fn"
    using fn by (cases fn) (simp_all add: run_probe_def)
qed

text \<open>
  C18. The periodic check.  After one round over a set of nodes whose probes are the closures of
  a started pool, every one of them is marked as checked, and as available exactly when dialling
  its outbound, writing the request and reading the first byte all succeeded; the verdicts of all
  other nodes stand.
\<close>

theorem health_round_verdicts:
  assumes "\<forall>b \<in> set order. \<exists>ob h dst. e_probe (ents w b) = Some (ProbeMember ob h dst)"
  shows "check_view (ents (probeAllNodes (run_probe env mgr) now order w) a) =
    (if a \<in> set order
     then (case e_probe (ents w a) of
             Some (ProbeMember ob h dst) \<Rightarrow>
               (True, pe_dial env ob dst = None \<and>
                  pe_write env ob (probe_request (pe_addr env dst)) = None \<and> pe_read env ob = None)
           | _ \<Rightarrow> (True, False))
     else check_view (ents w a))"
proof -
  have "\<forall>b \<in> set order. \<exists>fn. e_probe (ents w b) = Some fn \<and> member_probe fn"
    using assms by fastforce
  note verdicts = pool_prober.round_verdicts [OF this, of env mgr now a]
  show ?thesis
  proof (cases "a \<in> set order")
    case True
    with assms obtain ob h dst where "e_probe (ents w a) = Some (ProbeMember ob h dst)" by blast
    with True verdicts show ?thesis
      by (auto simp: probe_outcome_def httpProbe_def split: option.splits)
  qed (use verdicts in simp)
qed

definition demo_env :: "(nat \<Rightarrow> string option) \<Rightarrow> probe_env" where
  "demo_env dial = \<lparr>pe_dial = (\<lambda>ob _. dial ob), pe_write = (\<lambda>_ _. None), pe_read = (\<lambda>_. None),
     pe_addr = (\<lambda>_. ''www.apple.com''), pe_start = (\<lambda>_. 1), pe_sent = (\<lambda>_. 2), pe_first = (\<lambda>_. 3),
     pe_end = (\<lambda>_. 4), pe_clock = (\<lambda>_ _. 5)\<rparr>"

theorem health_round_verdicts_witness:
  "let w = SetProbe (Some 0) (Some (ProbeMember 7 (Some 0) Socksaddr_zero))
             (SetProbe (Some 1) (Some (ProbeMember 8 (Some 1) Socksaddr_zero)) demo_world);
       v = probeAllNodes (run_probe (demo_env (\<lambda>ob. if ob = 7 then Some ''refused'' else None))
             demo_mgr) (\<lambda>_. 9) [0, 1] w
   in check_view (ents v 0) = (True, False) \<and> check_view (ents v 1) = (True, True)"
proof -
  let ?w = "SetProbe (Some 0) (Some (ProbeMember 7 (Some 0) Socksaddr_zero))
             (SetProbe (Some 1) (Some (ProbeMember 8 (Some 1) Socksaddr_zero)) demo_world)"
  let ?env = "demo_env (\<lambda>ob. if ob = 7 then Some ''refused'' else None)"
  have "\<forall>b \<in> set [0, 1]. \<exists>ob h dst. e_probe (ents ?w b) = Some (ProbeMember ob h dst)"
    by (simp add: handle_defs entry_defs)
  from health_round_verdicts [OF this, of ?env demo_mgr "\<lambda>_. 9"] show ?thesis
    by (simp add: handle_defs entry_defs demo_env_def)
qed

lemma startup_fold_other:
  "\<forall>mb \<in> set mbs. mb_entry mb \<noteq> Some a \<Longrightarrow>
   check_view (ents (fold (startup_probe env dst) mbs w) a) = check_view (ents w a)"
  by (induction mbs arbitrary: w)
    (auto simp: startup_probe_def split_beta handle_defs ents_on_handle frame_simps)

lemma check_view_startup:
  "check_view (ents (startup_probe env dst mb w) a) =
     (if mb_entry mb = Some a then (True, \<not> isl (probe_outcome env (mb_outbound mb) dst))
      else check_view (ents w a))"
  by (auto simp: startup_probe_def split_beta handle_defs ents_on_handle frame_simps)

text \<open>A member whose entry no member with another outbound shares gets its own verdict.\<close>

lemma startup_fold_verdict:
  "\<forall>m \<in> set mbs. mb_entry m = Some a \<longrightarrow> mb_outbound m = ob \<Longrightarrow>
   check_view (ents (fold (startup_probe env dst) mbs w) a) =
     (if \<exists>m \<in> set mbs. mb_entry m = Some a then (True, \<not> isl (probe_outcome env ob dst))
      else check_view (ents w a))"
  by (induction mbs arbitrary: w) (auto simp: check_view_startup)

lemma untargeted_fold_verdict:
  "check_view (ents (fold (\<lambda>mb. MarkInitialCheckDone (mb_entry mb) True) mbs w) a) =
     (if \<exists>m \<in> set mbs. mb_entry m = Some a then (True, True) else check_view (ents w a))"
  by (induction mbs arbitrary: w) (auto simp: handle_defs ents_on_handle frame_simps)

text \<open>
  C25. The first check.  After the start of a pool every member is marked as checked; it is
  available when there is no probe target at all, or when its own probe succeeded.  So a member
  that failed its first probe is no longer offered to any connection.
\<close>

theorem startup_check_verdict:
  assumes "mb \<in> set (pl_members (pools w p))" and "mb_entry mb = Some a"
    and "\<forall>m \<in> set (pl_members (pools w p)).
           mb_entry m = Some a \<longrightarrow> mb_outbound m = mb_outbound mb"
    and "DestinationForProbe w = (dst, ready)"
  shows "check_view (ents (probeAllMembersOnStartup env p w) a) =
      (True, \<not> (ready \<and> isl (probe_outcome env (mb_outbound mb) dst))) \<and>
    offered networks now network (probeAllMembersOnStartup env p w) mb =
      (\<not> (ready \<and> isl (probe_outcome env (mb_outbound mb) dst)) \<and>
       \<not> barred now mb (probeAllMembersOnStartup env p w) \<and> supports networks network mb)"
proof -
  have "check_view (ents (probeAllMembersOnStartup env p w) a) =
      (True, \<not> (ready \<and> isl (probe_outcome env (mb_outbound mb) dst)))"
  proof -
    have some: "\<exists>m \<in> set (pl_members (pools w p)). mb_entry m = Some a"
      using assms(1,2) by blast
    show ?thesis
      unfolding probeAllMembersOnStartup_def assms(4) using some
      by (cases ready)
        (simp_all only: prod.case bool.case startup_fold_verdict [OF assms(3)]
          untargeted_fold_verdict if_True simp_thms)
  qed
  then show ?thesis
    using assms(2) by (auto simp: offered_def usable_check_view)
qed

theorem startup_check_verdict_witness:
  "check_view (ents (probeAllMembersOnStartup (demo_env (\<lambda>_. Some ''refused'')) 0
      (applyProbeTarget ''www.apple.com:80'' demo_world)) 0) = (True, False)"
proof -
  let ?w = "applyProbeTarget ''www.apple.com:80'' demo_world"
  have "probe_host_port ''www.apple.com:80'' = Some (''www.apple.com'', ''80'')"
    by code_simp
  then have w: "?w = demo_world\<lparr>probeDst := ParseSocksaddrHostPort ''www.apple.com'' (parsePort ''80''),
      probeReady := True\<rparr>"
    by (simp add: applyProbeTarget_def)
  have "pools ?w = pools demo_world"
    by (rule pools_more) (simp add: w)
  then have mem: "pl_members (pools ?w 0) = [demo_a, demo_b]"
    by (simp add: demo_world_def demo_pool_def shared_world.defs pool_world.defs)
  have dst: "DestinationForProbe ?w =
      (ParseSocksaddrHostPort ''www.apple.com'' (parsePort ''80''), True)"
    by (simp add: w DestinationForProbe_def)
  have "isl (probe_outcome (demo_env (\<lambda>_. Some ''refused'')) (mb_outbound demo_a)
      (ParseSocksaddrHostPort ''www.apple.com'' (parsePort ''80'')))"
    by (simp add: probe_outcome_def demo_env_def)
  then show ?thesis
    using startup_check_verdict [of demo_a ?w 0 0, OF _ _ _ dst]
    by (simp add: mem demo_a_def demo_b_def)
qed

end
