(* ===== verification/Config.thy ===== *)
theory Config
  imports Geo_Info
begin

text \<open>
  The configuration (\<open>internal/config/config.go\<close>): its types, the filter that decides which nodes
  are enabled, and the defaults that both normalisations fill in.  Go's \<open>*bool\<close> is an option; the
  node sources are strings, as in the code, where any other string may occur.

  \<open>regexp.Compile\<close> and \<open>MatchString\<close> are the parameter \<open>rx\<close>: it gives a pattern's matching
  predicate, or \<open>None\<close> for a pattern that does not compile.
\<close>

section \<open>Types\<close>

record listener_config =
  lc_Address :: string
  lc_Port :: port
  lc_Username :: string
  lc_Password :: string

record pool_config =
  pc_Mode :: string
  pc_FailureThreshold :: int
  pc_BlacklistDuration :: duration

record multi_port_config =
  mpc_Address :: string
  mpc_BasePort :: port
  mpc_Username :: string
  mpc_Password :: string

record management_config =
  mgc_Enabled :: "bool option"
  mgc_Listen :: string
  mgc_ProbeTarget :: string
  mgc_Password :: string

record refresh_config =
  rc_Enabled :: bool
  rc_Interval :: duration
  rc_Timeout :: duration
  rc_HealthCheckTimeout :: duration
  rc_DrainTimeout :: duration
  rc_MinAvailableNodes :: int

type_synonym node_source = string

definition NodeSourceInline :: node_source where "NodeSourceInline = ''inline''"
definition NodeSourceFile :: node_source where "NodeSourceFile = ''nodes_file''"
definition NodeSourceSubscription :: node_source where "NodeSourceSubscription = ''subscription''"

lemmas source_defs = NodeSourceInline_def NodeSourceFile_def NodeSourceSubscription_def

record node_config =
  nc_Name :: string
  nc_URI :: string
  nc_Port :: port
  nc_Username :: string
  nc_Password :: string
  nc_Source :: node_source
  nc_Geo :: "geo_info option"

record node_filter =
  nf_Target :: string
  nf_Include :: "string list"
  nf_Exclude :: "string list"
  nf_UseRegex :: bool

record config =
  cf_Mode :: string
  cf_Listener :: listener_config
  cf_MultiPort :: multi_port_config
  cf_Pool :: pool_config
  cf_Management :: management_config
  cf_SubscriptionRefresh :: refresh_config
  cf_NodeFilter :: node_filter
  cf_Nodes :: "node_config list"
  cf_NodesFile :: string
  cf_Subscriptions :: "string list"
  cf_ExternalIP :: string
  cf_LogLevel :: string
  cf_SkipCertVerify :: bool
  cf_ConnectTimeout :: duration
  cf_filePath :: string

text \<open>A node of which only the URI is known, as the parsers build it, and the zero configuration.\<close>

definition uri_node :: "string \<Rightarrow> node_config" where
  "uri_node u = \<lparr>nc_Name = [], nc_URI = u, nc_Port = 0, nc_Username = [], nc_Password = [],
                 nc_Source = [], nc_Geo = None\<rparr>"

definition zero_config :: config where
  "zero_config =
     \<lparr>cf_Mode = [],
      cf_Listener = \<lparr>lc_Address = [], lc_Port = 0, lc_Username = [], lc_Password = []\<rparr>,
      cf_MultiPort = \<lparr>mpc_Address = [], mpc_BasePort = 0, mpc_Username = [], mpc_Password = []\<rparr>,
      cf_Pool = \<lparr>pc_Mode = [], pc_FailureThreshold = 0, pc_BlacklistDuration = 0\<rparr>,
      cf_Management = \<lparr>mgc_Enabled = None, mgc_Listen = [], mgc_ProbeTarget = [], mgc_Password = []\<rparr>,
      cf_SubscriptionRefresh = \<lparr>rc_Enabled = False, rc_Interval = 0, rc_Timeout = 0,
        rc_HealthCheckTimeout = 0, rc_DrainTimeout = 0, rc_MinAvailableNodes = 0\<rparr>,
      cf_NodeFilter = \<lparr>nf_Target = [], nf_Include = [], nf_Exclude = [], nf_UseRegex = False\<rparr>,
      cf_Nodes = [], cf_NodesFile = [], cf_Subscriptions = [], cf_ExternalIP = [],
      cf_LogLevel = [], cf_SkipCertVerify = False, cf_ConnectTimeout = 0, cf_filePath = []\<rparr>"

definition NodeKey :: "node_config \<Rightarrow> string" where
  "NodeKey n = nc_URI n"

definition ManagementEnabled :: "config \<Rightarrow> bool" where
  "ManagementEnabled c = (case mgc_Enabled (cf_Management c) of None \<Rightarrow> True | Some b \<Rightarrow> b)"

definition FilePath :: "config option \<Rightarrow> string" where
  "FilePath co = (case co of None \<Rightarrow> [] | Some c \<Rightarrow> cf_filePath c)"

definition SetFilePath :: "string \<Rightarrow> config option \<Rightarrow> config option" where
  "SetFilePath path co = map_option (\<lambda>c. c\<lparr>cf_filePath := path\<rparr>) co"

section \<open>The node filter\<close>

type_synonym regexps = "string \<Rightarrow> (string \<Rightarrow> bool) option"

fun normalizePatterns :: "string list \<Rightarrow> string list" where
  "normalizePatterns [] = []"
| "normalizePatterns (p # ps) =
     (let q = TrimSpace p in if q = [] then normalizePatterns ps else q # normalizePatterns ps)"

definition compileRegexps ::
  "regexps \<Rightarrow> string list \<Rightarrow> bool \<Rightarrow> (string \<Rightarrow> bool) option list" where
  "compileRegexps rx patterns useRegex =
     (if \<not> useRegex \<or> patterns = [] then [] else map rx patterns)"

definition matchesAny ::
  "string \<Rightarrow> string list \<Rightarrow> (string \<Rightarrow> bool) option list \<Rightarrow> bool \<Rightarrow> bool" where
  "matchesAny v patterns res useRegex =
     (if v = [] then False
      else if useRegex then list_ex (\<lambda>re. case re of None \<Rightarrow> False | Some f \<Rightarrow> f v) res
      else list_ex (\<lambda>p. Contains (ToLower v) (ToLower p)) patterns)"

definition filter_name :: "node_config \<Rightarrow> string" where
  "filter_name n =
     (let name = TrimSpace (nc_Name n) in if name = [] then TrimSpace (nc_URI n) else name)"

definition filter_geo :: "node_config \<Rightarrow> string" where
  "filter_geo n = (case nc_Geo n of None \<Rightarrow> [] | Some g \<Rightarrow> TrimSpace (geo_Text (Some g)))"

text \<open>The \<open>switch\<close> on the target for one node: whether the loop appends it.\<close>

definition filter_keeps ::
  "string \<Rightarrow> (string \<Rightarrow> bool) \<Rightarrow> (string \<Rightarrow> bool) \<Rightarrow> bool \<Rightarrow> bool \<Rightarrow> node_config \<Rightarrow> bool" where
  "filter_keeps target inc exc has_inc has_exc n =
     (let name = filter_name n; geo = filter_geo n in
      if target = ''geo'' then
        (if has_inc \<and> \<not> inc geo then False else if has_exc \<and> exc geo then False else True)
      else if target = ''name_or_geo'' then
        (if has_inc \<and> \<not> inc name \<and> \<not> inc geo then False
         else if has_exc \<and> (exc name \<or> exc geo) then False else True)
      else
        (if has_inc \<and> \<not> inc name then False else if has_exc \<and> exc name then False else True))"

definition FilterNodes :: "regexps \<Rightarrow> node_config list \<Rightarrow> node_filter \<Rightarrow> node_config list" where
  "FilterNodes rx nodes flt =
     (let incl = normalizePatterns (nf_Include flt);
          excl = normalizePatterns (nf_Exclude flt);
          trg0 = ToLower (TrimSpace (nf_Target flt));
          trg = (if trg0 = [] then ''name'' else trg0)
      in if incl = [] \<and> excl = [] then nodes
         else
           (let inclRE = compileRegexps rx incl (nf_UseRegex flt);
                exclRE = compileRegexps rx excl (nf_UseRegex flt);
                out = filter
                  (filter_keeps trg (\<lambda>v. matchesAny v incl inclRE (nf_UseRegex flt))
                     (\<lambda>v. matchesAny v excl exclRE (nf_UseRegex flt)) (incl \<noteq> []) (excl \<noteq> [])) nodes;
                geoKnown = length (filter (\<lambda>n. filter_geo n \<noteq> []) nodes)
            in if out = [] \<and> trg = ''geo'' \<and> (incl \<noteq> [] \<or> excl \<noteq> []) \<and> geoKnown = 0
               then nodes else out))"

definition config_FilterNodes :: "regexps \<Rightarrow> config option \<Rightarrow> node_config list" where
  "config_FilterNodes rx co =
     (case co of None \<Rightarrow> [] | Some c \<Rightarrow> FilterNodes rx (cf_Nodes c) (cf_NodeFilter c))"

section \<open>Defaults\<close>

text \<open>
  The defaults that \<open>normalize\<close> and \<open>NormalizeWithPortMap\<close> both fill in, with the check of the
  mode; \<open>normalize\<close> also sets the connection timeout.
\<close>

definition unsupported_mode :: "string \<Rightarrow> string" where
  "unsupported_mode m =
     ''unsupported mode '' @ m @ '' (use 'pool', 'multi-port', or 'hybrid')''"

definition default_string :: "string \<Rightarrow> string \<Rightarrow> string" where
  "default_string d s = (if s = [] then d else s)"

definition default_positive :: "int \<Rightarrow> int \<Rightarrow> int" where
  "default_positive d i = (if i \<le> 0 then d else i)"

definition default_port :: "port \<Rightarrow> port \<Rightarrow> port" where
  "default_port d p = (if p = 0 then d else p)"

definition normal_mode :: "string \<Rightarrow> string" where
  "normal_mode m =
     (let m1 = (if m = [] then ''pool'' else m)
      in if m1 = ''multi_port'' then ''multi-port'' else m1)"

definition refresh_defaults :: "refresh_config \<Rightarrow> refresh_config" where
  "refresh_defaults r =
     r\<lparr>rc_Interval := default_positive (1 * hour) (rc_Interval r),
       rc_Timeout := default_positive (30 * second) (rc_Timeout r),
       rc_HealthCheckTimeout := default_positive (60 * second) (rc_HealthCheckTimeout r),
       rc_DrainTimeout := default_positive (30 * second) (rc_DrainTimeout r),
       rc_MinAvailableNodes := default_positive 1 (rc_MinAvailableNodes r)\<rparr>"

definition apply_defaults :: "config \<Rightarrow> string + config" where
  "apply_defaults c =
     (let mode = normal_mode (cf_Mode c) in
      if mode \<notin> {''pool'', ''multi-port'', ''hybrid''} then Inl (unsupported_mode mode)
      else
        Inr (c\<lparr>cf_Mode := mode,
               cf_Listener := (cf_Listener c)
                 \<lparr>lc_Address := default_string ''0.0.0.0'' (lc_Address (cf_Listener c)),
                  lc_Port := default_port 2323 (lc_Port (cf_Listener c))\<rparr>,
               cf_Pool := (cf_Pool c)
                 \<lparr>pc_Mode := default_string ''sequential'' (pc_Mode (cf_Pool c)),
                  pc_FailureThreshold := default_positive 3 (pc_FailureThreshold (cf_Pool c)),
                  pc_BlacklistDuration :=
                    default_positive (24 * hour) (pc_BlacklistDuration (cf_Pool c))\<rparr>,
               cf_MultiPort := (cf_MultiPort c)
                 \<lparr>mpc_Address := default_string ''0.0.0.0'' (mpc_Address (cf_MultiPort c)),
                  mpc_BasePort := default_port 28000 (mpc_BasePort (cf_MultiPort c))\<rparr>,
               cf_Management := (cf_Management c)
                 \<lparr>mgc_Listen := default_string ''127.0.0.1:9090'' (mgc_Listen (cf_Management c)),
                  mgc_ProbeTarget :=
                    default_string ''www.apple.com:80'' (mgc_ProbeTarget (cf_Management c)),
                  mgc_Enabled :=
                    (case mgc_Enabled (cf_Management c) of None \<Rightarrow> Some True | Some b \<Rightarrow> Some b)\<rparr>,
               cf_SubscriptionRefresh := refresh_defaults (cf_SubscriptionRefresh c)\<rparr>))"

section \<open>What the filter promises\<close>

text \<open>
  The documented meaning: a pattern matches a non-empty text as a regular expression that compiles
  or, without \<open>use_regex\<close>, as a part of it in any case; the target says which texts of a node
  count; blank patterns do not count as patterns.
\<close>

definition pattern_hits :: "regexps \<Rightarrow> bool \<Rightarrow> string \<Rightarrow> string \<Rightarrow> bool" where
  "pattern_hits rx useRegex v p \<longleftrightarrow>
     v \<noteq> [] \<and> (if useRegex then (\<exists>f. rx p = Some f \<and> f v) else Contains (ToLower v) (ToLower p))"

definition filter_texts :: "string \<Rightarrow> node_config \<Rightarrow> string set" where
  "filter_texts target n =
     (if ToLower (TrimSpace target) = ''geo'' then {filter_geo n}
      else if ToLower (TrimSpace target) = ''name_or_geo'' then {filter_name n, filter_geo n}
      else {filter_name n})"

definition live_patterns :: "string list \<Rightarrow> string set" where
  "live_patterns ps = TrimSpace ` set ps - {[]}"

definition admitted :: "regexps \<Rightarrow> node_filter \<Rightarrow> node_config \<Rightarrow> bool" where
  "admitted rx flt n \<longleftrightarrow>
     (live_patterns (nf_Include flt) = {} \<or>
      (\<exists>p \<in> live_patterns (nf_Include flt). \<exists>v \<in> filter_texts (nf_Target flt) n.
         pattern_hits rx (nf_UseRegex flt) v p)) \<and>
     \<not> (\<exists>p \<in> live_patterns (nf_Exclude flt). \<exists>v \<in> filter_texts (nf_Target flt) n.
         pattern_hits rx (nf_UseRegex flt) v p)"

lemma set_normalizePatterns: "set (normalizePatterns ps) = live_patterns ps"
  by (induction ps) (auto simp: live_patterns_def Let_def)

lemma normalizePatterns_empty: "normalizePatterns ps = [] \<longleftrightarrow> live_patterns ps = {}"
  by (metis set_empty set_normalizePatterns)

lemma matchesAny_hits:
  "matchesAny v ps (compileRegexps rx ps useRegex) useRegex \<longleftrightarrow>
     (\<exists>p \<in> set ps. pattern_hits rx useRegex v p)"
  by (auto simp: matchesAny_def compileRegexps_def pattern_hits_def list_ex_iff split: option.splits)

lemma filter_keeps_admitted:
  "filter_keeps (if ToLower (TrimSpace (nf_Target flt)) = [] then ''name''
       else ToLower (TrimSpace (nf_Target flt)))
     (\<lambda>v. \<exists>p \<in> live_patterns (nf_Include flt). pattern_hits rx (nf_UseRegex flt) v p)
     (\<lambda>v. \<exists>p \<in> live_patterns (nf_Exclude flt). pattern_hits rx (nf_UseRegex flt) v p)
     (live_patterns (nf_Include flt) \<noteq> {}) (live_patterns (nf_Exclude flt) \<noteq> {}) n =
   admitted rx flt n"
  by (simp add: filter_keeps_def admitted_def filter_texts_def Let_def) blast

lemma FilterNodes_admitted:
  "FilterNodes rx nodes flt =
     (if ToLower (TrimSpace (nf_Target flt)) = ''geo'' \<and> filter (admitted rx flt) nodes = [] \<and>
         (\<forall>n \<in> set nodes. filter_geo n = [])
      then nodes else filter (admitted rx flt) nodes)"
proof -
  have all: "admitted rx flt n"
    if "live_patterns (nf_Include flt) = {}" "live_patterns (nf_Exclude flt) = {}" for n
    using that by (simp add: admitted_def)
  have keeps: "filter_keeps (if ToLower (TrimSpace (nf_Target flt)) = [] then ''name''
       else ToLower (TrimSpace (nf_Target flt)))
     (\<lambda>v. \<exists>p \<in> live_patterns (nf_Include flt). pattern_hits rx (nf_UseRegex flt) v p)
     (\<lambda>v. \<exists>p \<in> live_patterns (nf_Exclude flt). pattern_hits rx (nf_UseRegex flt) v p)
     (live_patterns (nf_Include flt) \<noteq> {}) (live_patterns (nf_Exclude flt) \<noteq> {}) =
   admitted rx flt"
    by (rule ext) (rule filter_keeps_admitted)
  show ?thesis
    unfolding FilterNodes_def Let_def
    by (simp only: matchesAny_hits set_normalizePatterns normalizePatterns_empty keeps)
      (auto simp: all filter_empty_conv)
qed

text \<open>
  C26. The node filter.  The enabled nodes are, in their order, exactly those that match some
  include pattern (if there is one that is not blank) and no exclude pattern on the texts the
  target names.  The one exception is a filter on GeoIP that admits nothing while no node has
  GeoIP data: then all nodes stay enabled.  Filtering what is enabled changes nothing.
\<close>

theorem FilterNodes_spec:
  "FilterNodes rx nodes flt =
     (if ToLower (TrimSpace (nf_Target flt)) = ''geo'' \<and> \<not> list_ex (admitted rx flt) nodes \<and>
         \<not> list_ex (\<lambda>n. filter_geo n \<noteq> []) nodes
      then nodes else filter (admitted rx flt) nodes) \<and>
   FilterNodes rx (FilterNodes rx nodes flt) flt = FilterNodes rx nodes flt"
  by (auto simp: FilterNodes_admitted list_ex_iff filter_empty_conv)

end
