(* ===== verification/Go_Url.thy ===== *)
theory Go_Url
  imports Go_Strings
begin

text \<open>
  What the program uses of Go's \<open>net/url\<close> and \<open>encoding/base64\<close>: \<open>url.Parse\<close> with its handling of
  scheme, userinfo, host, port, path, query and fragment, \<open>Hostname\<close>, \<open>Port\<close>, \<open>Query\<close>,
  \<open>QueryEscape\<close>, \<open>PathEscape\<close>, \<open>URL.String\<close>, \<open>Values.Encode\<close>, \<open>UserPassword\<close>, and the four base64 encodings.  Errors
  are \<open>None\<close>: the program does not read their texts.
\<close>

section \<open>Cutting and escapes\<close>

text \<open>\<open>strings.Cut\<close> at a byte: what is before it, and what is behind it if it occurs.\<close>

fun Cut :: "string \<Rightarrow> char \<Rightarrow> string \<times> string option" where
  "Cut [] c = ([], None)"
| "Cut (x # xs) c = (if x = c then ([], Some xs) else (case Cut xs c of (a, b) \<Rightarrow> (x # a, b)))"

definition opt_string :: "string option \<Rightarrow> string" where
  "opt_string so = (case so of None \<Rightarrow> [] | Some s \<Rightarrow> s)"

datatype encoding =
  encodePath | encodePathSegment | encodeUserPassword | encodeHost | encodeZone | encodeQueryComponent | encodeFragment

definition is_letter :: "char \<Rightarrow> bool" where
  "is_letter c \<longleftrightarrow> (CHR ''a'' \<le> c \<and> c \<le> CHR ''z'') \<or> (CHR ''A'' \<le> c \<and> c \<le> CHR ''Z'')"

definition unreserved :: "char \<Rightarrow> bool" where
  "unreserved c \<longleftrightarrow> is_letter c \<or> is_digit c \<or> c \<in> set ''-_.~''"

text \<open>\<open>shouldEscape\<close>, for the modes in which the program escapes or checks.\<close>

fun shouldEscape :: "encoding \<Rightarrow> char \<Rightarrow> bool" where
  "shouldEscape encodeHost c =
     (\<not> (unreserved c \<or> c \<in> set (CHR 0x22 # CHR 0x27 # ''!$&()*+,;=:[]<>'')))"
| "shouldEscape encodeZone c =
     (\<not> (unreserved c \<or> c \<in> set (CHR 0x22 # CHR 0x27 # ''!$&()*+,;=:[]<>'')))"
| "shouldEscape encodeUserPassword c = (\<not> (unreserved c \<or> c \<in> set ''$&+,;=''))"
| "shouldEscape encodePath c = (\<not> (unreserved c \<or> c \<in> set ''$&+,/:;=@''))"
| "shouldEscape encodePathSegment c = (\<not> (unreserved c \<or> c \<in> set ''$&+:=@''))"
| "shouldEscape encodeQueryComponent c = (\<not> unreserved c)"
| "shouldEscape encodeFragment c =
     (\<not> (unreserved c \<or> c \<in> set ''$&+,/:;=?@!()*''))"

text \<open>What \<open>unescape\<close> rejects beyond malformed escapes: \<open>v\<close> is the byte an escape stands for.\<close>

fun escape_allowed :: "encoding \<Rightarrow> char \<Rightarrow> bool" where
  "escape_allowed encodeHost v \<longleftrightarrow> (of_char v :: nat) \<ge> 128 \<or> v = CHR ''%''"
| "escape_allowed encodeZone v \<longleftrightarrow> v = CHR ''%'' \<or> v = CHR '' '' \<or> \<not> shouldEscape encodeHost v"
| "escape_allowed _ v \<longleftrightarrow> True"

fun plain_allowed :: "encoding \<Rightarrow> char \<Rightarrow> bool" where
  "plain_allowed encodeHost c \<longleftrightarrow> (of_char c :: nat) \<ge> 128 \<or> \<not> shouldEscape encodeHost c"
| "plain_allowed encodeZone c \<longleftrightarrow> (of_char c :: nat) \<ge> 128 \<or> \<not> shouldEscape encodeZone c"
| "plain_allowed _ c \<longleftrightarrow> True"

fun unescape :: "encoding \<Rightarrow> string \<Rightarrow> string option" where
  "unescape m [] = Some []"
| "unescape m (c # cs) =
     (if c = CHR ''%'' then
        (case cs of
           a # b # rest \<Rightarrow>
             (case (hex_value a, hex_value b) of
                (Some x, Some y) \<Rightarrow>
                  (let v = char_of (16 * x + y)
                   in if escape_allowed m v then map_option (Cons v) (unescape m rest) else None)
              | _ \<Rightarrow> None)
         | _ \<Rightarrow> None)
      else if \<not> plain_allowed m c then None
      else map_option (Cons (if c = CHR ''+'' \<and> m = encodeQueryComponent then CHR '' '' else c))
             (unescape m cs))"

lemma QueryUnescape_unescape: "QueryUnescape s = unescape encodeQueryComponent s"
  by (induction s rule: QueryUnescape.induct) (auto simp: Let_def split: list.splits option.splits)

definition upper_hex :: "nat \<Rightarrow> char" where
  "upper_hex n = ''0123456789ABCDEF'' ! n"

definition escape :: "encoding \<Rightarrow> string \<Rightarrow> string" where
  "escape m s =
     concat (map (\<lambda>c. if shouldEscape m c
       then (if c = CHR '' '' \<and> m = encodeQueryComponent then ''+''
             else [CHR ''%'', upper_hex ((of_char c :: nat) div 16), upper_hex (of_char c mod 16)])
       else [c]) s)"

definition QueryEscape :: "string \<Rightarrow> string" where
  "QueryEscape s = escape encodeQueryComponent s"

section \<open>Parsing a URL\<close>

text \<open>\<open>url.URL\<close>; the user is a name with an optional password.\<close>

record url =
  u_Scheme :: string
  u_Opaque :: string
  u_User :: "(string \<times> string option) option"
  u_Host :: string
  u_Path :: string
  u_RawPath :: string
  u_RawQuery :: string
  u_Fragment :: string

text \<open>\<open>getScheme\<close>: \<open>None\<close> is the error for a leading colon.\<close>

fun scheme_end :: "string \<Rightarrow> nat option" where
  "scheme_end [] = None"
| "scheme_end (c # cs) =
     (if is_letter c \<or> is_digit c \<or> c \<in> set ''+-.'' then map_option Suc (scheme_end cs)
      else if c = CHR '':'' then Some 0 else None)"

definition getScheme :: "string \<Rightarrow> (string \<times> string) option" where
  "getScheme s =
     (case s of
        [] \<Rightarrow> Some ([], [])
      | c # cs \<Rightarrow>
          if c = CHR '':'' then None
          else if \<not> is_letter c then Some ([], s)
          else (case scheme_end s of None \<Rightarrow> Some ([], s) | Some i \<Rightarrow> Some (take i s, drop (Suc i) s)))"

definition validOptionalPort :: "string \<Rightarrow> bool" where
  "validOptionalPort p \<longleftrightarrow> p = [] \<or> (hd p = CHR '':'' \<and> list_all is_digit (tl p))"

definition validUserinfo :: "string \<Rightarrow> bool" where
  "validUserinfo s \<longleftrightarrow>
     list_all (\<lambda>c. is_letter c \<or> is_digit c \<or> c \<in> set (CHR 0x27 # ''-._:~!$&()*+,;=%@'')) s"

definition parseHost :: "string \<Rightarrow> string option" where
  "parseHost host =
     (if HasPrefix host ''['' then
        (case LastIndex host (CHR '']'') of
           None \<Rightarrow> None
         | Some i \<Rightarrow>
             if \<not> validOptionalPort (drop (Suc i) host) then None
             else
               (case Index (take i host) ''%25'' of
                  Some z \<Rightarrow>
                    (case (unescape encodeHost (take z host),
                           unescape encodeZone (drop z (take i host)),
                           unescape encodeHost (drop i host)) of
                       (Some a, Some b, Some d) \<Rightarrow> Some (a @ b @ d)
                     | _ \<Rightarrow> None)
                | None \<Rightarrow> unescape encodeHost host))
      else
        (case LastIndex host (CHR '':'') of
           Some i \<Rightarrow> if \<not> validOptionalPort (drop i host) then None else unescape encodeHost host
         | None \<Rightarrow> unescape encodeHost host))"

definition parseAuthority ::
  "string \<Rightarrow> ((string \<times> string option) option \<times> string) option" where
  "parseAuthority authority =
     (case LastIndex authority (CHR ''@'') of
        None \<Rightarrow> map_option (\<lambda>h. (None, h)) (parseHost authority)
      | Some i \<Rightarrow>
          (case parseHost (drop (Suc i) authority) of
             None \<Rightarrow> None
           | Some h \<Rightarrow>
               (let userinfo = take i authority in
                if \<not> validUserinfo userinfo then None
                else
                  (case Cut userinfo (CHR '':'') of
                     (n, None) \<Rightarrow>
                       map_option (\<lambda>n'. (Some (n', None), h)) (unescape encodeUserPassword n)
                   | (n, Some p) \<Rightarrow>
                       (case (unescape encodeUserPassword n, unescape encodeUserPassword p) of
                          (Some n', Some p') \<Rightarrow> Some (Some (n', Some p'), h)
                        | _ \<Rightarrow> None)))))"

definition is_ctl :: "char \<Rightarrow> bool" where
  "is_ctl c \<longleftrightarrow> c < CHR '' '' \<or> c = CHR 0x7F"

definition count_char :: "char \<Rightarrow> string \<Rightarrow> nat" where
  "count_char c s = length (filter (\<lambda>x. x = c) s)"

text \<open>\<open>setPath\<close>: the raw path is kept only when escaping the decoded one gives something else.\<close>

definition setPath :: "string \<Rightarrow> url \<Rightarrow> url option" where
  "setPath p u =
     map_option (\<lambda>path. u\<lparr>u_Path := path, u_RawPath := (if escape encodePath path = p then [] else p)\<rparr>)
       (unescape encodePath p)"

lemma setPath_keeps:
  "setPath p u = Some x \<Longrightarrow> u_Fragment x = u_Fragment u \<and> u_Scheme x = u_Scheme u"
  by (auto simp: setPath_def)

text \<open>\<open>parse\<close> without \<open>viaRequest\<close>, on a string without its fragment.\<close>

definition parse_url :: "string \<Rightarrow> url option" where
  "parse_url raw =
     (let empty = \<lparr>u_Scheme = [], u_Opaque = [], u_User = None, u_Host = [], u_Path = [], u_RawPath = [],
                   u_RawQuery = [], u_Fragment = []\<rparr> in
      if list_ex is_ctl raw then None
      else if raw = ''*'' then Some (empty\<lparr>u_Path := ''*''\<rparr>)
      else
        (case getScheme raw of
           None \<Rightarrow> None
         | Some (scheme0, rest0) \<Rightarrow>
             (let scheme = ToLower scheme0;
                  (rest, query) =
                    (if HasSuffix rest0 ''?'' \<and> count_char (CHR ''?'') rest0 = 1
                     then (butlast rest0, [])
                     else (case Cut rest0 (CHR ''?'') of (a, b) \<Rightarrow> (a, opt_string b)));
                  base = empty\<lparr>u_Scheme := scheme, u_RawQuery := query\<rparr>
              in if \<not> HasPrefix rest ''/'' \<and> scheme \<noteq> [] then Some (base\<lparr>u_Opaque := rest\<rparr>)
                 else if \<not> HasPrefix rest ''/'' \<and> CHR '':'' \<in> set (fst (Cut rest (CHR ''/''))) then None
                 else if (scheme \<noteq> [] \<or> \<not> HasPrefix rest ''///'') \<and> HasPrefix rest ''//'' then
                   (let (authority, path) =
                          (case Index (drop 2 rest) ''/'' of
                             None \<Rightarrow> (drop 2 rest, [])
                           | Some i \<Rightarrow> (take i (drop 2 rest), drop i (drop 2 rest)))
                    in case parseAuthority authority of
                         None \<Rightarrow> None
                       | Some (user, host) \<Rightarrow>
                           setPath path (base\<lparr>u_User := user, u_Host := host\<rparr>))
                 else setPath rest base)))"

definition url_Parse :: "string \<Rightarrow> url option" where
  "url_Parse raw =
     (case Cut raw (CHR ''#'') of
        (u, frag) \<Rightarrow>
          (case parse_url u of
             None \<Rightarrow> None
           | Some x \<Rightarrow>
               if opt_string frag = [] then Some x
               else map_option (\<lambda>f. x\<lparr>u_Fragment := f\<rparr>) (unescape encodeFragment (opt_string frag))))"

text \<open>\<open>splitHostPort\<close> behind \<open>Hostname\<close> and \<open>Port\<close>.\<close>

definition url_splitHostPort :: "string \<Rightarrow> string \<times> string" where
  "url_splitHostPort hp =
     (let (host, port) =
        (case LastIndex hp (CHR '':'') of
           None \<Rightarrow> (hp, [])
         | Some i \<Rightarrow>
             if validOptionalPort (drop i hp) then (take i hp, drop (Suc i) hp) else (hp, []))
      in (if HasPrefix host ''['' \<and> HasSuffix host '']'' then butlast (tl host) else host, port))"

definition url_Hostname :: "url \<Rightarrow> string" where
  "url_Hostname u = fst (url_splitHostPort (u_Host u))"

definition url_Port :: "url \<Rightarrow> string" where
  "url_Port u = snd (url_splitHostPort (u_Host u))"

text \<open>\<open>EscapedPath\<close> with its check \<open>validEncoded\<close>.\<close>

definition validEncodedPath :: "string \<Rightarrow> bool" where
  "validEncodedPath s \<longleftrightarrow>
     list_all (\<lambda>c. c \<in> set (CHR 0x27 # ''!$&()*+,;=:@[]%'') \<or> \<not> shouldEscape encodePath c) s"

definition EscapedPath :: "url \<Rightarrow> string" where
  "EscapedPath u =
     (if u_RawPath u \<noteq> [] \<and> validEncodedPath (u_RawPath u) \<and>
         unescape encodePath (u_RawPath u) = Some (u_Path u) then u_RawPath u
      else if u_Path u = ''*'' then ''*''
      else escape encodePath (u_Path u))"

definition PathEscape :: "string \<Rightarrow> string" where
  "PathEscape s = escape encodePathSegment s"

section \<open>Query values\<close>

text \<open>
  \<open>url.Values\<close> as the list of its pairs; \<open>Query\<close> drops what it cannot decode, \<open>Get\<close> takes the
  first value, \<open>Set\<close> replaces, \<open>Encode\<close> sorts by key.
\<close>

type_synonym url_values = "(string \<times> string) list"

definition query_pair :: "string \<Rightarrow> (string \<times> string) option" where
  "query_pair s =
     (if CHR '';'' \<in> set s \<or> s = [] then None
      else
        (case Cut s (CHR ''='') of
           (k, v) \<Rightarrow>
             (case (QueryUnescape k, QueryUnescape (opt_string v)) of
                (Some k', Some v') \<Rightarrow> Some (k', v')
              | _ \<Rightarrow> None)))"

definition url_Query :: "url \<Rightarrow> url_values" where
  "url_Query u = List.map_filter query_pair (Split (u_RawQuery u) (CHR ''&''))"

definition values_Get :: "url_values \<Rightarrow> string \<Rightarrow> string" where
  "values_Get q k = opt_string (map_of q k)"

definition values_Set :: "string \<Rightarrow> string \<Rightarrow> url_values \<Rightarrow> url_values" where
  "values_Set k v q = filter (\<lambda>(k', _). k' \<noteq> k) q @ [(k, v)]"

definition values_Encode :: "url_values \<Rightarrow> string" where
  "values_Encode q =
     Join (map (\<lambda>(k, v). QueryEscape k @ ''='' @ QueryEscape v)
       (sort_slice (\<lambda>(k, _) (k', _). k < k') q)) ''&''"

text \<open>\<open>url.UserPassword(n, p).String()\<close> and \<open>url.User(n).String()\<close>.\<close>

definition userinfo_String :: "string \<Rightarrow> string option \<Rightarrow> string" where
  "userinfo_String n p =
     escape encodeUserPassword n @
     (case p of None \<Rightarrow> [] | Some x \<Rightarrow> '':'' @ escape encodeUserPassword x)"

text \<open>
  \<open>URL.String\<close> for a URL whose query is not empty and that either has a host or was written without
  \<open>//\<close>: the flags \<open>ForceQuery\<close>, \<open>OmitHost\<close> and the field \<open>RawFragment\<close> are not part of the record.
\<close>

definition url_String :: "url \<Rightarrow> string" where
  "url_String u =
     (let path = EscapedPath u;
          query = (if u_RawQuery u \<noteq> [] then CHR ''?'' # u_RawQuery u else []);
          frag = (if u_Fragment u \<noteq> [] then CHR ''#'' # escape encodeFragment (u_Fragment u) else []);
          scheme = (if u_Scheme u \<noteq> [] then u_Scheme u @ '':'' else []);
          user = (case u_User u of None \<Rightarrow> [] | Some (n, p) \<Rightarrow> userinfo_String n p @ ''@'') in
      if u_Opaque u \<noteq> [] then scheme @ u_Opaque u @ query @ frag
      else if u_Host u \<noteq> [] \<or> u_User u \<noteq> None then
        scheme @ ''//'' @ user @ escape encodeHost (u_Host u) @
        (if path \<noteq> [] \<and> hd path \<noteq> CHR ''/'' \<and> u_Host u \<noteq> [] then CHR ''/'' # path else path) @
        query @ frag
      else scheme @
        (if scheme = [] \<and> CHR '':'' \<in> set (fst (Cut path (CHR ''/''))) then ''./'' else []) @
        path @ query @ frag)"

end
