(* ===== verification/Go_Base64.thy ===== *)
theory Go_Base64
  imports Go_Strings
begin

text \<open>
  Go's \<open>encoding/base64\<close> as the program uses it: decoding with the four encodings (the standard
  and the URL alphabet, padded and raw; line breaks are skipped, trailing bits are not checked),
  encoding with the standard one, and the decoding that tries all four
  (\<open>decodeBase64Any\<close> of \<open>config.go\<close>).
\<close>

definition std_alphabet :: string where
  "std_alphabet = ''ABCDEFGHIJKLMNOPQRSTUVWXYZabcdefghijklmnopqrstuvwxyz0123456789+/''"

definition url_alphabet :: string where
  "url_alphabet = ''ABCDEFGHIJKLMNOPQRSTUVWXYZabcdefghijklmnopqrstuvwxyz0123456789-_''"

fun position :: "char \<Rightarrow> string \<Rightarrow> nat option" where
  "position c [] = None"
| "position c (x # xs) = (if x = c then Some 0 else map_option Suc (position c xs))"

text \<open>The bytes of a group of four, three or two digits.\<close>

definition byte1 :: "nat \<Rightarrow> nat \<Rightarrow> char" where
  "byte1 a b = char_of (a * 4 + b div 16)"

definition byte2 :: "nat \<Rightarrow> nat \<Rightarrow> char" where
  "byte2 b c = char_of (b mod 16 * 16 + c div 4)"

definition byte3 :: "nat \<Rightarrow> nat \<Rightarrow> char" where
  "byte3 c d = char_of (c mod 4 * 64 + d)"

fun decode_quanta :: "(char \<Rightarrow> nat option) \<Rightarrow> bool \<Rightarrow> string \<Rightarrow> string option" where
  "decode_quanta dig pad [] = Some []"
| "decode_quanta dig pad [x] = None"
| "decode_quanta dig pad [x, y] =
     (if pad then None
      else (case (dig x, dig y) of (Some a, Some b) \<Rightarrow> Some [byte1 a b] | _ \<Rightarrow> None))"
| "decode_quanta dig pad [x, y, z] =
     (if pad then None
      else (case (dig x, dig y, dig z) of
              (Some a, Some b, Some c) \<Rightarrow> Some [byte1 a b, byte2 b c] | _ \<Rightarrow> None))"
| "decode_quanta dig pad (x # y # z # w # rest) =
     (if pad \<and> w = CHR ''='' then
        (if rest \<noteq> [] then None
         else if z = CHR ''='' then decode_quanta dig False [x, y]
         else decode_quanta dig False [x, y, z])
      else
        (case (dig x, dig y, dig z, dig w) of
           (Some a, Some b, Some c, Some d) \<Rightarrow>
             map_option (\<lambda>r. byte1 a b # byte2 b c # byte3 c d # r) (decode_quanta dig pad rest)
         | _ \<Rightarrow> None))"

definition DecodeString :: "string \<Rightarrow> bool \<Rightarrow> string \<Rightarrow> string option" where
  "DecodeString alphabet pad s =
     decode_quanta (\<lambda>c. position c alphabet) pad (filter (\<lambda>c. c \<noteq> CHR 0x0A \<and> c \<noteq> CHR 0x0D) s)"

text \<open>\<open>decodeBase64Any\<close>: the first of RawURL, URL, RawStd and Std encoding that accepts.\<close>

definition decodeBase64Any :: "string \<Rightarrow> string option" where
  "decodeBase64Any v =
     (case DecodeString url_alphabet False v of
        Some r \<Rightarrow> Some r
      | None \<Rightarrow>
          (case DecodeString url_alphabet True v of
             Some r \<Rightarrow> Some r
           | None \<Rightarrow>
               (case DecodeString std_alphabet False v of
                  Some r \<Rightarrow> Some r
                | None \<Rightarrow> DecodeString std_alphabet True v)))"

section \<open>Encoding\<close>

definition std_digit :: "nat \<Rightarrow> char" where
  "std_digit n = std_alphabet ! n"

fun EncodeStd :: "string \<Rightarrow> string" where
  "EncodeStd [] = []"
| "EncodeStd [x] =
     (let a = of_char x :: nat
      in [std_digit (a div 4), std_digit (a mod 4 * 16), CHR ''='', CHR ''=''])"
| "EncodeStd [x, y] =
     (let a = of_char x :: nat; b = of_char y :: nat
      in [std_digit (a div 4), std_digit (a mod 4 * 16 + b div 16), std_digit (b mod 16 * 4),
          CHR ''=''])"
| "EncodeStd (x # y # z # rest) =
     (let a = of_char x :: nat; b = of_char y :: nat; c = of_char z :: nat
      in std_digit (a div 4) # std_digit (a mod 4 * 16 + b div 16) #
         std_digit (b mod 16 * 4 + c div 64) # std_digit (c mod 64) # EncodeStd rest)"

lemma byte_bound: "(of_char c :: nat) < 256"
  by (rule nat_of_char_less_256)

lemma position_std: "n < 64 \<Longrightarrow> position (std_digit n) std_alphabet = Some n"
proof -
  have "list_all (\<lambda>n. position (std_digit n) std_alphabet = Some n) [0..<64]"
    by code_simp
  then show "n < 64 \<Longrightarrow> position (std_digit n) std_alphabet = Some n"
    by (simp add: list_all_iff)
qed

lemma position_url:
  assumes "n < 64" "position (std_digit n) url_alphabet = Some m"
  shows "m = n"
proof -
  have "list_all (\<lambda>n. position (std_digit n) url_alphabet \<in> {None, Some n}) [0..<64]"
    by code_simp
  then have "position (std_digit n) url_alphabet \<in> {None, Some n}"
    unfolding list_all_iff by (rule bspec) (simp add: assms(1))
  then show ?thesis
    using assms(2) by auto
qed

lemma std_digit_proper:
  assumes "n < 64"
  shows "std_digit n \<noteq> CHR ''='' \<and> std_digit n \<noteq> CHR 0x0A \<and> std_digit n \<noteq> CHR 0x0D"
proof -
  have "list_all (\<lambda>n. std_digit n \<noteq> CHR ''='' \<and> std_digit n \<noteq> CHR 0x0A \<and> std_digit n \<noteq> CHR 0x0D) [0..<64]"
    by code_simp
  then show ?thesis
    using assms by (auto simp: list_all_iff)
qed

lemma position_pad [simp]:
  "position (CHR ''='') std_alphabet = None" "position (CHR ''='') url_alphabet = None"
  by code_simp+

text \<open>The digits of three bytes stay below 64 and give the bytes back.\<close>

lemma digit_bounds:
  "(of_char x :: nat) div 4 < 64" "(of_char x :: nat) mod 4 * 16 + of_char y div 16 < 64"
  "(of_char x :: nat) mod 4 * 16 < 64" "(of_char y :: nat) mod 16 * 4 < 64"
  "(of_char y :: nat) mod 16 * 4 + of_char z div 64 < 64" "(of_char z :: nat) mod 64 < 64"
  using byte_bound [of x] byte_bound [of y] byte_bound [of z] by (simp_all, linarith+)

lemma bytes_back:
  "byte1 (of_char x div 4) (of_char x mod 4 * 16 + of_char y div 16) = x"
  "byte1 (of_char x div 4) (of_char x mod 4 * 16) = x"
  "byte2 (of_char x mod 4 * 16 + of_char y div 16) (of_char y mod 16 * 4 + of_char z div 64) = y"
  "byte2 (of_char x mod 4 * 16 + of_char y div 16) (of_char y mod 16 * 4) = y"
  "byte3 (of_char y mod 16 * 4 + of_char z div 64) (of_char z mod 64) = z"
proof -
  have a: "(of_char x mod 4 * 16 + (of_char y :: nat) div 16) div 16 = of_char x mod 4"
    using byte_bound [of y] by (simp add: div_mult2_eq [symmetric])
  have b: "(of_char x mod 4 * 16 + (of_char y :: nat) div 16) mod 16 = of_char y div 16"
    using byte_bound [of y] by (simp add: mod_less less_mult_imp_div_less)
  have c: "(of_char y mod 16 * 4 + (of_char z :: nat) div 64) div 4 = of_char y mod 16"
    using byte_bound [of z] by (simp add: div_mult2_eq [symmetric])
  have d: "(of_char y mod 16 * 4 + (of_char z :: nat) div 64) mod 4 = of_char z div 64"
    using byte_bound [of z] by (simp add: mod_less less_mult_imp_div_less)
  show "byte1 (of_char x div 4) (of_char x mod 4 * 16 + of_char y div 16) = x"
    "byte2 (of_char x mod 4 * 16 + of_char y div 16) (of_char y mod 16 * 4 + of_char z div 64) = y"
    "byte3 (of_char y mod 16 * 4 + of_char z div 64) (of_char z mod 64) = z"
    by (simp_all only: byte1_def byte2_def byte3_def a b c d div_mult_mod_eq char_of_char)
  show "byte1 (of_char x div 4) (of_char x mod 4 * 16) = x"
    "byte2 (of_char x mod 4 * 16 + of_char y div 16) (of_char y mod 16 * 4) = y"
    by (simp add: byte1_def, simp only: byte2_def b, simp)
qed

lemma EncodeStd_no_breaks: "filter (\<lambda>c. c \<noteq> CHR 0x0A \<and> c \<noteq> CHR 0x0D) (EncodeStd s) = EncodeStd s"
  by (induction s rule: EncodeStd.induct) (simp_all add: Let_def digit_bounds std_digit_proper)

lemma decode_EncodeStd:
  "DecodeString std_alphabet True (EncodeStd s) = Some s"
proof -
  have "decode_quanta (\<lambda>c. position c std_alphabet) True (EncodeStd s) = Some s"
    by (induction s rule: EncodeStd.induct)
      (simp_all add: Let_def position_std digit_bounds std_digit_proper bytes_back)
  then show ?thesis
    by (simp add: DecodeString_def EncodeStd_no_breaks)
qed

text \<open>Another alphabet or the lack of padding never turns an encoding into something else.\<close>

lemma decode_EncodeStd_other:
  assumes "\<And>n m. n < 64 \<Longrightarrow> dig (std_digit n) = Some m \<Longrightarrow> m = n" and "dig (CHR ''='') = None"
    and "decode_quanta dig pad (EncodeStd s) = Some r"
  shows "r = s"
  using assms(3)
proof (induction s arbitrary: r rule: EncodeStd.induct)
  case (2 x)
  then have "\<exists>a b. dig (std_digit (of_char x div 4)) = Some a \<and>
      dig (std_digit (of_char x mod 4 * 16)) = Some b \<and> r = [byte1 a b]"
    using assms(2) by (auto simp: Let_def split: if_splits option.splits)
  then show ?case
    using assms(1) [OF digit_bounds(1)] assms(1) [OF digit_bounds(3)] bytes_back(2) by metis
next
  case (3 x y)
  then have "\<exists>a b c. dig (std_digit (of_char x div 4)) = Some a \<and>
      dig (std_digit (of_char x mod 4 * 16 + of_char y div 16)) = Some b \<and>
      dig (std_digit (of_char y mod 16 * 4)) = Some c \<and> r = [byte1 a b, byte2 b c]"
    using assms(2) std_digit_proper [OF digit_bounds(4), of y]
    by (auto simp: Let_def split: if_splits option.splits)
  then show ?case
    using assms(1) [OF digit_bounds(1)] assms(1) [OF digit_bounds(2)] assms(1) [OF digit_bounds(4)]
      bytes_back(1,4) by metis
next
  case (4 x y z rest)
  have "std_digit (of_char z mod 64) \<noteq> CHR ''=''"
    using std_digit_proper digit_bounds(6) by blast
  with 4 obtain a b c d r' where
    "dig (std_digit (of_char x div 4)) = Some a"
    "dig (std_digit (of_char x mod 4 * 16 + of_char y div 16)) = Some b"
    "dig (std_digit (of_char y mod 16 * 4 + of_char z div 64)) = Some c"
    "dig (std_digit (of_char z mod 64)) = Some d"
    "decode_quanta dig pad (EncodeStd rest) = Some r'"
    "r = byte1 a b # byte2 b c # byte3 c d # r'"
    by (auto simp: Let_def split: option.splits)
  then show ?case
    using 4 assms(1) [OF digit_bounds(1)] assms(1) [OF digit_bounds(2)] assms(1) [OF digit_bounds(5)]
      assms(1) [OF digit_bounds(6)] bytes_back
    by metis
qed simp

lemma decode_any_EncodeStd: "decodeBase64Any (EncodeStd s) = Some s"
proof -
  have std: "DecodeString std_alphabet True (EncodeStd s) = Some s"
    by (rule decode_EncodeStd)
  have other: "r = s" if "DecodeString alphabet pad (EncodeStd s) = Some r"
    and "alphabet = std_alphabet \<or> alphabet = url_alphabet" for alphabet pad r
  proof (rule decode_EncodeStd_other [where dig = "\<lambda>c. position c alphabet"])
    show "decode_quanta (\<lambda>c. position c alphabet) pad (EncodeStd s) = Some r"
      using that(1) by (simp add: DecodeString_def EncodeStd_no_breaks)
    show "position (CHR ''='') alphabet = None"
      using that(2) by auto
    show "\<And>n m. n < 64 \<Longrightarrow> position (std_digit n) alphabet = Some m \<Longrightarrow> m = n"
      using that(2) position_std position_url by fastforce
  qed
  show ?thesis
    using std other [of url_alphabet] other [of std_alphabet]
    by (auto simp: decodeBase64Any_def split: option.splits)
qed

end
