(* ===== verification/Node_Text.thy ===== *)
theory Node_Text
  imports Config Go_Url Go_Base64
begin

text \<open>
  How nodes travel as text (\<open>internal/config/config.go\<close>): the recognition of proxy URIs, the
  nodes file with one URI per line, the formats of a subscription (base64, Clash YAML, plain
  text), and the conversion of a Clash proxy into a URI.

  The YAML decoder is a third-party package: \<open>yaml_clash\<close> gives the proxies of a Clash document
  or its error.  \<open>json_ps\<close> decodes the field \<open>ps\<close> of a VMess JSON payload.
\<close>

section \<open>Proxy URIs and the nodes file\<close>

definition proxy_schemes :: "string list" where
  "proxy_schemes =
     [''vmess://'', ''vless://'', ''trojan://'', ''ss://'', ''ssr://'', ''hysteria://'',
      ''hysteria2://'', ''hy2://'', ''socks://'', ''socks5://'', ''socks4://'', ''socks4a://'']"

definition isProxyURI :: "string \<Rightarrow> bool" where
  "isProxyURI s =
     (if list_ex (HasPrefix (ToLower s)) proxy_schemes then True
      else
        (let lower = ToLower (TrimSpace s) in
         if HasPrefix lower ''http://'' \<or> HasPrefix lower ''https://'' then
           (case url_Parse (TrimSpace s) of
              None \<Rightarrow> False
            | Some u \<Rightarrow>
                if TrimSpace (url_Hostname u) = [] then False
                else if TrimSpace (url_Port u) = [] then False
                else if u_Path u \<noteq> [] \<and> u_Path u \<noteq> ''/'' then False
                else True)
         else False))"

fun parse_lines :: "string list \<Rightarrow> node_config list" where
  "parse_lines [] = []"
| "parse_lines (l # ls) =
     (let line = TrimSpace l in
      if line = [] \<or> HasPrefix line ''#'' then parse_lines ls
      else if isProxyURI line then uri_node line # parse_lines ls
      else parse_lines ls)"

text \<open>\<open>parseNodesFromContent\<close> never fails.\<close>

definition parseNodesFromContent :: "string \<Rightarrow> node_config list" where
  "parseNodesFromContent content = parse_lines (Split content (CHR 0x0A))"

text \<open>The content that \<open>writeNodesToFile\<close> writes.\<close>

definition nodes_text :: "node_config list \<Rightarrow> string" where
  "nodes_text nodes =
     (let lines = map nc_URI nodes; content = Join lines [CHR 0x0A]
      in if lines \<noteq> [] then content @ [CHR 0x0A] else content)"

section \<open>Subscriptions\<close>

definition stripAllWhitespace :: "string \<Rightarrow> string" where
  "stripAllWhitespace v =
     ReplaceAll (ReplaceAll (ReplaceAll (ReplaceAll v [CHR 0x0A] []) [CHR 0x0D] []) [CHR 0x09] [])
       '' '' []"

definition isBase64 :: "string \<Rightarrow> bool" where
  "isBase64 s0 =
     (let s = TrimSpace s0 in
      if s = [] then False
      else
        (let s' = stripAllWhitespace s in
         if Contains s' ''://'' then False else decodeBase64Any s' \<noteq> None))"

definition decodeBase64Subscription :: "string \<Rightarrow> string option" where
  "decodeBase64Subscription content = decodeBase64Any (stripAllWhitespace content)"

definition looksLikeHTML :: "string \<Rightarrow> bool" where
  "looksLikeHTML content =
     (let lower = ToLower (TrimSpace content) in
      if HasPrefix lower ''<!doctype'' \<or> HasPrefix lower ''<html'' then True
      else if Contains lower ''<head'' \<and> Contains lower ''<body'' then True
      else False)"

text \<open>Fullwidth punctuation, by its UTF-8 encoding, becomes ASCII; the four pieces cannot overlap.\<close>

definition NormalizeSubscriptionURL :: "string \<Rightarrow> string" where
  "NormalizeSubscriptionURL raw =
     (let v = TrimSpace raw in
      if v = [] then []
      else
        TrimSpace
          (ReplaceAll
            (ReplaceAll
              (ReplaceAll (ReplaceAll v [CHR 0xEF, CHR 0xBC, CHR 0x9F] ''?'')
                [CHR 0xEF, CHR 0xBC, CHR 0x86] ''&'')
              [CHR 0xEF, CHR 0xBC, CHR 0x83] ''#'')
            [CHR 0xE3, CHR 0x80, CHR 0x80] '' ''))"

subsection \<open>Clash proxies\<close>

record clash_ws =
  cw_Path :: string
  cw_Headers :: "string \<Rightarrow> string option"

record clash_reality =
  cr_PublicKey :: string
  cr_ShortID :: string

text \<open>The fields of \<open>clashProxy\<close> that the conversion reads.\<close>

record clash_proxy =
  cp_Name :: string
  cp_Type :: string
  cp_Server :: string
  cp_Port :: int
  cp_UUID :: string
  cp_Username :: string
  cp_Password :: string
  cp_Cipher :: string
  cp_Network :: string
  cp_TLS :: bool
  cp_SkipCertVerify :: bool
  cp_ServerName :: string
  cp_SNI :: string
  cp_Flow :: string
  cp_WSOpts :: "clash_ws option"
  cp_GrpcServiceName :: "string option"
  cp_RealityOpts :: "clash_reality option"
  cp_ClientFingerprint :: string

definition set_when :: "bool \<Rightarrow> string \<Rightarrow> string \<Rightarrow> url_values \<Rightarrow> url_values" where
  "set_when b k v q = (if b then values_Set k v q else q)"

definition set_network :: "clash_proxy \<Rightarrow> url_values \<Rightarrow> url_values" where
  "set_network p = set_when (cp_Network p \<noteq> [] \<and> cp_Network p \<noteq> ''tcp'') ''type'' (cp_Network p)"

definition set_sni :: "clash_proxy \<Rightarrow> url_values \<Rightarrow> url_values" where
  "set_sni p q =
     (if cp_ServerName p \<noteq> [] then values_Set ''sni'' (cp_ServerName p) q
      else if cp_SNI p \<noteq> [] then values_Set ''sni'' (cp_SNI p) q
      else q)"

definition set_tls :: "clash_proxy \<Rightarrow> url_values \<Rightarrow> url_values" where
  "set_tls p q = (if cp_TLS p then set_sni p (values_Set ''security'' ''tls'' q) else q)"

definition set_ws :: "clash_proxy \<Rightarrow> url_values \<Rightarrow> url_values" where
  "set_ws p q =
     (case cp_WSOpts p of
        None \<Rightarrow> q
      | Some ws \<Rightarrow>
          (let q1 = set_when (cw_Path ws \<noteq> []) ''path'' (cw_Path ws) q
           in case cw_Headers ws ''Host'' of None \<Rightarrow> q1 | Some h \<Rightarrow> values_Set ''host'' h q1))"

definition set_fp :: "clash_proxy \<Rightarrow> url_values \<Rightarrow> url_values" where
  "set_fp p = set_when (cp_ClientFingerprint p \<noteq> []) ''fp'' (cp_ClientFingerprint p)"

definition set_reality :: "clash_proxy \<Rightarrow> url_values \<Rightarrow> url_values" where
  "set_reality p q =
     (case cp_RealityOpts p of
        None \<Rightarrow> q
      | Some r \<Rightarrow>
          set_when (cp_ServerName p \<noteq> []) ''sni'' (cp_ServerName p)
            (set_when (cr_ShortID r \<noteq> []) ''sid'' (cr_ShortID r)
              (set_when (cr_PublicKey r \<noteq> []) ''pbk'' (cr_PublicKey r)
                (values_Set ''security'' ''reality'' q))))"

definition query_string :: "url_values \<Rightarrow> string" where
  "query_string q = (if q \<noteq> [] then ''?'' @ values_Encode q else [])"

text \<open>\<open>user@server:port\<close>, what follows it, and the fragment with the name.\<close>

definition uri_text :: "string \<Rightarrow> string \<Rightarrow> clash_proxy \<Rightarrow> string \<Rightarrow> string" where
  "uri_text scheme user p query =
     scheme @ ''://'' @ user @ cp_Server p @ '':'' @ Itoa (cp_Port p) @ query @ ''#'' @
     QueryEscape (cp_Name p)"

definition buildVMessURI :: "clash_proxy \<Rightarrow> string" where
  "buildVMessURI p =
     uri_text ''vmess'' (cp_UUID p @ ''@'') p
       (query_string (set_fp p (set_ws p (set_tls p (set_network p [])))))"

definition buildVLESSURI :: "clash_proxy \<Rightarrow> string" where
  "buildVLESSURI p =
     (let q1 = set_network p (values_Set ''encryption'' ''none'' []);
          q2 = set_when (cp_Flow p \<noteq> []) ''flow'' (cp_Flow p) q1;
          q3 = set_ws p (set_reality p (set_tls p q2));
          q4 = (case cp_GrpcServiceName p of
                  None \<Rightarrow> q3
                | Some g \<Rightarrow> set_when (g \<noteq> []) ''serviceName'' g q3)
      in uri_text ''vless'' (cp_UUID p @ ''@'') p (''?'' @ values_Encode (set_fp p q4)))"

definition buildTrojanURI :: "clash_proxy \<Rightarrow> string" where
  "buildTrojanURI p =
     uri_text ''trojan'' (cp_Password p @ ''@'') p
       (query_string (set_fp p (set_ws p
         (set_when (cp_SkipCertVerify p) ''allowInsecure'' ''1'' (set_sni p (set_network p []))))))"

definition buildShadowsocksURI :: "clash_proxy \<Rightarrow> string" where
  "buildShadowsocksURI p =
     uri_text ''ss'' (EncodeStd (cp_Cipher p @ '':'' @ cp_Password p) @ ''@'') p []"

definition buildHysteria2URI :: "clash_proxy \<Rightarrow> string" where
  "buildHysteria2URI p =
     uri_text ''hysteria2'' (cp_Password p @ ''@'') p
       (query_string (set_when (cp_SkipCertVerify p) ''insecure'' ''1'' (set_sni p [])))"

definition user_info :: "clash_proxy \<Rightarrow> string" where
  "user_info p =
     (if cp_Username p = [] then []
      else userinfo_String (cp_Username p)
             (if cp_Password p \<noteq> [] then Some (cp_Password p) else None) @ ''@'')"

definition buildHTTPProxyURI :: "clash_proxy \<Rightarrow> string" where
  "buildHTTPProxyURI p =
     uri_text (if cp_TLS p then ''https'' else ''http'') (user_info p) p (query_string (set_sni p []))"

definition buildSOCKSProxyURI :: "clash_proxy \<Rightarrow> string" where
  "buildSOCKSProxyURI p =
     (let t = ToLower (TrimSpace (cp_Type p));
          scheme = (if t \<in> {''socks4'', ''socks4a'', ''socks5''} then t else ''socks5'')
      in uri_text scheme (user_info p) p [])"

definition convertClashProxyToURI :: "clash_proxy \<Rightarrow> string" where
  "convertClashProxyToURI p =
     (let t = ToLower (cp_Type p) in
      if t = ''vmess'' then buildVMessURI p
      else if t = ''vless'' then buildVLESSURI p
      else if t = ''trojan'' then buildTrojanURI p
      else if t \<in> {''ss'', ''shadowsocks''} then buildShadowsocksURI p
      else if t \<in> {''hysteria2'', ''hy2''} then buildHysteria2URI p
      else if t = ''http'' then buildHTTPProxyURI p
      else if t \<in> {''socks'', ''socks5'', ''socks4'', ''socks4a''} then buildSOCKSProxyURI p
      else [])"

definition parseClashYAML ::
  "(string \<Rightarrow> string + clash_proxy list) \<Rightarrow> string \<Rightarrow> string + node_config list" where
  "parseClashYAML yaml_clash content =
     (case yaml_clash content of
        Inl err \<Rightarrow> Inl (''parse clash yaml: '' @ err)
      | Inr ps \<Rightarrow>
          Inr (map (\<lambda>p. (uri_node (convertClashProxyToURI p))\<lparr>nc_Name := cp_Name p\<rparr>)
                 (filter (\<lambda>p. convertClashProxyToURI p \<noteq> []) ps)))"

definition html_error :: string where
  "html_error = ''subscription response looks like HTML''"

text \<open>The error's text goes on with a hint in Chinese, which nothing reads.\<close>

definition ParseSubscriptionContent ::
  "(string \<Rightarrow> string + clash_proxy list) \<Rightarrow> string \<Rightarrow> string + node_config list" where
  "ParseSubscriptionContent yaml_clash content0 =
     (let content = TrimSpace content0 in
      if content = [] then Inr []
      else
        (case (if isBase64 content then decodeBase64Subscription content else Some content) of
           None \<Rightarrow> Inr (parseNodesFromContent content)
         | Some text \<Rightarrow>
             if Contains text ''proxies:'' then parseClashYAML yaml_clash text
             else
               (let nodes = parseNodesFromContent text in
                if nodes = [] \<and> looksLikeHTML text then Inl html_error else Inr nodes)))"

subsection \<open>Names\<close>

definition extractNameFromVMessURI :: "(string \<Rightarrow> string option) \<Rightarrow> string \<Rightarrow> string" where
  "extractNameFromVMessURI json_ps uri =
     (let encoded = TrimSpace (TrimPrefix uri ''vmess://'') in
      if encoded = [] then []
      else
        (case decodeBase64Any encoded of
           None \<Rightarrow> []
         | Some text \<Rightarrow> (case json_ps text of None \<Rightarrow> [] | Some ps \<Rightarrow> TrimSpace ps)))"

text \<open>The name in a URI's fragment, decoded once more, and in its \<open>remarks\<close> or \<open>ps\<close>.\<close>

definition fragment_name :: "url \<Rightarrow> string" where
  "fragment_name u =
     (if u_Fragment u = [] then []
      else (case QueryUnescape (u_Fragment u) of Some d \<Rightarrow> d | None \<Rightarrow> u_Fragment u))"

definition query_name :: "url \<Rightarrow> string" where
  "query_name u =
     (let q = url_Query u; remarks = TrimSpace (values_Get q ''remarks'') in
      if remarks \<noteq> [] then remarks else TrimSpace (values_Get q ''ps''))"

section \<open>Round trips\<close>

lemma proxy_schemes_start:
  "HasPrefix (ToLower s) p \<Longrightarrow> p \<in> set proxy_schemes \<Longrightarrow> s \<noteq> [] \<and> \<not> HasPrefix s ''#''"
proof -
  have "lower_char (CHR ''#'') = CHR ''#''" by code_simp
  moreover have "list_all (\<lambda>p. p \<noteq> [] \<and> hd p \<noteq> CHR ''#'') proxy_schemes" by code_simp
  moreover assume "HasPrefix (ToLower s) p" "p \<in> set proxy_schemes"
  ultimately show ?thesis
    by (cases s; cases p) (auto simp: list_all_iff ToLower_def)
qed

lemma isProxyURI_start:
  assumes "isProxyURI s" "trimmed s"
  shows "s \<noteq> [] \<and> \<not> HasPrefix s ''#''"
proof (cases "list_ex (HasPrefix (ToLower s)) proxy_schemes")
  case True
  then show ?thesis
    using proxy_schemes_start by (auto simp: list_ex_iff)
next
  case False
  with assms have "HasPrefix (ToLower s) ''http://'' \<or> HasPrefix (ToLower s) ''https://''"
    by (auto simp: isProxyURI_def Let_def TrimSpace_trimmed split: if_splits)
  moreover have "lower_char (CHR ''#'') = CHR ''#''" by code_simp
  ultimately show ?thesis
    by (cases s) (auto simp: ToLower_def)
qed

text \<open>The URIs that survive a line of text.\<close>

definition line_uri :: "string \<Rightarrow> bool" where
  "line_uri u \<longleftrightarrow> isProxyURI u \<and> trimmed u \<and> CHR 0x0A \<notin> set u"

lemma parse_lines_uris:
  "\<forall>u \<in> set us. line_uri u \<Longrightarrow> parse_lines us = map uri_node us"
  by (induction us) (auto simp: Let_def line_uri_def TrimSpace_trimmed dest: isProxyURI_start)

lemma parse_lines_append: "parse_lines (xs @ ys) = parse_lines xs @ parse_lines ys"
  by (induction xs) (simp_all add: Let_def)

lemma parse_nodes_text:
  assumes "\<forall>n \<in> set nodes. line_uri (nc_URI n)"
  shows "parseNodesFromContent (nodes_text nodes) = map (\<lambda>n. uri_node (nc_URI n)) nodes"
proof (cases "nodes = []")
  case True
  then show ?thesis by (simp add: parseNodesFromContent_def nodes_text_def)
next
  case False
  with assms have "Split (nodes_text nodes) (CHR 0x0A) = map nc_URI nodes @ [[]]"
    by (simp add: nodes_text_def Let_def line_uri_def Split_Join_terminated)
  moreover have "parse_lines (map nc_URI nodes @ [[]]) = map uri_node (map nc_URI nodes)"
    using assms by (simp add: parse_lines_append parse_lines_uris)
  ultimately show ?thesis
    by (simp add: parseNodesFromContent_def comp_def)
qed

lemma set_trim_front: "set (trim_front ws s) \<subseteq> set s"
  using suffix_trim_front by (rule set_mono_suffix)

lemma set_TrimSpace: "set (TrimSpace s) \<subseteq> set s"
  unfolding TrimSpace_def using set_trim_front
  by (metis set_rev subset_trans)

lemma Split_parts: "l \<in> set (Split s c) \<Longrightarrow> c \<notin> set l"
  by (induction s arbitrary: l) (auto split: if_splits list.splits)

lemma parse_lines_line_uri:
  "\<forall>l \<in> set ls. CHR 0x0A \<notin> set l \<Longrightarrow> n \<in> set (parse_lines ls) \<Longrightarrow>
   line_uri (nc_URI n) \<and> n = uri_node (nc_URI n)"
proof (induction ls)
  case (Cons l ls)
  have "CHR 0x0A \<notin> set (TrimSpace l)"
    using Cons.prems(1) set_TrimSpace [of l] by auto
  with Cons show ?case
    by (auto simp: Let_def line_uri_def uri_node_def split: if_splits)
qed simp



text \<open>A base64 text holds nothing that trimming, stripping or the search for a scheme would see.\<close>

lemma no_front_hd: "\<forall>w \<in> set ws. w \<noteq> [] \<and> hd w \<notin> set s \<Longrightarrow> no_front ws s"
  by (auto simp: no_front_def prefix_def) 

definition base64_chars :: string where
  "base64_chars = CHR ''='' # std_alphabet"

lemma set_EncodeStd: "set (EncodeStd s) \<subseteq> set base64_chars"
proof -
  have "n < 64 \<Longrightarrow> std_digit n \<in> set std_alphabet" for n
    unfolding std_digit_def by (rule nth_mem) (simp add: std_alphabet_def)
  then show ?thesis
    by (induction s rule: EncodeStd.induct) (auto simp: Let_def base64_chars_def digit_bounds)
qed

lemma trimmed_base64: "set s \<subseteq> set base64_chars \<Longrightarrow> trimmed s"
proof -
  have "list_all (\<lambda>w. w \<noteq> [] \<and> \<not> List.member base64_chars (hd w)) white_space"
    "list_all (\<lambda>w. w \<noteq> [] \<and> \<not> List.member base64_chars (hd w)) (map rev white_space)"
    by code_simp+
  then show "set s \<subseteq> set base64_chars \<Longrightarrow> trimmed s"
    unfolding trimmed_def list_all_iff
    by (intro conjI no_front_hd) (auto simp: subset_iff)
qed

lemma ReplaceAll_absent: "c \<notin> set s \<Longrightarrow> ReplaceAll s [c] new = s"
  by (induction s; subst ReplaceAll.simps) auto

lemma Contains_absent: "c \<in> set sub \<Longrightarrow> c \<notin> set s \<Longrightarrow> \<not> Contains s sub"
proof (induction s)
  case (Cons x xs)
  then have "\<not> prefix sub (x # xs)"
    using set_mono_prefix [of sub "x # xs"] by blast
  with Cons show ?case
    by (auto simp: Contains_def HasPrefix_iff)
qed (auto simp: Contains_def)

lemma strip_base64:
  assumes "set s \<subseteq> set base64_chars"
  shows "stripAllWhitespace s = s" "\<not> Contains s ''://''"
proof -
  have "CHR 0x0A \<notin> set base64_chars" "CHR 0x0D \<notin> set base64_chars" "CHR 0x09 \<notin> set base64_chars"
    "CHR '' '' \<notin> set base64_chars" "CHR '':'' \<notin> set base64_chars"
    by (simp_all add: base64_chars_def std_alphabet_def)
  with assms have out: "CHR 0x0A \<notin> set s" "CHR 0x0D \<notin> set s" "CHR 0x09 \<notin> set s"
    "CHR '' '' \<notin> set s" "CHR '':'' \<notin> set s"
    by blast+
  then show "stripAllWhitespace s = s"
    by (simp add: stripAllWhitespace_def ReplaceAll_absent)
  show "\<not> Contains s ''://''"
    using out(5) by (intro Contains_absent) simp_all
qed

text \<open>
  Base64 subscriptions.  A subscription that serves a nodes list base64 encoded, as providers
  do, yields exactly its nodes, in order, as the plain list would.
\<close>

theorem base64_subscription:
  assumes "list_all (\<lambda>n. line_uri (nc_URI n)) nodes" and "nodes \<noteq> []"
    and "\<not> Contains (nodes_text nodes) ''proxies:''"
  shows "ParseSubscriptionContent yaml_clash (EncodeStd (nodes_text nodes)) =
    Inr (map (\<lambda>n. uri_node (nc_URI n)) nodes)"
proof -
  let ?t = "nodes_text nodes" and ?e = "EncodeStd (nodes_text nodes)"
  have "?t \<noteq> []"
    using assms(2) by (simp add: nodes_text_def Let_def)
  then have "?e \<noteq> []"
    by (cases ?t rule: EncodeStd.cases) (simp_all add: Let_def)
  moreover have trim: "TrimSpace ?e = ?e"
    by (rule TrimSpace_trimmed [OF trimmed_base64 [OF set_EncodeStd]])
  moreover have "isBase64 ?e"
    using \<open>?e \<noteq> []\<close>
    by (simp add: isBase64_def trim strip_base64 [OF set_EncodeStd] Let_def decode_any_EncodeStd)
  moreover have "decodeBase64Subscription ?e = Some ?t"
    by (simp add: decodeBase64Subscription_def strip_base64 [OF set_EncodeStd] decode_any_EncodeStd)
  moreover have "parseNodesFromContent ?t = map (\<lambda>n. uri_node (nc_URI n)) nodes"
    using assms(1) by (simp add: parse_nodes_text list_all_iff)
  ultimately show ?thesis
    using assms(2,3) by (simp add: ParseSubscriptionContent_def Let_def)
qed

theorem base64_subscription_witness:
  "ParseSubscriptionContent (\<lambda>_. Inl ''eof'') (EncodeStd (''ss://b'' @ [CHR 0x0A])) =
     Inr [uri_node ''ss://b'']"
proof -
  have "isProxyURI ''ss://b''" by code_simp
  then have "line_uri ''ss://b''"
    by (simp add: line_uri_def trimmed_def no_front_def white_space_def)
  moreover have "nodes_text [uri_node ''ss://b''] = ''ss://b'' @ [CHR 0x0A]"
    "\<not> Contains (''ss://b'' @ [CHR 0x0A]) ''proxies:''" by code_simp+
  ultimately show ?thesis
    using base64_subscription [of "[uri_node ''ss://b'']" "\<lambda>_. Inl ''eof''"]
    by (simp add: uri_node_def)
qed

section \<open>The names of converted Clash proxies\<close>

lemma hex_upper: "n < 16 \<Longrightarrow> hex_value (upper_hex n) = Some n"
proof -
  have "list_all (\<lambda>n. hex_value (upper_hex n) = Some n) [0..<16]"
    by code_simp
  then show "n < 16 \<Longrightarrow> hex_value (upper_hex n) = Some n"
    by (simp add: list_all_iff)
qed

lemma nibbles [simp]: "(of_char c :: nat) div 16 < 16"
  by (rule less_mult_imp_div_less) simp

lemma hex_byte: "char_of (16 * (of_char c div 16) + of_char c mod 16 :: nat) = (c :: char)"
  by (simp only: mult_div_mod_eq char_of_char)

text \<open>A fragment decoder leaves the plus sign that stands for a space.\<close>

lemma unescape_QueryEscape:
  assumes "m = encodeQueryComponent \<or> m = encodeFragment"
  shows "unescape m (QueryEscape s) =
    Some (if m = encodeQueryComponent then s
          else map (\<lambda>c. if c = CHR '' '' then CHR ''+'' else c) s)"
proof (induction s)
  case Nil
  then show ?case by (simp add: QueryEscape_def escape_def)
next
  case (Cons c s)
  have plain: "escape_allowed m v" "plain_allowed m v" for v
    using assms by auto
  have hex: "hex_value (upper_hex (of_char c div 16)) = Some (of_char c div 16)"
    "hex_value (upper_hex (of_char c mod 16)) = Some (of_char c mod 16)"
    by (auto intro!: hex_upper)
  have step: "QueryEscape (c # s) =
      (if \<not> unreserved c
       then (if c = CHR '' '' then ''+''
             else [CHR ''%'', upper_hex (of_char c div 16), upper_hex (of_char c mod 16)])
       else [c]) @ QueryEscape s"
    by (simp add: QueryEscape_def escape_def)
  have "\<not> unreserved (CHR ''%'')" "\<not> unreserved (CHR ''+'')" "\<not> unreserved (CHR '' '')"
    by code_simp+
  then show ?case
    using Cons assms by (auto simp: step plain hex hex_byte Let_def)
qed

lemma upper_hex_no_hash: "n < 16 \<Longrightarrow> upper_hex n \<noteq> CHR ''#''"
proof -
  have "list_all (\<lambda>n. upper_hex n \<noteq> CHR ''#'') [0..<16]"
    by code_simp
  then show "n < 16 \<Longrightarrow> upper_hex n \<noteq> CHR ''#''"
    by (simp add: list_all_iff)
qed

lemma escape_no_hash:
  assumes "shouldEscape m (CHR ''#'')"
  shows "CHR ''#'' \<notin> set (escape m s)"
proof -
  have "CHR ''#'' \<notin> set (if shouldEscape m c
       then (if c = CHR '' '' \<and> m = encodeQueryComponent then ''+''
             else [CHR ''%'', upper_hex ((of_char c :: nat) div 16), upper_hex (of_char c mod 16)])
       else [c])" for c
    using assms upper_hex_no_hash [of "of_char c div 16"] upper_hex_no_hash [of "of_char c mod 16"]
    by (cases "c = CHR ''#''") auto
  then show ?thesis
    by (auto simp only: escape_def set_concat set_map)
qed

lemma hash_escaped: "shouldEscape encodeQueryComponent (CHR ''#'')" "shouldEscape encodeUserPassword (CHR ''#'')"
  by code_simp+

lemma Join_no_hash: "\<forall>x \<in> set xs. c \<notin> set x \<Longrightarrow> c \<notin> set sep \<Longrightarrow> c \<notin> set (Join xs sep)"
  by (induction xs sep rule: Join.induct) auto

lemma values_Encode_no_hash: "CHR ''#'' \<notin> set (values_Encode q)"
  unfolding values_Encode_def
  by (rule Join_no_hash)
    (auto simp: QueryEscape_def escape_no_hash [OF hash_escaped(1)] split: prod.splits)

lemma digit_char_no_hash: "d < 10 \<Longrightarrow> digit_char d \<noteq> CHR ''#''"
proof -
  have "list_all (\<lambda>d. digit_char d \<noteq> CHR ''#'') [0..<10]" by code_simp
  then show "d < 10 \<Longrightarrow> digit_char d \<noteq> CHR ''#''" by (simp add: list_all_iff)
qed

lemma Itoa_no_hash: "CHR ''#'' \<notin> set (Itoa i)"
proof -
  have "CHR ''#'' \<notin> set (Itoa_nat n)" for n
  proof (induction n rule: Itoa_nat.induct)
    case (1 n)
    then show ?case
      by (subst Itoa_nat.simps) (auto simp: digit_char_no_hash dest: sym)
  qed
  then show ?thesis by (simp add: Itoa_def)
qed

lemma Cut_append: "c \<notin> set a \<Longrightarrow> Cut (a @ c # b) c = (a, Some b)"
  by (induction a) auto

lemma EncodeStd_no_hash: "CHR ''#'' \<notin> set (EncodeStd s)"
proof -
  have "CHR ''#'' \<notin> set base64_chars" by (simp add: base64_chars_def std_alphabet_def)
  then show ?thesis using set_EncodeStd [of s] by blast
qed

lemma user_info_no_hash: "CHR ''#'' \<notin> set (user_info p)"
  by (simp add: user_info_def userinfo_String_def escape_no_hash [OF hash_escaped(2)]
      split: option.splits)

text \<open>The part of a converted URI before its fragment, and its scheme.\<close>

lemma convert_shape:
  assumes "convertClashProxyToURI p \<noteq> []"
    and "CHR ''#'' \<notin> set (cp_UUID p) \<union> set (cp_Password p) \<union> set (cp_Server p)"
  obtains (that_shape) scheme rest where
    "convertClashProxyToURI p = (scheme @ ''://'' @ rest) @ CHR ''#'' # QueryEscape (cp_Name p)"
    "CHR ''#'' \<notin> set (scheme @ ''://'' @ rest)"
    "scheme @ ''://'' \<in> set proxy_schemes \<or> scheme \<in> {''http'', ''https''} \<and> ToLower (cp_Type p) = ''http''"
proof -
  have out: "CHR ''#'' \<notin> set (query_string q)" for q
    by (simp add: query_string_def values_Encode_no_hash)
  have shape: thesis
    if "convertClashProxyToURI p = uri_text scheme user p query" "CHR ''#'' \<notin> set scheme"
      "CHR ''#'' \<notin> set user" "CHR ''#'' \<notin> set query"
      "scheme @ ''://'' \<in> set proxy_schemes \<or> scheme \<in> {''http'', ''https''} \<and> ToLower (cp_Type p) = ''http''"
    for scheme user query
    using that assms(2) by (intro that_shape [of scheme "user @ cp_Server p @ '':'' @ Itoa (cp_Port p) @ query"])
      (auto simp: uri_text_def Itoa_no_hash)
  note conv = convertClashProxyToURI_def Let_def
  consider (vmess) "ToLower (cp_Type p) = ''vmess''" | (vless) "ToLower (cp_Type p) = ''vless''"
    | (trojan) "ToLower (cp_Type p) = ''trojan''"
    | (ss) "ToLower (cp_Type p) \<in> {''ss'', ''shadowsocks''}"
    | (hy2) "ToLower (cp_Type p) \<in> {''hysteria2'', ''hy2''}"
    | (http) "ToLower (cp_Type p) = ''http''"
    | (socks) "ToLower (cp_Type p) \<in> {''socks'', ''socks5'', ''socks4'', ''socks4a''}"
    using assms(1) by (auto simp: conv split: if_splits)
  then show thesis
  proof cases
    case vmess
    then have "convertClashProxyToURI p = buildVMessURI p" by (simp add: conv)
    then show ?thesis
      unfolding buildVMessURI_def by (rule shape) (use assms(2) out in \<open>auto simp: proxy_schemes_def\<close>)
  next
    case vless
    then have "convertClashProxyToURI p = buildVLESSURI p" by (simp add: conv)
    then show ?thesis
      unfolding buildVLESSURI_def Let_def
      by (rule shape) (use assms(2) in \<open>auto simp: proxy_schemes_def values_Encode_no_hash\<close>)
  next
    case trojan
    then have "convertClashProxyToURI p = buildTrojanURI p" by (simp add: conv)
    then show ?thesis
      unfolding buildTrojanURI_def by (rule shape) (use assms(2) out in \<open>auto simp: proxy_schemes_def\<close>)
  next
    case ss
    then have "convertClashProxyToURI p = buildShadowsocksURI p" by (auto simp: conv)
    then show ?thesis
      unfolding buildShadowsocksURI_def
      by (rule shape) (auto simp: proxy_schemes_def EncodeStd_no_hash)
  next
    case hy2
    then have "convertClashProxyToURI p = buildHysteria2URI p" by (auto simp: conv)
    then show ?thesis
      unfolding buildHysteria2URI_def
      by (rule shape) (use assms(2) out in \<open>auto simp: proxy_schemes_def\<close>)
  next
    case http
    then have "convertClashProxyToURI p = buildHTTPProxyURI p" by (simp add: conv)
    then show ?thesis
      unfolding buildHTTPProxyURI_def
      by (rule shape) (use http out in \<open>auto simp: user_info_no_hash\<close>)
  next
    case socks
    then have "convertClashProxyToURI p = buildSOCKSProxyURI p" by (auto simp: conv)
    then show ?thesis
      unfolding buildSOCKSProxyURI_def Let_def
      by (rule shape) (auto simp: proxy_schemes_def user_info_no_hash)
  qed
qed

lemma QueryUnescape_plus:
  "CHR ''%'' \<notin> set s \<Longrightarrow> CHR ''+'' \<notin> set s \<Longrightarrow>
   QueryUnescape (map (\<lambda>c. if c = CHR '' '' then CHR ''+'' else c) s) = Some s"
  by (induction s) auto

text \<open>
  Converted Clash proxies.  The URI made of a Clash proxy whose id, password and server hold
  no \<open>#\<close> is recognised as a proxy URI for every type but \<open>http\<close>, and when it parses, a name
  without \<open>%\<close> and \<open>+\<close> is read back from it exactly, as it is when the nodes file is loaded
  again.
\<close>

theorem clash_name_roundtrip:
  assumes "convertClashProxyToURI p \<noteq> []"
    and "CHR ''#'' \<notin> set (cp_UUID p) \<union> set (cp_Password p) \<union> set (cp_Server p)"
    and "CHR ''%'' \<notin> set (cp_Name p) \<and> CHR ''+'' \<notin> set (cp_Name p)"
  shows "(ToLower (cp_Type p) = ''http'' \<or> isProxyURI (convertClashProxyToURI p)) \<and>
    (case url_Parse (convertClashProxyToURI p) of None \<Rightarrow> True | Some u \<Rightarrow> fragment_name u = cp_Name p)"
proof -
  obtain scheme rest where
    uri: "convertClashProxyToURI p = (scheme @ ''://'' @ rest) @ CHR ''#'' # QueryEscape (cp_Name p)"
    and hash: "CHR ''#'' \<notin> set (scheme @ ''://'' @ rest)"
    and scheme: "scheme @ ''://'' \<in> set proxy_schemes \<or>
      scheme \<in> {''http'', ''https''} \<and> ToLower (cp_Type p) = ''http''"
    by (rule convert_shape [OF assms(1,2)])
  have lower: "list_all (\<lambda>s. ToLower s = s) proxy_schemes" by code_simp
  have "isProxyURI (convertClashProxyToURI p)" if "scheme @ ''://'' \<in> set proxy_schemes"
  proof -
    have "ToLower (convertClashProxyToURI p) = (scheme @ ''://'') @ ToLower (rest @ CHR ''#'' # QueryEscape (cp_Name p))"
    proof -
      have "ToLower (scheme @ ''://'') = scheme @ ''://''"
        using lower that unfolding list_all_iff by blast
      then show ?thesis
        unfolding uri ToLower_def by (simp only: append_assoc map_append) simp
    qed
    then have "HasPrefix (ToLower (convertClashProxyToURI p)) (scheme @ ''://'')"
      by (simp only: HasPrefix_append)
    with that show ?thesis
      by (auto simp: isProxyURI_def list_ex_iff)
  qed
  moreover have "fragment_name u = cp_Name p"
    if u: "url_Parse (convertClashProxyToURI p) = Some u" for u
  proof -
    let ?f = "map (\<lambda>c. if c = CHR '' '' then CHR ''+'' else c) (cp_Name p)"
    obtain x where x: "parse_url (scheme @ ''://'' @ rest) = Some x"
      using u unfolding url_Parse_def uri Cut_append [OF hash] by (auto split: option.splits)
    have "u_Fragment x = []"
      using x unfolding parse_url_def
      by (auto simp: Let_def dest!: setPath_keeps split: if_splits option.splits prod.splits)
    moreover have decoded: "unescape encodeFragment (QueryEscape (cp_Name p)) = Some ?f"
      by (simp add: unescape_QueryEscape)
    ultimately have "u_Fragment u = ?f"
      using u x unfolding url_Parse_def uri Cut_append [OF hash]
      by (cases "QueryEscape (cp_Name p) = []") (auto simp: opt_string_def)
    moreover have "QueryUnescape ?f = Some (cp_Name p)"
      using assms(3) by (simp add: QueryUnescape_plus)
    ultimately show ?thesis
      by (auto simp: fragment_name_def)
  qed
  ultimately show ?thesis
    using scheme by (auto split: option.splits)
qed

definition demo_clash :: "string \<Rightarrow> string \<Rightarrow> clash_proxy" where
  "demo_clash name password =
     \<lparr>cp_Name = name, cp_Type = ''trojan'', cp_Server = ''h.example'', cp_Port = 443, cp_UUID = [],
      cp_Username = [], cp_Password = password, cp_Cipher = [], cp_Network = ''ws'', cp_TLS = True,
      cp_SkipCertVerify = True, cp_ServerName = [], cp_SNI = ''s'', cp_Flow = [],
      cp_WSOpts = Some \<lparr>cw_Path = ''/p'', cw_Headers = [''Host'' \<mapsto> ''w'']\<rparr>,
      cp_GrpcServiceName = None, cp_RealityOpts = None, cp_ClientFingerprint = []\<rparr>"

lemma demo_clash_name: "cp_Name (demo_clash n p) = n"
  by (simp add: demo_clash_def)

lemma demo_clash_uri:
  "convertClashProxyToURI (demo_clash ''HK 1'' ''pw'') =
     ''trojan://pw@h.example:443?allowInsecure=1&host=w&path=%2Fp&sni=s&type=ws#HK+1''"
  by code_simp

theorem clash_name_roundtrip_witness:
  "isProxyURI ''trojan://pw@h.example:443?allowInsecure=1&host=w&path=%2Fp&sni=s&type=ws#HK+1'' \<and>
   (case url_Parse ''trojan://pw@h.example:443?allowInsecure=1&host=w&path=%2Fp&sni=s&type=ws#HK+1'' of
      None \<Rightarrow> True | Some u \<Rightarrow> fragment_name u = ''HK 1'')"
proof -
  have "ToLower (cp_Type (demo_clash ''HK 1'' ''pw'')) \<noteq> ''http''"
    by code_simp
  then show ?thesis
    using clash_name_roundtrip [of "demo_clash ''HK 1'' ''pw''"]
    unfolding demo_clash_uri demo_clash_name by (simp add: demo_clash_def)
qed

text \<open>
  Two limits of the conversion.  A password is copied into the URI as it is, so one with a \<open>#\<close>
  cuts the server off; and a name is decoded once by \<open>url.Parse\<close> and once more by
  \<open>QueryUnescape\<close>, so a plus sign in it comes back as a space.
\<close>

lemma clash_password_cut:
  "map_option u_Host (url_Parse (convertClashProxyToURI (demo_clash ''n'' ''a#b''))) = Some ''a''"
  by code_simp

lemma fragment_decoded_twice:
  "map_option fragment_name (url_Parse ''ss://YQ@h:1#a%2Bb'') = Some ''a b''"
  by code_simp

end
