(* ===== verification/Config_Load.thy ===== *)
theory Config_Load
  imports Node_Text
begin

text \<open>
  Loading and normalising the configuration (\<open>internal/config/config.go\<close>): reading the file,
  gathering nodes from the configuration, the nodes file and the subscriptions, names, ports and
  credentials, and the same with preserved ports for a reload; saving nodes and settings.

  The file system is a record of contents, of the errors that reading or writing a path gives,
  and of what a failed write leaves: \<open>os.WriteFile\<close> opens and truncates first, so a path that
  could not be opened (\<open>None\<close>) keeps its content, and after an error in writing the file holds
  the first bytes of the new content only (\<open>Some k\<close>).  The rest of the outside is the record \<open>cfg_env\<close>: whether a port can be bound, the YAML
  package, the JSON field of VMess links, and HTTP.  Quoting of paths in errors is plain.  A
  search for a port that never returns is the result \<open>None\<close>.
\<close>

section \<open>The outside\<close>

record disk =
  dk_files :: "string \<Rightarrow> string option"
  dk_read_err :: "string \<Rightarrow> string option"
  dk_write_err :: "string \<Rightarrow> string option"
  dk_write_left :: "string \<Rightarrow> nat option"

datatype read_error = NotExist | ReadErr string

definition ReadFile :: "string \<Rightarrow> disk \<Rightarrow> read_error + string" where
  "ReadFile path d =
     (case dk_read_err d path of
        Some e \<Rightarrow> Inl (ReadErr e)
      | None \<Rightarrow> (case dk_files d path of None \<Rightarrow> Inl NotExist | Some c \<Rightarrow> Inr c))"

definition WriteFile :: "string \<Rightarrow> string \<Rightarrow> disk \<Rightarrow> string option \<times> disk" where
  "WriteFile path content d =
     (case dk_write_err d path of
        Some e \<Rightarrow>
          (Some e,
           case dk_write_left d path of
             None \<Rightarrow> d
           | Some k \<Rightarrow> d\<lparr>dk_files := (dk_files d)(path \<mapsto> take k content)\<rparr>)
      | None \<Rightarrow> (None, d\<lparr>dk_files := (dk_files d)(path \<mapsto> content)\<rparr>))"

definition read_error_text :: "read_error \<Rightarrow> string" where
  "read_error_text e = (case e of NotExist \<Rightarrow> ''file does not exist'' | ReadErr s \<Rightarrow> s)"

text \<open>What one HTTP request for a URL with a user agent gives.\<close>

datatype http_result =
  RequestError string | DoError string | BodyError string | Response nat string

record cfg_env =
  ce_free :: "string \<Rightarrow> port \<Rightarrow> bool"
  ce_json_ps :: "string \<Rightarrow> string option"
  ce_yaml_clash :: "string \<Rightarrow> string + clash_proxy list"
  ce_http :: "string \<Rightarrow> string \<Rightarrow> http_result"
  ce_yaml_config :: "string \<Rightarrow> string + config"
  ce_yaml_marshal :: "config \<Rightarrow> string + string"

subsection \<open>Paths\<close>

fun clean_segments :: "bool \<Rightarrow> string list \<Rightarrow> string list \<Rightarrow> string list" where
  "clean_segments rooted [] acc = rev acc"
| "clean_segments rooted (s # ss) acc =
     (if s = [] \<or> s = ''.'' then clean_segments rooted ss acc
      else if s = ''..'' then
        (case acc of
           a # as \<Rightarrow> if a = ''..'' then clean_segments rooted ss (s # acc) else clean_segments rooted ss as
         | [] \<Rightarrow> clean_segments rooted ss (if rooted then [] else [s]))
      else clean_segments rooted ss (s # acc))"

definition IsAbs :: "string \<Rightarrow> bool" where
  "IsAbs path = HasPrefix path ''/''"

definition Clean :: "string \<Rightarrow> string" where
  "Clean path =
     (let r = (if IsAbs path then ''/'' else []) @
              Join (clean_segments (IsAbs path) (Split path (CHR ''/'')) []) ''/''
      in if r = [] then ''.'' else r)"

definition Dir :: "string \<Rightarrow> string" where
  "Dir path =
     Clean (case LastIndex path (CHR ''/'') of None \<Rightarrow> [] | Some i \<Rightarrow> take (Suc i) path)"

definition path_Join :: "string \<Rightarrow> string \<Rightarrow> string" where
  "path_Join a b =
     (if a \<noteq> [] then Clean (a @ ''/'' @ b) else if b \<noteq> [] then Clean b else [])"

section \<open>Gathering the nodes\<close>

definition writeNodesToFile :: "string \<Rightarrow> node_config list \<Rightarrow> disk \<Rightarrow> string option \<times> disk" where
  "writeNodesToFile path nodes d = WriteFile path (nodes_text nodes) d"

definition loadNodesFromFile :: "string \<Rightarrow> disk \<Rightarrow> read_error + node_config list" where
  "loadNodesFromFile path d =
     (case ReadFile path d of Inl e \<Rightarrow> Inl e | Inr c \<Rightarrow> Inr (parseNodesFromContent c))"

definition userAgents :: "string list" where
  "userAgents = [[], ''clash'', ''curl/8'']"

fun try_agents ::
  "cfg_env \<Rightarrow> string \<Rightarrow> string list \<Rightarrow> string option \<Rightarrow> string + node_config list" where
  "try_agents env subURL [] lastErr =
     (case lastErr of Some e \<Rightarrow> Inl e | None \<Rightarrow> Inr [])"
| "try_agents env subURL (ua # uas) lastErr =
     (case ce_http env subURL ua of
        RequestError e \<Rightarrow> Inl (''create request: '' @ e)
      | DoError e \<Rightarrow> try_agents env subURL uas (Some (''fetch subscription: '' @ e))
      | BodyError e \<Rightarrow> try_agents env subURL uas (Some (''read response: '' @ e))
      | Response status body \<Rightarrow>
          if status \<noteq> 200 then
            try_agents env subURL uas (Some (''subscription returned status '' @ Itoa (int status)))
          else
            (case ParseSubscriptionContent (ce_yaml_clash env) body of
               Inl e \<Rightarrow> try_agents env subURL uas (Some e)
             | Inr nodes \<Rightarrow>
                 if nodes = [] then
                   try_agents env subURL uas (Some ''no proxy nodes found in subscription response'')
                 else Inr nodes))"

definition loadNodesFromSubscription :: "cfg_env \<Rightarrow> string \<Rightarrow> string + node_config list" where
  "loadNodesFromSubscription env subURL0 =
     (let subURL = NormalizeSubscriptionURL subURL0 in
      if subURL = [] then Inl ''empty subscription url'' else try_agents env subURL userAgents None)"

text \<open>The loop over the subscriptions: what fails is skipped.\<close>

fun gather_subscriptions :: "cfg_env \<Rightarrow> string list \<Rightarrow> node_config list" where
  "gather_subscriptions env [] = []"
| "gather_subscriptions env (raw # raws) =
     (let subURL = NormalizeSubscriptionURL raw in
      if subURL = [] then gather_subscriptions env raws
      else
        (case loadNodesFromSubscription env subURL of
           Inl _ \<Rightarrow> gather_subscriptions env raws
         | Inr nodes \<Rightarrow> nodes @ gather_subscriptions env raws))"

definition mark_source :: "node_source \<Rightarrow> node_config list \<Rightarrow> node_config list" where
  "mark_source src nodes = map (\<lambda>n. n\<lparr>nc_Source := src\<rparr>) nodes"

definition nodes_file_path :: "config \<Rightarrow> string" where
  "nodes_file_path c =
     (if cf_NodesFile c = [] then path_Join (Dir (cf_filePath c)) ''nodes.txt'' else cf_NodesFile c)"

text \<open>The middle part of \<open>normalize\<close>: sources and the writing of \<open>nodes.txt\<close>.\<close>

definition load_sources :: "cfg_env \<Rightarrow> config \<Rightarrow> disk \<Rightarrow> (string + config) \<times> disk" where
  "load_sources env c0 d =
     (let c = c0\<lparr>cf_Nodes := mark_source NodeSourceInline (cf_Nodes c0)\<rparr> in
      if cf_Subscriptions c = [] then
        (if cf_NodesFile c = [] then (Inr c, d)
         else
           (case loadNodesFromFile (cf_NodesFile c) d of
              Inl NotExist \<Rightarrow> (Inr c, d)
            | Inl (ReadErr e) \<Rightarrow>
                (Inl (''load nodes from file '' @ cf_NodesFile c @ '': '' @ e), d)
            | Inr nodes \<Rightarrow>
                (Inr (c\<lparr>cf_Nodes := cf_Nodes c @ mark_source NodeSourceFile nodes\<rparr>), d)))
      else
        (let subNodes =
               mark_source NodeSourceSubscription (gather_subscriptions env (cf_Subscriptions c));
             c1 = (if subNodes = [] then c else c\<lparr>cf_NodesFile := nodes_file_path c\<rparr>);
             d1 = (if subNodes = [] then d else snd (writeNodesToFile (cf_NodesFile c1) subNodes d))
         in (Inr (c1\<lparr>cf_Nodes := cf_Nodes c1 @ subNodes\<rparr>), d1)))"

section \<open>Names and ports\<close>

definition trim_node :: "node_config \<Rightarrow> node_config" where
  "trim_node n = n\<lparr>nc_Name := TrimSpace (nc_Name n), nc_URI := TrimSpace (nc_URI n)\<rparr>"

definition missing_uri :: "nat \<Rightarrow> string" where
  "missing_uri idx = ''node '' @ Itoa (int idx) @ '' is missing uri''"

definition fallback_name :: "nat \<Rightarrow> string" where
  "fallback_name idx = ''node-'' @ Itoa (int idx)"

text \<open>The name of a trimmed node at an index, with all fallbacks of \<open>normalize\<close>.\<close>

definition node_name :: "cfg_env \<Rightarrow> nat \<Rightarrow> node_config \<Rightarrow> string" where
  "node_name env idx n =
     (let name1 =
            (if nc_Name n \<noteq> [] then nc_Name n
             else
               (case url_Parse (nc_URI n) of
                  None \<Rightarrow> []
                | Some u \<Rightarrow> if fragment_name u \<noteq> [] then fragment_name u else query_name u));
          name2 =
            (if name1 = [] \<and> HasPrefix (ToLower (nc_URI n)) ''vmess://''
             then extractNameFromVMessURI (ce_json_ps env) (nc_URI n) else name1)
      in if name2 = [] then fallback_name idx else name2)"

text \<open>The name in \<open>NormalizeWithPortMap\<close>, which looks at the fragment only.\<close>

definition short_name :: "nat \<Rightarrow> node_config \<Rightarrow> string" where
  "short_name idx n =
     (let name1 =
            (if nc_Name n \<noteq> [] then nc_Name n
             else (case url_Parse (nc_URI n) of None \<Rightarrow> [] | Some u \<Rightarrow> fragment_name u))
      in if name1 = [] then fallback_name idx else name1)"

text \<open>
  The search for a free port.  The code's guard \<open>portCursor > 65535\<close> stands as it is, on the
  16-bit cursor.
\<close>

partial_function (option) port_scan ::
  "(port \<Rightarrow> bool) \<Rightarrow> string \<Rightarrow> port \<Rightarrow> (string + port) option" where
  "port_scan busy err p =
     (if busy p
      then (let q = p + 1 in if 65535 < q then Some (Inl err) else port_scan busy err q)
      else Some (Inr p))"

definition multi_mode :: "string \<Rightarrow> bool" where
  "multi_mode m \<longleftrightarrow> m = ''multi-port'' \<or> m = ''hybrid''"

definition default_creds :: "config \<Rightarrow> node_config \<Rightarrow> node_config" where
  "default_creds c n =
     (if multi_mode (cf_Mode c) \<and> nc_Username n = []
      then n\<lparr>nc_Username := mpc_Username (cf_MultiPort c), nc_Password := mpc_Password (cf_MultiPort c)\<rparr>
      else n)"

definition no_ports_error :: "config \<Rightarrow> string" where
  "no_ports_error c =
     ''no available ports found starting from '' @ Itoa (uint (mpc_BasePort (cf_MultiPort c)))"

text \<open>
  The node loop of \<open>normalize\<close> from index \<open>idx\<close> with the port cursor.  An error ends it; \<open>None\<close>
  is a port search that does not return.
\<close>

fun assign_nodes ::
  "cfg_env \<Rightarrow> config \<Rightarrow> nat \<Rightarrow> port \<Rightarrow> node_config list \<Rightarrow> (string + node_config list) option" where
  "assign_nodes env c idx cursor [] = Some (Inr [])"
| "assign_nodes env c idx cursor (n0 # ns) =
     (let n1 = trim_node n0 in
      if nc_URI n1 = [] then Some (Inl (missing_uri idx))
      else
        (let n2 = n1\<lparr>nc_Name := node_name env idx n1\<rparr> in
         case (if nc_Port n2 = 0 \<and> multi_mode (cf_Mode c)
               then (case port_scan (\<lambda>p. \<not> ce_free env (mpc_Address (cf_MultiPort c)) p)
                            (no_ports_error c) cursor of
                       None \<Rightarrow> None
                     | Some (Inl e) \<Rightarrow> Some (Inl e)
                     | Some (Inr p) \<Rightarrow> Some (Inr (p, p + 1)))
               else if nc_Port n2 = 0 then Some (Inr (cursor, cursor + 1))
               else Some (Inr (nc_Port n2, cursor))) of
           None \<Rightarrow> None
         | Some (Inl e) \<Rightarrow> Some (Inl e)
         | Some (Inr (p, cursor')) \<Rightarrow>
             (case assign_nodes env c (Suc idx) cursor' ns of
                None \<Rightarrow> None
              | Some (Inl e) \<Rightarrow> Some (Inl e)
              | Some (Inr ns') \<Rightarrow> Some (Inr (default_creds c (n2\<lparr>nc_Port := p\<rparr>) # ns')))))"

text \<open>The repair of \<open>hybrid\<close> mode: nodes on the pool's port move to the next unused free port.\<close>

definition pool_port_error :: "port \<Rightarrow> node_config \<Rightarrow> string" where
  "pool_port_error poolPort n =
     ''no available port for node '' @ nc_Name n @ '' after conflict with pool port '' @
     Itoa (uint poolPort)"

fun fix_conflicts ::
  "(port \<Rightarrow> bool) \<Rightarrow> port \<Rightarrow> port set \<Rightarrow> node_config list \<Rightarrow> (string + node_config list) option" where
  "fix_conflicts free poolPort used [] = Some (Inr [])"
| "fix_conflicts free poolPort used (n # ns) =
     (if nc_Port n = poolPort then
        (case port_scan (\<lambda>p. p \<in> used \<or> \<not> free p) (pool_port_error poolPort n) (nc_Port n + 1) of
           None \<Rightarrow> None
         | Some (Inl e) \<Rightarrow> Some (Inl e)
         | Some (Inr p) \<Rightarrow>
             (case fix_conflicts free poolPort (insert p used) ns of
                None \<Rightarrow> None
              | Some (Inl e) \<Rightarrow> Some (Inl e)
              | Some (Inr ns') \<Rightarrow> Some (Inr (n\<lparr>nc_Port := p\<rparr> # ns'))))
      else
        (case fix_conflicts free poolPort used ns of
           None \<Rightarrow> None
         | Some (Inl e) \<Rightarrow> Some (Inl e)
         | Some (Inr ns') \<Rightarrow> Some (Inr (n # ns'))))"

text \<open>\<open>normalize\<close>; its result comes with the disk, on which \<open>nodes.txt\<close> may have been written.\<close>

definition normalize :: "cfg_env \<Rightarrow> config \<Rightarrow> disk \<Rightarrow> ((string + config) \<times> disk) option" where
  "normalize env c0 d0 =
     (case apply_defaults c0 of
        Inl e \<Rightarrow> Some (Inl e, d0)
      | Inr c1 \<Rightarrow>
          (case load_sources env
                  (c1\<lparr>cf_ConnectTimeout := default_positive (15 * second) (cf_ConnectTimeout c1)\<rparr>) d0 of
             (Inl e, d) \<Rightarrow> Some (Inl e, d)
           | (Inr c2, d) \<Rightarrow>
               (case assign_nodes env c2 0 (mpc_BasePort (cf_MultiPort c2)) (cf_Nodes c2) of
                  None \<Rightarrow> None
                | Some (Inl e) \<Rightarrow> Some (Inl e, d)
                | Some (Inr ns) \<Rightarrow>
                    (let c3 = c2\<lparr>cf_Nodes := ns, cf_LogLevel := default_string ''info'' (cf_LogLevel c2)\<rparr>;
                         poolPort = lc_Port (cf_Listener c3) in
                     if cf_Mode c3 = ''hybrid'' then
                       (case fix_conflicts (ce_free env (mpc_Address (cf_MultiPort c3))) poolPort
                               (insert poolPort (nc_Port ` set ns)) ns of
                          None \<Rightarrow> None
                        | Some (Inl e) \<Rightarrow> Some (Inl e, d)
                        | Some (Inr ns') \<Rightarrow> Some (Inr (c3\<lparr>cf_Nodes := ns'\<rparr>), d))
                     else Some (Inr c3, d)))))"

definition Load :: "cfg_env \<Rightarrow> string \<Rightarrow> disk \<Rightarrow> ((string + config) \<times> disk) option" where
  "Load env path d =
     (case ReadFile path d of
        Inl e \<Rightarrow> Some (Inl (''read config: '' @ read_error_text e), d)
      | Inr content \<Rightarrow>
          (case ce_yaml_config env content of
             Inl e \<Rightarrow> Some (Inl (''decode config: '' @ e), d)
           | Inr c \<Rightarrow>
               normalize env
                 (c\<lparr>cf_filePath := path,
                    cf_NodesFile :=
                      (if cf_NodesFile c \<noteq> [] \<and> \<not> IsAbs (cf_NodesFile c)
                       then path_Join (Dir path) (cf_NodesFile c) else cf_NodesFile c)\<rparr>) d))"

section \<open>Normalising with preserved ports\<close>

type_synonym port_map = "string \<Rightarrow> port option"

definition BuildPortMap :: "config \<Rightarrow> port_map" where
  "BuildPortMap c =
     fold (\<lambda>n m. if 0 < nc_Port n then m(NodeKey n \<mapsto> nc_Port n) else m) (cf_Nodes c) Map.empty"

text \<open>The first pass: names, and the ports the map holds for a node; it collects the ports in use.\<close>

fun preserve_ports ::
  "config \<Rightarrow> port_map \<Rightarrow> nat \<Rightarrow> port set \<Rightarrow> node_config list \<Rightarrow> string + (node_config list \<times> port set)" where
  "preserve_ports c portMap idx used [] = Inr ([], used)"
| "preserve_ports c portMap idx used (n0 # ns) =
     (let n1 = trim_node n0 in
      if nc_URI n1 = [] then Inl (missing_uri idx)
      else
        (let n2 = n1\<lparr>nc_Name := short_name idx n1\<rparr>;
             (n3, used') =
               (if multi_mode (cf_Mode c) then
                  (case portMap (NodeKey n2) of
                     Some p \<Rightarrow> if 0 < p then (n2\<lparr>nc_Port := p\<rparr>, insert p used) else (n2, used)
                   | None \<Rightarrow> (n2, used))
                else (n2, used))
         in case preserve_ports c portMap (Suc idx) used' ns of
              Inl e \<Rightarrow> Inl e
            | Inr (ns', used'') \<Rightarrow> Inr (n3 # ns', used'')))"

text \<open>The second pass: new ports for the others, credentials for all.\<close>

fun fill_ports ::
  "cfg_env \<Rightarrow> config \<Rightarrow> port \<Rightarrow> port set \<Rightarrow> node_config list \<Rightarrow> (string + node_config list) option" where
  "fill_ports env c cursor used [] = Some (Inr [])"
| "fill_ports env c cursor used (n # ns) =
     (case (if nc_Port n = 0 \<and> multi_mode (cf_Mode c)
            then (case port_scan (\<lambda>p. p \<in> used \<or> \<not> ce_free env (mpc_Address (cf_MultiPort c)) p)
                         (no_ports_error c) cursor of
                    None \<Rightarrow> None
                  | Some (Inl e) \<Rightarrow> Some (Inl e)
                  | Some (Inr p) \<Rightarrow> Some (Inr (p, p + 1, insert p used)))
            else if nc_Port n = 0 then Some (Inr (cursor, cursor + 1, used))
            else Some (Inr (nc_Port n, cursor, used))) of
        None \<Rightarrow> None
      | Some (Inl e) \<Rightarrow> Some (Inl e)
      | Some (Inr (p, cursor', used')) \<Rightarrow>
          (case fill_ports env c cursor' used' ns of
             None \<Rightarrow> None
           | Some (Inl e) \<Rightarrow> Some (Inl e)
           | Some (Inr ns') \<Rightarrow> Some (Inr (default_creds c (n\<lparr>nc_Port := p\<rparr>) # ns'))))"

definition NormalizeWithPortMap ::
  "cfg_env \<Rightarrow> port_map \<Rightarrow> config \<Rightarrow> (string + config) option" where
  "NormalizeWithPortMap env portMap c0 =
     (case apply_defaults c0 of
        Inl e \<Rightarrow> Some (Inl e)
      | Inr c \<Rightarrow>
          (case preserve_ports c portMap 0
                  (if cf_Mode c = ''hybrid'' then {lc_Port (cf_Listener c)} else {}) (cf_Nodes c) of
             Inl e \<Rightarrow> Some (Inl e)
           | Inr (ns, used) \<Rightarrow>
               (case fill_ports env c (mpc_BasePort (cf_MultiPort c)) used ns of
                  None \<Rightarrow> None
                | Some (Inl e) \<Rightarrow> Some (Inl e)
                | Some (Inr ns') \<Rightarrow>
                    Some (Inr (c\<lparr>cf_Nodes := ns',
                                 cf_LogLevel := default_string ''info'' (cf_LogLevel c)\<rparr>)))))"

section \<open>Saving\<close>

definition clean_node :: "node_config \<Rightarrow> node_config" where
  "clean_node n = n\<lparr>nc_Source := [], nc_Geo := None\<rparr>"

definition inline_nodes :: "config \<Rightarrow> node_config list" where
  "inline_nodes c = map clean_node (filter (\<lambda>n. nc_Source n = NodeSourceInline) (cf_Nodes c))"

definition file_nodes :: "config \<Rightarrow> node_config list" where
  "file_nodes c = map clean_node (filter (\<lambda>n. nc_Source n \<noteq> NodeSourceInline) (cf_Nodes c))"

definition save_inline :: "cfg_env \<Rightarrow> config \<Rightarrow> disk \<Rightarrow> string option \<times> disk" where
  "save_inline env c d =
     (case ReadFile (cf_filePath c) d of
        Inl e \<Rightarrow> (Some (''read config: '' @ read_error_text e), d)
      | Inr content \<Rightarrow>
          (case ce_yaml_config env content of
             Inl e \<Rightarrow> (Some (''decode config: '' @ e), d)
           | Inr saveCfg \<Rightarrow>
               (case ce_yaml_marshal env (saveCfg\<lparr>cf_Nodes := inline_nodes c\<rparr>) of
                  Inl e \<Rightarrow> (Some (''encode config: '' @ e), d)
                | Inr newData \<Rightarrow>
                    (case WriteFile (cf_filePath c) newData d of
                       (Some e, d') \<Rightarrow> (Some (''write config: '' @ e), d')
                     | (None, d') \<Rightarrow> (None, d')))))"

definition SaveNodes :: "cfg_env \<Rightarrow> config option \<Rightarrow> disk \<Rightarrow> string option \<times> disk" where
  "SaveNodes env co d =
     (case co of
        None \<Rightarrow> (Some ''config is nil'', d)
      | Some c \<Rightarrow>
          if cf_filePath c = [] then (Some ''config file path is unknown'', d)
          else
            (case (if file_nodes c \<noteq> [] \<or> cf_NodesFile c \<noteq> []
                   then writeNodesToFile (nodes_file_path c) (file_nodes c) d else (None, d)) of
               (Some e, d1) \<Rightarrow> (Some (''write nodes file '' @ nodes_file_path c @ '': '' @ e), d1)
             | (None, d1) \<Rightarrow>
                 if inline_nodes c \<noteq> [] then save_inline env c d1 else (None, d1)))"

definition Save :: "cfg_env \<Rightarrow> config option \<Rightarrow> disk \<Rightarrow> string option \<times> disk" where
  "Save env co d = SaveNodes env co d"

text \<open>The settings that \<open>SaveSettings\<close> copies over what the file holds.\<close>

definition copy_settings :: "config \<Rightarrow> config \<Rightarrow> config" where
  "copy_settings c saveCfg =
     saveCfg\<lparr>cf_ExternalIP := cf_ExternalIP c, cf_Mode := cf_Mode c, cf_LogLevel := cf_LogLevel c,
             cf_ConnectTimeout := cf_ConnectTimeout c, cf_Listener := cf_Listener c,
             cf_MultiPort := cf_MultiPort c, cf_Pool := cf_Pool c,
             cf_Management := (cf_Management saveCfg)
               \<lparr>mgc_Enabled := mgc_Enabled (cf_Management c),
                mgc_Listen := mgc_Listen (cf_Management c),
                mgc_ProbeTarget := mgc_ProbeTarget (cf_Management c),
                mgc_Password := mgc_Password (cf_Management c)\<rparr>,
             cf_SkipCertVerify := cf_SkipCertVerify c, cf_Subscriptions := cf_Subscriptions c,
             cf_SubscriptionRefresh := cf_SubscriptionRefresh c, cf_NodeFilter := cf_NodeFilter c\<rparr>"

definition SaveSettings :: "cfg_env \<Rightarrow> config option \<Rightarrow> disk \<Rightarrow> string option \<times> disk" where
  "SaveSettings env co d =
     (case co of
        None \<Rightarrow> (Some ''config is nil'', d)
      | Some c \<Rightarrow>
          if cf_filePath c = [] then (Some ''config file path is unknown'', d)
          else
            (case ReadFile (cf_filePath c) d of
               Inl e \<Rightarrow> (Some (''read config: '' @ read_error_text e), d)
             | Inr content \<Rightarrow>
                 (case ce_yaml_config env content of
                    Inl e \<Rightarrow> (Some (''decode config: '' @ e), d)
                  | Inr saveCfg \<Rightarrow>
                      (case ce_yaml_marshal env (copy_settings c saveCfg) of
                         Inl e \<Rightarrow> (Some (''encode config: '' @ e), d)
                       | Inr newData \<Rightarrow>
                           (case WriteFile (cf_filePath c) newData d of
                              (Some e, d') \<Rightarrow> (Some (''write config: '' @ e), d')
                            | (None, d') \<Rightarrow> (None, d'))))))"

end
