(* ===== verification/Config_Ports.thy ===== *)
theory Config_Ports
  imports Config_Load
begin

text \<open>
  What the normalisations guarantee about ports, names and credentials: the port search, the
  assignment on a first load, the assignment with preserved ports on a reload, the repair of
  hybrid mode, and what a successful normalisation leaves behind.
\<close>

section \<open>The port search\<close>

lemma port_guard [simp]: "\<not> (65535 :: port) < q"
proof -
  have "(65535 :: port) = - 1" by simp
  then show ?thesis
    by (metis word_n1_ge not_less)
qed

lemma port_scan_step:
  "port_scan busy err p = (if busy p then port_scan busy err (p + 1) else Some (Inr p))"
  by (subst port_scan.simps) (simp add: Let_def)

text \<open>The code's guard never fires, as the cursor has 16 bits; the search goes round instead.\<close>

lemma port_scan_hit:
  "\<not> busy (p + of_nat k) \<Longrightarrow> (\<And>j. j < k \<Longrightarrow> busy (p + of_nat j)) \<Longrightarrow>
   port_scan busy err p = Some (Inr (p + of_nat k))"
proof (induction k arbitrary: p)
  case 0
  then show ?case by (subst port_scan_step) simp
next
  case (Suc k)
  have "busy p" using Suc.prems(2) [of 0] by simp
  moreover have "port_scan busy err (p + 1) = Some (Inr (p + 1 + of_nat k))"
  proof (rule Suc.IH)
    show "\<not> busy (p + 1 + of_nat k)" using Suc.prems(1) by (simp add: ac_simps)
    show "\<And>j. j < k \<Longrightarrow> busy (p + 1 + of_nat j)"
      using Suc.prems(2) [of "Suc _"] by (simp add: ac_simps)
  qed
  ultimately show ?case
    by (subst port_scan_step) (simp add: ac_simps)
qed

lemma port_scan_result_free: "port_scan busy err p = Some r \<Longrightarrow> \<exists>q. r = Inr q \<and> \<not> busy q"
proof (rule port_scan.raw_induct [where P = "\<lambda>busy err p r. \<exists>q. r = Inr q \<and> \<not> busy q"])
  fix scan :: "(port \<Rightarrow> bool) \<Rightarrow> string \<Rightarrow> port \<Rightarrow> (string + port) option"
    and busy :: "port \<Rightarrow> bool" and err p r
  assume IH: "\<And>err p b y. scan err p b = Some y \<Longrightarrow> \<exists>q. y = Inr q \<and> \<not> err q"
    and eq: "(if busy p
      then let q = p + 1 in if 65535 < q then Some (Inl err) else scan busy err q
      else Some (Inr p)) = Some r"
  show "\<exists>q. r = Inr q \<and> \<not> busy q"
  proof (cases "busy p")
    case True
    with eq have "scan busy err (p + 1) = Some r"
      by (simp only: Let_def if_True port_guard if_False)
    then show ?thesis by (rule IH)
  qed (use eq in auto)
qed

text \<open>
  C28. The port search.  It returns the first free port at or after the start, going round past
  65535 to 0, whenever any port is free at all.  When none is, it does not return: the error the
  code has for that case is never reported.
\<close>

theorem port_scan_first_free:
  "port_scan busy err p =
     (if \<exists>q. \<not> busy q then Some (Inr (p + of_nat (LEAST k. \<not> busy (p + of_nat k)))) else None)"
proof (cases "\<exists>q. \<not> busy q")
  case True
  then obtain k where k: "\<not> busy (p + of_nat k)"
    using word16_cycle [of _ p] by metis
  let ?k = "LEAST k. \<not> busy (p + of_nat k)"
  have "\<not> busy (p + of_nat ?k)" using k by (rule LeastI)
  moreover have "\<And>j. j < ?k \<Longrightarrow> busy (p + of_nat j)" using not_less_Least by blast
  ultimately show ?thesis
    using True port_scan_hit by auto
next
  case False
  then show ?thesis
    using port_scan_result_free [of busy err p] by (cases "port_scan busy err p") auto
qed

text \<open>The search as a function into options; its callers use it through the laws of a scanner.\<close>

definition scan_port :: "string \<Rightarrow> (port \<Rightarrow> bool) \<Rightarrow> port \<Rightarrow> port option" where
  "scan_port err busy p =
     (case port_scan busy err p of Some (Inr q) \<Rightarrow> Some q | _ \<Rightarrow> None)"

lemma port_scan_scan_port:
  "port_scan busy err p = (case scan_port err busy p of None \<Rightarrow> None | Some q \<Rightarrow> Some (Inr q))"
  using port_scan_result_free [of busy err p]
  by (cases "port_scan busy err p") (auto simp: scan_port_def)

lemma scan_port_free: "scan_port err busy p = Some q \<Longrightarrow> \<not> busy q"
  using port_scan_result_free [of busy err p]
  by (auto simp: scan_port_def split: option.splits sum.splits)

lemma port_scan_exists: "\<not> busy r \<Longrightarrow> \<exists>q. port_scan busy err p = Some (Inr q) \<and> \<not> busy q"
proof -
  assume "\<not> busy r"
  obtain k where "r = p + of_nat k" using word16_cycle [of r p] by blast
  with \<open>\<not> busy r\<close> have k: "\<not> busy (p + of_nat k)" by simp
  let ?k = "LEAST k. \<not> busy (p + of_nat k)"
  have "\<not> busy (p + of_nat ?k)" using k by (rule LeastI)
  moreover have "\<And>j. j < ?k \<Longrightarrow> busy (p + of_nat j)" using not_less_Least by blast
  ultimately show ?thesis
    using port_scan_hit by blast
qed

interpretation config_scanner: port_scanner "scan_port err" for err
proof
  fix busy and r p :: port
  assume "\<not> busy r"
  then show "\<exists>q. scan_port err busy p = Some q \<and> \<not> busy q"
    using port_scan_exists [of busy r err p] by (auto simp: scan_port_def)
qed

section \<open>Preserved ports\<close>

text \<open>The ports that a pass gave to the nodes that had none, in order.\<close>

definition new_ports :: "node_config list \<Rightarrow> node_config list \<Rightarrow> port list" where
  "new_ports old new = map (\<lambda>(n, n'). nc_Port n') (filter (\<lambda>(n, n'). nc_Port n = 0) (zip old new))"

text \<open>A node before and after the second pass: only a missing port and missing credentials differ.\<close>

definition filled :: "config \<Rightarrow> node_config \<Rightarrow> node_config \<Rightarrow> bool" where
  "filled c n n' \<longleftrightarrow>
     nc_Name n' = nc_Name n \<and> nc_URI n' = nc_URI n \<and> (nc_Port n \<noteq> 0 \<longrightarrow> nc_Port n' = nc_Port n) \<and>
     (multi_mode (cf_Mode c) \<and> nc_Username n = [] \<longrightarrow>
        nc_Username n' = mpc_Username (cf_MultiPort c) \<and> nc_Password n' = mpc_Password (cf_MultiPort c)) \<and>
     (nc_Username n \<noteq> [] \<longrightarrow> nc_Username n' = nc_Username n \<and> nc_Password n' = nc_Password n)"

lemma filled_default_creds:
  "nc_Port n \<noteq> 0 \<longrightarrow> p = nc_Port n \<Longrightarrow> filled c n (default_creds c (n\<lparr>nc_Port := p\<rparr>))"
  by (auto simp: filled_def default_creds_def)

lemma default_creds_fields [simp]:
  "nc_Port (default_creds c n) = nc_Port n" "nc_URI (default_creds c n) = nc_URI n"
  "nc_Name (default_creds c n) = nc_Name n" "nc_Source (default_creds c n) = nc_Source n"
  by (simp_all add: default_creds_def)

lemma fill_ports_spec:
  assumes "multi_mode (cf_Mode c)"
  shows "fill_ports env c cursor used ns = Some (Inr ns') \<Longrightarrow>
    list_all2 (filled c) ns ns' \<and> distinct (new_ports ns ns') \<and> set (new_ports ns ns') \<inter> used = {} \<and>
    list_all (ce_free env (mpc_Address (cf_MultiPort c))) (new_ports ns ns')"
proof (induction ns arbitrary: cursor used ns')
  case Nil
  then show ?case by (simp add: new_ports_def)
next
  case (Cons n ns)
  let ?free = "ce_free env (mpc_Address (cf_MultiPort c))"
  show ?case
  proof (cases "nc_Port n = 0")
    case True
    with assms Cons.prems obtain p ms where
      scan: "scan_port (no_ports_error c) (\<lambda>p. p \<in> used \<or> \<not> ?free p) cursor = Some p" and
      rest: "fill_ports env c (p + 1) (insert p used) ns = Some (Inr ms)" and
      ns': "ns' = default_creds c (n\<lparr>nc_Port := p\<rparr>) # ms"
      by (auto simp: port_scan_scan_port split: option.splits sum.splits)
    from scan have "p \<notin> used \<and> ?free p"
      using scan_port_free by blast
    with Cons.IH [OF rest] True show ?thesis
      by (auto simp: ns' new_ports_def filled_default_creds)
  next
    case False
    with Cons.prems obtain ms where
      rest: "fill_ports env c cursor used ns = Some (Inr ms)" and
      ns': "ns' = default_creds c (n\<lparr>nc_Port := nc_Port n\<rparr>) # ms"
      by (auto split: option.splits sum.splits)
    have "filled c n (default_creds c (n\<lparr>nc_Port := nc_Port n\<rparr>))"
      by (rule filled_default_creds) simp
    with Cons.IH [OF rest] False show ?thesis
      by (simp add: ns' new_ports_def)
  qed
qed

text \<open>It returns when there are more free ports than ports in use and nodes to serve.\<close>

lemma fill_ports_returns:
  assumes "multi_mode (cf_Mode c)"
  shows "card used + length (filter (\<lambda>n. nc_Port n = 0) ns) \<le> card {p. ce_free env (mpc_Address (cf_MultiPort c)) p} \<Longrightarrow>
    \<exists>ns'. fill_ports env c cursor used ns = Some (Inr ns')"
proof (induction ns arbitrary: cursor used)
  case (Cons n ns)
  let ?free = "ce_free env (mpc_Address (cf_MultiPort c))"
  show ?case
  proof (cases "nc_Port n = 0")
    case True
    with Cons.prems have "card used < card {p. ?free p}" by simp
    then obtain p where p: "scan_port (no_ports_error c) (\<lambda>p. p \<in> used \<or> \<not> ?free p) cursor = Some p" "p \<notin> used"
      using config_scanner.scan_avoids by blast
    have "card (insert p used) = Suc (card used)"
      using p(2) by simp
    with Cons.prems True have "card (insert p used) + length (filter (\<lambda>n. nc_Port n = 0) ns) \<le> card {p. ?free p}"
      by simp
    from Cons.IH [OF this, of "p + 1"] show ?thesis
      using p True assms by (auto simp: port_scan_scan_port)
  next
    case False
    with Cons.prems Cons.IH [of used cursor] show ?thesis by auto
  qed
qed simp

text \<open>The first pass.\<close>

definition kept_port :: "port_map \<Rightarrow> node_config \<Rightarrow> port option" where
  "kept_port portMap n =
     (case portMap (TrimSpace (nc_URI n)) of Some p \<Rightarrow> if 0 < p then Some p else None | None \<Rightarrow> None)"

definition after_first_pass :: "port_map \<Rightarrow> node_config \<Rightarrow> node_config \<Rightarrow> bool" where
  "after_first_pass portMap n n' \<longleftrightarrow>
     nc_URI n' = TrimSpace (nc_URI n) \<and> nc_URI n' \<noteq> [] \<and> nc_Name n' \<noteq> [] \<and>
     nc_Port n' = (case kept_port portMap n of Some p \<Rightarrow> p | None \<Rightarrow> nc_Port n)"

lemma short_name_nonempty [simp]: "short_name idx n \<noteq> []"
  by (simp add: short_name_def Let_def fallback_name_def)

lemma preserve_ports_spec:
  assumes "multi_mode (cf_Mode c)"
  shows "preserve_ports c pm idx used ns = Inr (ns', used') \<Longrightarrow>
    list_all2 (after_first_pass pm) ns ns' \<and>
    used' = used \<union> {p. \<exists>n \<in> set ns. kept_port pm n = Some p}"
proof (induction ns arbitrary: idx used ns' used')
  case Nil
  then show ?case by simp
next
  case (Cons n ns)
  let ?n = "(trim_node n)\<lparr>nc_Name := short_name idx (trim_node n)\<rparr>"
  define keep where "keep = (case kept_port pm n of
      Some p \<Rightarrow> (?n\<lparr>nc_Port := p\<rparr>, insert p used) | None \<Rightarrow> (?n, used))"
  have keep: "(case pm (NodeKey ?n) of
      Some p \<Rightarrow> if 0 < p then (?n\<lparr>nc_Port := p\<rparr>, insert p used) else (?n, used)
    | None \<Rightarrow> (?n, used)) = keep"
    by (auto simp: keep_def kept_port_def NodeKey_def trim_node_def split: option.splits)
  from Cons.prems assms have uri: "nc_URI (trim_node n) \<noteq> []"
    by (auto simp: Let_def split: if_splits)
  with Cons.prems assms obtain ms where
    rest: "preserve_ports c pm (Suc idx) (snd keep) ns = Inr (ms, used')" and ns': "ns' = fst keep # ms"
    using keep by (auto simp: Let_def split_beta split: sum.splits)
  have "after_first_pass pm n (fst keep)"
    using uri by (auto simp: keep_def after_first_pass_def trim_node_def split: option.splits)
  moreover have "snd keep = used \<union> {p. kept_port pm n = Some p}"
    by (auto simp: keep_def split: option.splits)
  ultimately show ?case
    using Cons.IH [OF rest] ns' by auto
qed

text \<open>The nodes that need a new port on a reload: neither the map nor the node itself has one.\<close>

definition needs_port :: "port_map \<Rightarrow> node_config \<Rightarrow> bool" where
  "needs_port pm n \<longleftrightarrow> kept_port pm n = None \<and> nc_Port n = 0"

definition reload_new_ports :: "port_map \<Rightarrow> node_config list \<Rightarrow> node_config list \<Rightarrow> port list" where
  "reload_new_ports pm old new =
     map (\<lambda>(n, n'). nc_Port n') (filter (\<lambda>(n, n'). needs_port pm n) (zip old new))"

text \<open>The ports that are taken for a configuration \<open>c\<close> whose nodes were \<open>old\<close>.\<close>

definition reserved_ports :: "config \<Rightarrow> port_map \<Rightarrow> node_config list \<Rightarrow> port set" where
  "reserved_ports c pm old =
     (if cf_Mode c = ''hybrid'' then {lc_Port (cf_Listener c)} else {}) \<union>
     {p. \<exists>n \<in> set old. kept_port pm n = Some p}"

lemma needs_port_after:
  "after_first_pass pm n m \<Longrightarrow> (nc_Port m = 0) = needs_port pm n"
  by (auto simp: after_first_pass_def needs_port_def kept_port_def word_gt_0 split: option.splits if_splits)

lemma new_ports_reload:
  "list_all2 (after_first_pass pm) ns ms \<Longrightarrow> length ms = length ns' \<Longrightarrow>
   new_ports ms ns' = reload_new_ports pm ns ns'"
proof (induction ns ms arbitrary: ns' rule: list_all2_induct)
  case (Cons n ns m ms)
  then show ?case
    by (cases ns') (auto simp: new_ports_def reload_new_ports_def needs_port_after)
qed (simp add: new_ports_def reload_new_ports_def)

lemma apply_defaults_fields:
  "apply_defaults c0 = Inr c \<Longrightarrow>
   cf_Nodes c = cf_Nodes c0 \<and> cf_Mode c = normal_mode (cf_Mode c0) \<and>
   cf_Mode c \<in> {''pool'', ''multi-port'', ''hybrid''} \<and> lc_Port (cf_Listener c) \<noteq> 0 \<and>
   mpc_BasePort (cf_MultiPort c) \<noteq> 0 \<and> cf_filePath c = cf_filePath c0 \<and>
   cf_Subscriptions c = cf_Subscriptions c0"
  by (auto simp: apply_defaults_def Let_def default_port_def split: if_splits)

lemma reload_ports_spec:
  assumes "NormalizeWithPortMap env pm c0 = Some (Inr c)" and "multi_mode (cf_Mode c)"
  shows "list_all2 (\<lambda>n n'. nc_URI n' = TrimSpace (nc_URI n) \<and> nc_Name n' \<noteq> [] \<and>
        nc_Port n' = (case kept_port pm n of
            Some p \<Rightarrow> p
          | None \<Rightarrow> if nc_Port n = 0 then nc_Port n' else nc_Port n)) (cf_Nodes c0) (cf_Nodes c) \<and>
    distinct (reload_new_ports pm (cf_Nodes c0) (cf_Nodes c)) \<and>
    set (reload_new_ports pm (cf_Nodes c0) (cf_Nodes c)) \<inter> reserved_ports c pm (cf_Nodes c0) = {} \<and>
    list_all (ce_free env (mpc_Address (cf_MultiPort c))) (reload_new_ports pm (cf_Nodes c0) (cf_Nodes c))"
proof -
  obtain c1 where c1: "apply_defaults c0 = Inr c1"
    using assms(1) by (auto simp: NormalizeWithPortMap_def split: sum.splits)
  let ?used0 = "if cf_Mode c1 = ''hybrid'' then {lc_Port (cf_Listener c1)} else {}"
  obtain ms used where pre: "preserve_ports c1 pm 0 ?used0 (cf_Nodes c1) = Inr (ms, used)"
    using assms(1) c1 by (auto simp: NormalizeWithPortMap_def split: sum.splits)
  obtain ns where fill: "fill_ports env c1 (mpc_BasePort (cf_MultiPort c1)) used ms = Some (Inr ns)"
    and c: "c = c1\<lparr>cf_Nodes := ns, cf_LogLevel := default_string ''info'' (cf_LogLevel c1)\<rparr>"
    using assms(1) c1 pre by (auto simp: NormalizeWithPortMap_def split: option.splits sum.splits)
  have multi: "multi_mode (cf_Mode c1)"
    using assms(2) by (simp add: c)
  note first = preserve_ports_spec [OF multi pre]
  note second = fill_ports_spec [OF multi fill]
  have nodes: "cf_Nodes c1 = cf_Nodes c0"
    using apply_defaults_fields [OF c1] by simp
  have new: "new_ports ms ns = reload_new_ports pm (cf_Nodes c0) ns"
    using first second by (intro new_ports_reload) (auto simp: nodes list_all2_lengthD)
  have "list_all2 (\<lambda>n n'. nc_URI n' = TrimSpace (nc_URI n) \<and> nc_Name n' \<noteq> [] \<and>
      nc_Port n' = (case kept_port pm n of
          Some p \<Rightarrow> p
        | None \<Rightarrow> if nc_Port n = 0 then nc_Port n' else nc_Port n)) (cf_Nodes c0) ns"
  proof (rule list_all2_trans [OF _ first [THEN conjunct1, unfolded nodes] second [THEN conjunct1]])
    fix n m n'
    assume "after_first_pass pm n m" "filled c1 m n'"
    then show "nc_URI n' = TrimSpace (nc_URI n) \<and> nc_Name n' \<noteq> [] \<and>
        nc_Port n' = (case kept_port pm n of
            Some p \<Rightarrow> p
          | None \<Rightarrow> if nc_Port n = 0 then nc_Port n' else nc_Port n)"
      by (auto simp: after_first_pass_def filled_def kept_port_def split: option.splits if_splits)
  qed
  then show ?thesis
    using first second new by (auto simp: c nodes reserved_ports_def)
qed


lemma port_scan_busy: "busy p \<Longrightarrow> port_scan busy err p = port_scan busy err (p + 1)"
  by (subst port_scan_step) simp

lemma port_scan_done: "\<not> busy p \<Longrightarrow> port_scan busy err p = Some (Inr p)"
  by (subst port_scan_step) simp

text \<open>An outside in which the given ports are free and nothing is fetched.\<close>

definition demo_cfg_env :: "(port \<Rightarrow> bool) \<Rightarrow> cfg_env" where
  "demo_cfg_env free =
     \<lparr>ce_free = (\<lambda>_. free), ce_json_ps = (\<lambda>_. None), ce_yaml_clash = (\<lambda>_. Inl ''eof''),
      ce_http = (\<lambda>_ _. DoError ''refused''), ce_yaml_config = (\<lambda>_. Inl ''eof''),
      ce_yaml_marshal = (\<lambda>_. Inl ''eof'')\<rparr>"

definition demo_node :: "string \<Rightarrow> port \<Rightarrow> node_config" where
  "demo_node name p = (uri_node (''ss://'' @ name))\<lparr>nc_Name := name, nc_Port := p\<rparr>"

definition demo_config :: "string \<Rightarrow> node_config list \<Rightarrow> config" where
  "demo_config mode ns = zero_config\<lparr>cf_Mode := mode, cf_Nodes := ns\<rparr>"

lemma trimmed_demo [simp]: "TrimSpace ''a'' = ''a''" "TrimSpace ''b'' = ''b''"
  "TrimSpace ''ss://a'' = ''ss://a''" "TrimSpace ''ss://b'' = ''ss://b''"
  by (simp_all add: TrimSpace_trimmed trimmed_def no_front_def white_space_def)

definition demo_reloaded :: config where
  "demo_reloaded =
     (let c = projr (apply_defaults (demo_config ''hybrid'' [demo_node ''a'' 0, demo_node ''b'' 0]))
      in c\<lparr>cf_Nodes := [demo_node ''a'' 28001, demo_node ''b'' 28000], cf_LogLevel := ''info''\<rparr>)"

lemma demo_reload:
  "NormalizeWithPortMap (demo_cfg_env (\<lambda>p. p \<noteq> 0)) [''ss://b'' \<mapsto> 28000]
     (demo_config ''hybrid'' [demo_node ''a'' 0, demo_node ''b'' 0]) = Some (Inr demo_reloaded)"
  by (simp add: NormalizeWithPortMap_def demo_reloaded_def demo_config_def apply_defaults_def
      normal_mode_def zero_config_def Let_def demo_node_def uri_node_def trim_node_def
      short_name_def multi_mode_def NodeKey_def default_string_def default_port_def
      default_creds_def port_scan_busy port_scan_done demo_cfg_env_def)


lemma preserve_ports_error:
  "preserve_ports c pm idx used ns = Inl e \<Longrightarrow> \<exists>n \<in> set ns. TrimSpace (nc_URI n) = []"
proof (induction ns arbitrary: idx used)
  case (Cons n ns)
  show ?case
  proof (cases "TrimSpace (nc_URI n) = []")
    case False
    with Cons.prems obtain u where "preserve_ports c pm (Suc idx) u ns = Inl e"
      by (auto simp: Let_def split_beta trim_node_def split: sum.splits)
    from Cons.IH [OF this] show ?thesis by simp
  qed simp
qed simp

lemma preserve_ports_returns:
  "\<forall>n \<in> set ns. TrimSpace (nc_URI n) \<noteq> [] \<Longrightarrow> \<exists>r. preserve_ports c pm idx used ns = Inr r"
  using preserve_ports_error [of c pm idx used ns]
  by (cases "preserve_ports c pm idx used ns") auto

text \<open>
  C30. Reloading returns.  With a supported mode, URIs that are not blank and at least as many free
  ports as there are reserved ports and nodes without one, the normalisation with preserved ports
  returns a configuration: it neither fails nor searches forever.
\<close>

theorem reload_returns:
  assumes "apply_defaults c0 = Inr c1" and "multi_mode (cf_Mode c1)"
    and "\<forall>n \<in> set (cf_Nodes c0). TrimSpace (nc_URI n) \<noteq> []"
    and "card (reserved_ports c1 pm (cf_Nodes c0)) + length (filter (needs_port pm) (cf_Nodes c0)) \<le>
      card {p. ce_free env (mpc_Address (cf_MultiPort c1)) p}"
  shows "\<exists>c. NormalizeWithPortMap env pm c0 = Some (Inr c)"
proof -
  have nodes: "cf_Nodes c1 = cf_Nodes c0"
    using apply_defaults_fields [OF assms(1)] by simp
  let ?used0 = "if cf_Mode c1 = ''hybrid'' then {lc_Port (cf_Listener c1)} else {}"
  obtain ms used where pre: "preserve_ports c1 pm 0 ?used0 (cf_Nodes c1) = Inr (ms, used)"
    using preserve_ports_returns assms(3) nodes by (metis prod.collapse)
  have spec: "list_all2 (after_first_pass pm) (cf_Nodes c0) ms"
    "used = reserved_ports c1 pm (cf_Nodes c0)"
    using preserve_ports_spec [OF assms(2) pre] by (simp_all add: nodes reserved_ports_def)
  have "length (filter (\<lambda>n. nc_Port n = 0) ms) = length (filter (needs_port pm) (cf_Nodes c0))"
    using spec(1) by (induction rule: list_all2_induct) (auto simp: needs_port_after)
  with assms(4) spec(2) obtain ns where
    "fill_ports env c1 (mpc_BasePort (cf_MultiPort c1)) used ms = Some (Inr ns)"
    using fill_ports_returns [OF assms(2)] by metis
  then show ?thesis
    by (simp add: NormalizeWithPortMap_def assms(1) pre)
qed

lemma card_ports: "card {p :: port. p \<noteq> 0} = 65535"
proof -
  have "{p :: port. p \<noteq> 0} = UNIV - {0}" by auto
  then show ?thesis by (simp add: card_Diff_singleton card_word)
qed

theorem reload_returns_witness:
  "\<exists>c. NormalizeWithPortMap (demo_cfg_env (\<lambda>p. p \<noteq> 0)) [''ss://b'' \<mapsto> 28000]
     (demo_config ''hybrid'' [demo_node ''a'' 0, demo_node ''b'' 0]) = Some (Inr c)"
proof -
  let ?c0 = "demo_config ''hybrid'' [demo_node ''a'' 0, demo_node ''b'' 0]"
  let ?c1 = "projr (apply_defaults ?c0)"
  have c1: "apply_defaults ?c0 = Inr ?c1" and mode: "cf_Mode ?c1 = ''hybrid''"
    by (simp_all add: demo_config_def apply_defaults_def normal_mode_def Let_def)
  have nodes: "cf_Nodes ?c0 = [demo_node ''a'' 0, demo_node ''b'' 0]"
    by (simp add: demo_config_def)
  have "reserved_ports ?c1 [''ss://b'' \<mapsto> 28000] (cf_Nodes ?c0) \<subseteq> {lc_Port (cf_Listener ?c1), 28000}"
    by (auto simp: reserved_ports_def kept_port_def split: if_splits option.splits)
  then have "card (reserved_ports ?c1 [''ss://b'' \<mapsto> 28000] (cf_Nodes ?c0)) \<le> 2"
  proof -
    assume sub: "reserved_ports ?c1 [''ss://b'' \<mapsto> 28000] (cf_Nodes ?c0) \<subseteq> {lc_Port (cf_Listener ?c1), 28000}"
    have "card (reserved_ports ?c1 [''ss://b'' \<mapsto> 28000] (cf_Nodes ?c0)) \<le> card {lc_Port (cf_Listener ?c1), 28000}"
      using sub by (rule card_mono [rotated]) simp
    also have "\<dots> \<le> 2" by (simp add: card_insert_if)
    finally show ?thesis .
  qed
  moreover have "length (filter (needs_port [''ss://b'' \<mapsto> 28000]) (cf_Nodes ?c0)) \<le> 2"
    unfolding nodes by (rule order.trans [OF length_filter_le]) simp
  ultimately have "card (reserved_ports ?c1 [''ss://b'' \<mapsto> 28000] (cf_Nodes ?c0)) +
      length (filter (needs_port [''ss://b'' \<mapsto> 28000]) (cf_Nodes ?c0)) \<le>
      card {p. ce_free (demo_cfg_env (\<lambda>p. p \<noteq> 0)) (mpc_Address (cf_MultiPort ?c1)) p}"
    by (simp add: demo_cfg_env_def card_ports)
  moreover have "multi_mode (cf_Mode ?c1)"
    by (simp add: mode multi_mode_def)
  moreover have "\<forall>n \<in> set (cf_Nodes ?c0). TrimSpace (nc_URI n) \<noteq> []"
    unfolding nodes by (simp add: demo_node_def uri_node_def)
  ultimately show ?thesis
    using reload_returns [OF c1] by blast
qed

section \<open>The first normalisation\<close>

lemma node_name_nonempty [simp]: "node_name env idx n \<noteq> []"
  by (simp add: node_name_def Let_def fallback_name_def)

text \<open>A node after the loop of \<open>normalize\<close>.\<close>

definition normalized_node :: "cfg_env \<Rightarrow> config \<Rightarrow> node_config \<Rightarrow> node_config \<Rightarrow> bool" where
  "normalized_node env c n n' \<longleftrightarrow>
     nc_URI n' = TrimSpace (nc_URI n) \<and> nc_URI n' \<noteq> [] \<and> nc_Name n' \<noteq> [] \<and>
     (TrimSpace (nc_Name n) \<noteq> [] \<longrightarrow> nc_Name n' = TrimSpace (nc_Name n)) \<and>
     nc_Source n' = nc_Source n \<and> (nc_Port n \<noteq> 0 \<longrightarrow> nc_Port n' = nc_Port n) \<and>
     (multi_mode (cf_Mode c) \<and> nc_Port n = 0 \<longrightarrow>
        ce_free env (mpc_Address (cf_MultiPort c)) (nc_Port n')) \<and>
     (multi_mode (cf_Mode c) \<and> nc_Username n = [] \<longrightarrow>
        nc_Username n' = mpc_Username (cf_MultiPort c) \<and> nc_Password n' = mpc_Password (cf_MultiPort c))"

lemma assign_nodes_spec:
  "assign_nodes env c idx cursor ns = Some (Inr ns') \<Longrightarrow> list_all2 (normalized_node env c) ns ns'"
proof (induction ns arbitrary: idx cursor ns')
  case (Cons n ns)
  let ?m = "(trim_node n)\<lparr>nc_Name := node_name env idx (trim_node n)\<rparr>"
  let ?free = "ce_free env (mpc_Address (cf_MultiPort c))"
  from Cons.prems have uri: "TrimSpace (nc_URI n) \<noteq> []"
    by (auto simp: Let_def trim_node_def split: if_splits)
  have name: "nc_Name ?m = TrimSpace (nc_Name n)" if "TrimSpace (nc_Name n) \<noteq> []"
    using that by (simp add: node_name_def Let_def trim_node_def)
  obtain p cur ms where rest: "assign_nodes env c (Suc idx) cur ns = Some (Inr ms)"
    and ns': "ns' = default_creds c (?m\<lparr>nc_Port := p\<rparr>) # ms"
    and port: "nc_Port n \<noteq> 0 \<longrightarrow> p = nc_Port n"
      "multi_mode (cf_Mode c) \<and> nc_Port n = 0 \<longrightarrow> ?free p"
  proof (cases "nc_Port n = 0 \<and> multi_mode (cf_Mode c)")
    case True
    with Cons.prems uri obtain p ms where
      "scan_port (no_ports_error c) (\<lambda>p. \<not> ?free p) cursor = Some p"
      "assign_nodes env c (Suc idx) (p + 1) ns = Some (Inr ms)"
      "ns' = default_creds c (?m\<lparr>nc_Port := p\<rparr>) # ms"
      by (auto simp: Let_def trim_node_def port_scan_scan_port split: option.splits sum.splits)
    with True show ?thesis
      using scan_port_free [of "no_ports_error c" "\<lambda>p. \<not> ?free p" cursor p] by (intro that) auto
  next
    case False
    with Cons.prems uri show ?thesis
      by (cases "nc_Port n = 0")
        (auto simp: Let_def trim_node_def intro!: that split: option.splits sum.splits)
  qed
  have "normalized_node env c n (default_creds c (?m\<lparr>nc_Port := p\<rparr>))"
    using uri name port
    by (auto simp: normalized_node_def trim_node_def default_creds_def)
  with Cons.IH [OF rest] show ?case
    by (simp add: ns')
qed simp

text \<open>The ports that the repair of hybrid mode gave out, in order.\<close>

definition moved_ports :: "port \<Rightarrow> node_config list \<Rightarrow> node_config list \<Rightarrow> port list" where
  "moved_ports poolPort old new =
     map (\<lambda>(n, n'). nc_Port n') (filter (\<lambda>(n, n'). nc_Port n = poolPort) (zip old new))"

lemma fix_conflicts_spec:
  "poolPort \<in> used \<Longrightarrow> fix_conflicts free poolPort used ns = Some (Inr ns') \<Longrightarrow>
   list_all2 (\<lambda>n n'. n' = n\<lparr>nc_Port := nc_Port n'\<rparr> \<and>
     (nc_Port n \<noteq> poolPort \<longrightarrow> n' = n) \<and> nc_Port n' \<noteq> poolPort) ns ns' \<and>
   distinct (moved_ports poolPort ns ns') \<and> set (moved_ports poolPort ns ns') \<inter> used = {} \<and>
   list_all free (moved_ports poolPort ns ns')"
proof (induction ns arbitrary: used ns')
  case Nil
  then show ?case by (simp add: moved_ports_def)
next
  case (Cons n ns)
  show ?case
  proof (cases "nc_Port n = poolPort")
    case True
    with Cons.prems(2) obtain p ms where
      scan: "scan_port (pool_port_error poolPort n) (\<lambda>p. p \<in> used \<or> \<not> free p) (nc_Port n + 1) = Some p" and
      rest: "fix_conflicts free poolPort (insert p used) ns = Some (Inr ms)" and
      ns': "ns' = n\<lparr>nc_Port := p\<rparr> # ms"
      by (auto simp: port_scan_scan_port split: option.splits sum.splits)
    from scan have p: "p \<notin> used \<and> free p"
      using scan_port_free by blast
    then have "p \<noteq> poolPort" using Cons.prems(1) by auto
    with p True Cons.IH [OF _ rest] Cons.prems(1) show ?thesis
      by (auto simp: ns' moved_ports_def)
  next
    case False
    with Cons.prems(2) obtain ms where
      rest: "fix_conflicts free poolPort used ns = Some (Inr ms)" and ns': "ns' = n # ms"
      by (auto split: option.splits sum.splits)
    from Cons.IH [OF Cons.prems(1) rest] False show ?thesis
      by (simp add: ns' moved_ports_def)
  qed
qed

text \<open>
  Hybrid mode.  The repair leaves no node on the pool's port and changes nothing but the ports
  of the nodes that were on it; these get free ports, different from each other and from every
  port that was in use.
\<close>

theorem hybrid_conflicts_fixed:
  assumes "fix_conflicts free poolPort (insert poolPort (nc_Port ` set ns)) ns = Some (Inr ns')"
  shows "list_all2 (\<lambda>n n'. n' = n\<lparr>nc_Port := nc_Port n'\<rparr> \<and>
      (nc_Port n \<noteq> poolPort \<longrightarrow> n' = n) \<and> nc_Port n' \<noteq> poolPort) ns ns' \<and>
    distinct (moved_ports poolPort ns ns') \<and>
    set (moved_ports poolPort ns ns') \<inter> insert poolPort (nc_Port ` set ns) = {} \<and>
    list_all free (moved_ports poolPort ns ns')"
  using fix_conflicts_spec [OF _ assms] by simp

theorem hybrid_conflicts_fixed_witness:
  "\<exists>ns'. fix_conflicts (\<lambda>p. True) 2323 (insert 2323 (nc_Port ` set [demo_node ''a'' 2323, demo_node ''b'' 2324]))
      [demo_node ''a'' 2323, demo_node ''b'' 2324] = Some (Inr ns') \<and>
    map nc_Port ns' = [2325, 2324] \<and> distinct (moved_ports 2323 [demo_node ''a'' 2323, demo_node ''b'' 2324] ns')"
proof -
  let ?ns = "[demo_node ''a'' 2323, demo_node ''b'' 2324]"
  have eq: "fix_conflicts (\<lambda>p. True) 2323 (insert 2323 (nc_Port ` set ?ns)) ?ns =
      Some (Inr [demo_node ''a'' 2325, demo_node ''b'' 2324])"
    by (simp add: demo_node_def port_scan_busy port_scan_done)
  from hybrid_conflicts_fixed [OF this] show ?thesis
    using eq by (simp add: demo_node_def)
qed

section \<open>A successful normalisation\<close>

definition known_source :: "node_source \<Rightarrow> bool" where
  "known_source s \<longleftrightarrow> s = NodeSourceInline \<or> s = NodeSourceFile \<or> s = NodeSourceSubscription"

lemma set_mark_source: "n \<in> set (mark_source s ns) \<Longrightarrow> nc_Source n = s"
  by (auto simp: mark_source_def)

lemma load_sources_keeps:
  assumes "load_sources env c d = (Inr c', d')"
  shows "cf_Mode c' = cf_Mode c \<and> cf_Listener c' = cf_Listener c \<and> cf_MultiPort c' = cf_MultiPort c \<and>
    cf_LogLevel c' = cf_LogLevel c \<and> list_all (\<lambda>n. known_source (nc_Source n)) (cf_Nodes c') \<and>
    prefix (mark_source NodeSourceInline (cf_Nodes c)) (cf_Nodes c')"
  using assms
  by (auto simp: load_sources_def Let_def list_all_iff known_source_def dest: set_mark_source
      split: if_splits sum.splits read_error.splits)

text \<open>Every setting that has a default is filled in: positive numbers, non-empty texts.\<close>

definition settings_filled :: "config \<Rightarrow> bool" where
  "settings_filled c \<longleftrightarrow>
     lc_Address (cf_Listener c) \<noteq> [] \<and> lc_Port (cf_Listener c) \<noteq> 0 \<and>
     mpc_Address (cf_MultiPort c) \<noteq> [] \<and> mpc_BasePort (cf_MultiPort c) \<noteq> 0 \<and>
     pc_Mode (cf_Pool c) \<noteq> [] \<and> 0 < pc_FailureThreshold (cf_Pool c) \<and>
     0 < pc_BlacklistDuration (cf_Pool c) \<and>
     mgc_Listen (cf_Management c) \<noteq> [] \<and> mgc_ProbeTarget (cf_Management c) \<noteq> [] \<and>
     mgc_Enabled (cf_Management c) \<noteq> None \<and>
     0 < rc_Interval (cf_SubscriptionRefresh c) \<and> 0 < rc_Timeout (cf_SubscriptionRefresh c) \<and>
     0 < rc_HealthCheckTimeout (cf_SubscriptionRefresh c) \<and>
     0 < rc_DrainTimeout (cf_SubscriptionRefresh c) \<and>
     0 < rc_MinAvailableNodes (cf_SubscriptionRefresh c)"

lemma default_positive_pos [simp]: "0 < d \<Longrightarrow> 0 < default_positive d i"
  by (simp add: default_positive_def)

lemma default_filled [simp]: "d \<noteq> [] \<Longrightarrow> default_string d t \<noteq> []" "e \<noteq> 0 \<Longrightarrow> default_port e q \<noteq> 0"
  by (simp_all add: default_string_def default_port_def)

lemma apply_defaults_filled:
  assumes "apply_defaults c0 = Inr c"
  shows "settings_filled c"
proof -
  have "0 < hour" "0 < second" by (simp_all add: hour_def second_def)
  moreover have "(case b of None \<Rightarrow> Some True | Some b \<Rightarrow> Some b) \<noteq> None" for b
    by (cases b) simp_all
  moreover note assms
  ultimately show ?thesis
    unfolding apply_defaults_def settings_filled_def refresh_defaults_def Let_def
    by (cases "normal_mode (cf_Mode c0) \<notin> {''pool'', ''multi-port'', ''hybrid''}") (simp, fastforce)
qed

lemma load_sources_keeps_settings:
  "load_sources env c d = (Inr c', d') \<Longrightarrow>
   cf_ConnectTimeout c' = cf_ConnectTimeout c \<and> settings_filled c' = settings_filled c"
  by (auto simp: load_sources_def settings_filled_def Let_def split: if_splits sum.splits read_error.splits)

lemma list_all2_set:
  "list_all2 P xs ys \<Longrightarrow> y \<in> set ys \<Longrightarrow> \<exists>x \<in> set xs. P x y"
  by (induction rule: list_all2_induct) auto

text \<open>The stages of a successful run.\<close>

lemma normalize_stages:
  assumes "normalize env c0 d = Some (Inr c, d')"
  obtains c1 c2 ns where
    "apply_defaults c0 = Inr c1"
    "load_sources env (c1\<lparr>cf_ConnectTimeout := default_positive (15 * second) (cf_ConnectTimeout c1)\<rparr>) d = (Inr c2, d')"
    "assign_nodes env c2 0 (mpc_BasePort (cf_MultiPort c2)) (cf_Nodes c2) = Some (Inr ns)"
    "c = c2\<lparr>cf_Nodes := cf_Nodes c, cf_LogLevel := default_string ''info'' (cf_LogLevel c2)\<rparr>"
    "cf_Mode c2 = ''hybrid'' \<longrightarrow>
       fix_conflicts (ce_free env (mpc_Address (cf_MultiPort c2))) (lc_Port (cf_Listener c2))
         (insert (lc_Port (cf_Listener c2)) (nc_Port ` set ns)) ns = Some (Inr (cf_Nodes c))"
    "cf_Mode c2 \<noteq> ''hybrid'' \<longrightarrow> cf_Nodes c = ns"
  using assms
  by (auto simp: normalize_def Let_def split: sum.splits prod.splits option.splits if_splits)

text \<open>
  C31. The first load.  A configuration that normalises successfully has one of the three modes, and
  every setting with a default is filled in: addresses, ports, pool mode, management address,
  probe target and log level are not empty, and the failure threshold, the blacklist duration, the
  connection timeout and the settings of the subscription refresh are positive.  Each of its nodes
  has a known source, a name, and a URI without white space at its ends that is not empty.  In
  hybrid mode no node uses the pool's port.
\<close>

theorem normalize_postcondition:
  assumes "normalize env c0 d = Some (Inr c, d')"
  shows "cf_Mode c \<in> {''pool'', ''multi-port'', ''hybrid''} \<and> settings_filled c \<and>
    0 < cf_ConnectTimeout c \<and> cf_LogLevel c \<noteq> [] \<and>
    list_all (\<lambda>n. known_source (nc_Source n) \<and> nc_Name n \<noteq> [] \<and> nc_URI n \<noteq> [] \<and> trimmed (nc_URI n))
      (cf_Nodes c) \<and>
    (cf_Mode c = ''hybrid'' \<longrightarrow> list_all (\<lambda>n. nc_Port n \<noteq> lc_Port (cf_Listener c)) (cf_Nodes c))"
proof -
  from assms obtain c1 c2 ns where
    c1: "apply_defaults c0 = Inr c1" and
    c2: "load_sources env (c1\<lparr>cf_ConnectTimeout := default_positive (15 * second) (cf_ConnectTimeout c1)\<rparr>) d = (Inr c2, d')" and
    ns: "assign_nodes env c2 0 (mpc_BasePort (cf_MultiPort c2)) (cf_Nodes c2) = Some (Inr ns)" and
    c: "c = c2\<lparr>cf_Nodes := cf_Nodes c, cf_LogLevel := default_string ''info'' (cf_LogLevel c2)\<rparr>" and
    hyb: "cf_Mode c2 = ''hybrid'' \<longrightarrow>
       fix_conflicts (ce_free env (mpc_Address (cf_MultiPort c2))) (lc_Port (cf_Listener c2))
         (insert (lc_Port (cf_Listener c2)) (nc_Port ` set ns)) ns = Some (Inr (cf_Nodes c))" and
    plain: "cf_Mode c2 \<noteq> ''hybrid'' \<longrightarrow> cf_Nodes c = ns"
    by (rule normalize_stages)
  have mode: "cf_Mode c = cf_Mode c2" "cf_Listener c = cf_Listener c2"
    by (subst c, simp)+
  have level: "cf_LogLevel c \<noteq> []"
    by (subst c) (simp add: default_string_def)
  have "settings_filled c = settings_filled c2" "cf_ConnectTimeout c = cf_ConnectTimeout c2"
    by (subst c, simp add: settings_filled_def)+
  then have filled: "settings_filled c \<and> 0 < cf_ConnectTimeout c"
    using load_sources_keeps_settings [OF c2] apply_defaults_filled [OF c1]
    by (simp add: settings_filled_def second_def)
  note def = apply_defaults_fields [OF c1] and keep = load_sources_keeps [OF c2]
  have good: "known_source (nc_Source n) \<and> nc_Name n \<noteq> [] \<and> nc_URI n \<noteq> [] \<and> trimmed (nc_URI n)"
    if "n \<in> set ns" for n
  proof -
    from list_all2_set [OF assign_nodes_spec [OF ns] that] obtain m where
      "m \<in> set (cf_Nodes c2)" "normalized_node env c2 m n" by blast
    with keep show ?thesis
      by (auto simp: normalized_node_def list_all_iff)
  qed
  have "list_all (\<lambda>n. known_source (nc_Source n) \<and> nc_Name n \<noteq> [] \<and> nc_URI n \<noteq> [] \<and> trimmed (nc_URI n))
      (cf_Nodes c) \<and>
    (cf_Mode c = ''hybrid'' \<longrightarrow> list_all (\<lambda>n. nc_Port n \<noteq> lc_Port (cf_Listener c)) (cf_Nodes c))"
  proof (cases "cf_Mode c2 = ''hybrid''")
    case False
    with plain good mode show ?thesis by (simp add: list_all_iff)
  next
    case True
    with hyb have moved: "list_all2 (\<lambda>n n'. n' = n\<lparr>nc_Port := nc_Port n'\<rparr> \<and>
        (nc_Port n \<noteq> lc_Port (cf_Listener c2) \<longrightarrow> n' = n) \<and> nc_Port n' \<noteq> lc_Port (cf_Listener c2))
        ns (cf_Nodes c)"
      using fix_conflicts_spec [of "lc_Port (cf_Listener c2)"] by blast
    have "known_source (nc_Source n) \<and> nc_Name n \<noteq> [] \<and> nc_URI n \<noteq> [] \<and> trimmed (nc_URI n) \<and>
        nc_Port n \<noteq> lc_Port (cf_Listener c2)" if "n \<in> set (cf_Nodes c)" for n
    proof -
      from list_all2_set [OF moved that] obtain m where
        m: "m \<in> set ns" "n = m\<lparr>nc_Port := nc_Port n\<rparr>" "nc_Port n \<noteq> lc_Port (cf_Listener c2)" by blast
      have "nc_Source n = nc_Source m" "nc_Name n = nc_Name m" "nc_URI n = nc_URI m"
        by (subst m(2), simp)+
      with good [OF m(1)] m(3) show ?thesis by simp
    qed
    with mode show ?thesis by (simp add: list_all_iff)
  qed
  with def keep mode level filled show ?thesis by auto
qed

text \<open>An empty disk on which everything can be written.\<close>

definition empty_disk :: disk where
  "empty_disk = \<lparr>dk_files = Map.empty, dk_read_err = Map.empty, dk_write_err = Map.empty,
     dk_write_left = Map.empty\<rparr>"

definition demo_normalized :: config where
  "demo_normalized =
     (let c = projr (apply_defaults (demo_config ''hybrid'' [demo_node ''a'' 2323]))
      in c\<lparr>cf_Nodes := [(demo_node ''a'' 2324)\<lparr>nc_Source := NodeSourceInline\<rparr>],
           cf_LogLevel := ''info'', cf_ConnectTimeout := 15 * second\<rparr>)"

lemma demo_normalize:
  "normalize (demo_cfg_env (\<lambda>p. p \<noteq> 0)) (demo_config ''hybrid'' [demo_node ''a'' 2323]) empty_disk =
     Some (Inr demo_normalized, empty_disk)"
  by (simp add: normalize_def demo_normalized_def demo_config_def apply_defaults_def
      normal_mode_def zero_config_def Let_def demo_node_def uri_node_def trim_node_def
      node_name_def multi_mode_def default_string_def default_port_def default_positive_def
      default_creds_def load_sources_def mark_source_def port_scan_busy port_scan_done demo_cfg_env_def)

theorem normalize_postcondition_witness:
  "cf_Mode demo_normalized = ''hybrid'' \<and> map nc_Port (cf_Nodes demo_normalized) = [2324] \<and>
   settings_filled demo_normalized \<and>
   list_all (\<lambda>n. nc_Port n \<noteq> lc_Port (cf_Listener demo_normalized)) (cf_Nodes demo_normalized)"
proof -
  have "cf_Mode demo_normalized = ''hybrid''" "map nc_Port (cf_Nodes demo_normalized) = [2324]"
    by (simp_all add: demo_normalized_def demo_config_def apply_defaults_def normal_mode_def Let_def
        demo_node_def)
  with normalize_postcondition [OF demo_normalize] show ?thesis by simp
qed

text \<open>
  What the first normalisation does not guarantee.  It gives a node a port that another node
  has explicitly, and its cursor goes round to port 0, which can always be bound.
\<close>

lemma normalize_duplicate_ports:
  "map_option (map_sum id (map nc_Port))
     (assign_nodes (demo_cfg_env (\<lambda>_. True)) (demo_config ''multi-port'' []) 0 28000
        [demo_node ''a'' 0, demo_node ''b'' 28000]) = Some (Inr [28000, 28000])"
  by (simp add: demo_config_def Let_def demo_node_def uri_node_def trim_node_def node_name_def
      multi_mode_def default_creds_def zero_config_def port_scan_done demo_cfg_env_def)

lemma normalize_port_zero:
  "map_option (map_sum id (map nc_Port))
     (assign_nodes (demo_cfg_env (\<lambda>_. True)) (demo_config ''multi-port'' []) 0 65535
        [demo_node ''a'' 0, demo_node ''b'' 0]) = Some (Inr [65535, 0])"
  by (simp add: demo_config_def Let_def demo_node_def uri_node_def trim_node_def node_name_def
      multi_mode_def default_creds_def zero_config_def port_scan_done demo_cfg_env_def)

section \<open>The nodes file\<close>

text \<open>
  The cached subscription.  When subscriptions delivered nodes that fit on a line each and
  the file can be written, the nodes file then holds exactly these nodes, in order: reading it
  back gives their URIs.  Without a configured path it is \<open>nodes.txt\<close> beside the configuration.
\<close>

theorem subscription_cached:
  assumes "gather_subscriptions env (cf_Subscriptions c) = nodes" and "nodes \<noteq> []"
    and "list_all (\<lambda>n. line_uri (nc_URI n)) nodes"
    and "dk_write_err d (nodes_file_path c) = None" and "dk_read_err d (nodes_file_path c) = None"
  shows "case load_sources env c d of (r, d') \<Rightarrow>
    loadNodesFromFile (nodes_file_path c) d' = Inr (map (\<lambda>n. uri_node (nc_URI n)) nodes) \<and>
    map_sum id cf_NodesFile r = Inr (nodes_file_path c) \<and>
    map_sum id cf_Nodes r =
      Inr (mark_source NodeSourceInline (cf_Nodes c) @ mark_source NodeSourceSubscription nodes)"
proof -
  have subs: "cf_Subscriptions c \<noteq> []"
    using assms(1,2) by auto
  have marked: "mark_source NodeSourceSubscription nodes \<noteq> []"
    using assms(2) by (simp add: mark_source_def)
  have content: "nodes_text (mark_source NodeSourceSubscription nodes) = nodes_text nodes"
    by (simp add: nodes_text_def mark_source_def comp_def)
  have path: "nodes_file_path (c\<lparr>cf_Nodes := x\<rparr>) = nodes_file_path c" for x
    by (simp add: nodes_file_path_def)
  show ?thesis
    using assms subs marked
    by (simp add: load_sources_def Let_def path writeNodesToFile_def WriteFile_def loadNodesFromFile_def
        ReadFile_def content parse_nodes_text list_all_iff)
qed

definition demo_subscribed :: config where
  "demo_subscribed = zero_config\<lparr>cf_Subscriptions := [''u''], cf_filePath := ''/etc/config.yaml''\<rparr>"

definition demo_http_env :: cfg_env where
  "demo_http_env = (demo_cfg_env (\<lambda>_. True))\<lparr>ce_http := (\<lambda>_ _. Response 200 ''ss://YQ@h:1#x'')\<rparr>"

theorem subscription_cached_witness:
  "case load_sources demo_http_env demo_subscribed empty_disk of (r, d') \<Rightarrow>
    loadNodesFromFile ''/etc/nodes.txt'' d' = Inr [uri_node ''ss://YQ@h:1#x''] \<and>
    map_sum id cf_NodesFile r = Inr ''/etc/nodes.txt''"
proof -
  have path: "nodes_file_path demo_subscribed = ''/etc/nodes.txt''"
    by code_simp
  have got: "gather_subscriptions demo_http_env (cf_Subscriptions demo_subscribed) =
      [uri_node ''ss://YQ@h:1#x'']"
    by code_simp
  have "trimmed ''ss://YQ@h:1#x''"
    by (simp add: trimmed_def no_front_def white_space_def)
  moreover have "isProxyURI ''ss://YQ@h:1#x''"
    by code_simp
  ultimately have "list_all (\<lambda>n. line_uri (nc_URI n)) [uri_node ''ss://YQ@h:1#x'']"
    by (simp add: line_uri_def uri_node_def)
  then have "case load_sources demo_http_env demo_subscribed empty_disk of (r, d') \<Rightarrow>
    loadNodesFromFile (nodes_file_path demo_subscribed) d' =
      Inr (map (\<lambda>n. uri_node (nc_URI n)) [uri_node ''ss://YQ@h:1#x'']) \<and>
    map_sum id cf_NodesFile r = Inr (nodes_file_path demo_subscribed) \<and>
    map_sum id cf_Nodes r = Inr (mark_source NodeSourceInline (cf_Nodes demo_subscribed) @
      mark_source NodeSourceSubscription [uri_node ''ss://YQ@h:1#x''])"
    by (intro subscription_cached [OF got]) (simp_all add: empty_disk_def)
  then show ?thesis
    unfolding path by (auto simp: uri_node_def)
qed

end
