(* ===== verification/Config_Geo.thy ===== *)
theory Config_Geo
  imports Config_Load
begin

text \<open>
  GeoIP metadata of the configured nodes (\<open>internal/config/geoip.go\<close>): the server host of a node's
  URI, and the attachment of the looked-up location.  \<open>json_add\<close> reads the field \<open>add\<close> of a VMess
  JSON payload; \<open>lookup\<close> is the resolver's \<open>LookupHost\<close>.  The workers are independent, so their
  joint effect is a map over the nodes.  The context reaches the lookups alone; that it ends midway,
  so that the same host is answered once and refused once, is not modelled.
\<close>

definition NeedsGeo :: "node_filter \<Rightarrow> bool" where
  "NeedsGeo f \<longleftrightarrow> ToLower (TrimSpace (nf_Target f)) \<in> {''geo'', ''name_or_geo''}"

definition extractHostFromVMessURI :: "(string \<Rightarrow> string option) \<Rightarrow> string \<Rightarrow> string + string" where
  "extractHostFromVMessURI json_add uri =
     (let encoded = TrimSpace (TrimPrefix uri ''vmess://'') in
      if encoded = [] then Inl ''vmess missing payload''
      else
        (case decodeBase64Any encoded of
           None \<Rightarrow> Inl ''decode vmess base64''
         | Some text \<Rightarrow>
             (case json_add text of
                None \<Rightarrow> Inl ''parse vmess json''
              | Some add \<Rightarrow>
                  if TrimSpace add = [] then Inl ''vmess missing server address''
                  else Inr (TrimSpace add))))"

definition extractNodeServerHost :: "(string \<Rightarrow> string option) \<Rightarrow> string \<Rightarrow> string + string" where
  "extractNodeServerHost json_add raw =
     (let uri = TrimSpace raw in
      if uri = [] then Inl ''empty uri''
      else
        (case url_Parse uri of
           None \<Rightarrow> Inl ''parse uri''
         | Some u \<Rightarrow>
             if ToLower (TrimSpace (u_Scheme u)) = ''vmess'' then extractHostFromVMessURI json_add uri
             else
               (let host = TrimSpace (url_Hostname u)
                in if host = [] then Inl ''missing host'' else Inr host)))"

definition geo_known :: "node_config \<Rightarrow> bool" where
  "geo_known n \<longleftrightarrow>
     (case nc_Geo n of None \<Rightarrow> False | Some g \<Rightarrow> gi_Error g = [] \<and> gi_CountryCode g \<noteq> [])"

definition populate_node ::
  "(string \<Rightarrow> string option) \<Rightarrow> (string \<Rightarrow> string + geo_info) \<Rightarrow> node_config \<Rightarrow> node_config" where
  "populate_node json_add lookup n =
     (if geo_known n then n
      else
        (case extractNodeServerHost json_add (nc_URI n) of
           Inl err \<Rightarrow> n\<lparr>nc_Geo := Some (empty_geo\<lparr>gi_Error := err\<rparr>)\<rparr>
         | Inr host \<Rightarrow>
             (case lookup host of
                Inl err \<Rightarrow> n\<lparr>nc_Geo := Some (empty_geo\<lparr>gi_Error := err\<rparr>)\<rparr>
              | Inr info \<Rightarrow> n\<lparr>nc_Geo := Some (info\<lparr>gi_Error := []\<rparr>)\<rparr>)))"

definition PopulateNodeGeo ::
  "(string \<Rightarrow> string option) \<Rightarrow> (string \<Rightarrow> string + geo_info) \<Rightarrow> config \<Rightarrow> config" where
  "PopulateNodeGeo json_add lookup c =
     c\<lparr>cf_Nodes := map (populate_node json_add lookup) (cf_Nodes c)\<rparr>"

text \<open>
  A Clash VMess proxy is converted to \<open>vmess://uuid@server:port\<close>, which the host extraction takes
  for a base64 payload: such a node never gets a location, although its host is in the URI.
\<close>

lemma clash_vmess_has_no_host:
  "isl (extractNodeServerHost json_add ''vmess://id@h.example:443#n'')"
proof -
  have trim: "trimmed ''vmess://id@h.example:443#n''" "trimmed ''id@h.example:443#n''"
    by (simp_all add: trimmed_def no_front_def white_space_def)
  have url: "map_option u_Scheme (url_Parse ''vmess://id@h.example:443#n'') = Some ''vmess''"
    "ToLower (TrimSpace ''vmess'') = ''vmess''"
    by code_simp+
  have "decodeBase64Any ''id@h.example:443#n'' = None"
    by code_simp
  then show ?thesis
    using url
    by (auto simp: extractNodeServerHost_def extractHostFromVMessURI_def Let_def
        TrimSpace_trimmed [OF trim(1)] TrimSpace_trimmed [OF trim(2)] TrimPrefix_def HasPrefix_def)
qed

end
