(* ===== verification/Box_Manager.thy ===== *)
theory Box_Manager
  imports Pool_Traffic Config_Ports Config_Geo
begin

text \<open>
  The box manager (\<open>internal/boxmgr/manager.go\<close>): the lifecycle of the sing-box instance (start
  with retries on port conflicts, reload with rollback, close), the nodes of the configuration
  that the web interface creates, updates and deletes, and the settings it takes from it.

  An instance is a number; \<open>bm_running\<close> are the instances that were started and not closed.  The
  record \<open>bm_env\<close> is what the manager meets: the outcome of building and starting an instance
  (\<open>builder.Build\<close>, \<open>box.New\<close>, \<open>instance.Start\<close>, \<open>instance.Close\<close>), what creating and starting
  it registers in the world of the pools, and the outside of the configuration.  Logging and the
  waiting times are left out.  The monitor's HTTP server is only present or absent.
\<close>

section \<open>State\<close>

definition defaultDrainTimeout :: duration where "defaultDrainTimeout = 10 * second"
definition defaultHealthCheckTimeout :: duration where "defaultHealthCheckTimeout = 30 * second"
definition healthCheckPollInterval :: duration where "healthCheckPollInterval = 500 * 1000000"

datatype bm_error =
    ErrNodeNotFound
  | ErrNameConflict string
  | ErrPortConflict port
  | ErrInvalidNode
  | ErrConfigUnavailable
  | ErrContext string
  | Failed string
  | NilPanic

datatype build_error = NoValidNodes string | BuildError string

record bm_env =
  be_cfg :: cfg_env
  be_json_add :: "string \<Rightarrow> string option"
  be_lookup :: "string \<Rightarrow> string + geo_info"
  be_build :: "config \<Rightarrow> build_error option"
  be_new :: "nat \<Rightarrow> config \<Rightarrow> string option"
  be_start :: "nat \<Rightarrow> config \<Rightarrow> string option"
  be_close :: "nat \<Rightarrow> string option"
  be_world :: "nat \<Rightarrow> config \<Rightarrow> pool_world \<Rightarrow> pool_world"

record bm_state =
  bm_currentBox :: "nat option"
  bm_monitorMgr :: bool
  bm_monitorServer :: bool
  bm_cfg :: "config option"
  bm_monitorCfg :: monitor_config
  bm_drainTimeout :: duration
  bm_minAvailableNodes :: int
  bm_baseCtx :: bool
  bm_healthCheckStarted :: bool
  bm_running :: "nat set"
  bm_nextBox :: nat
  bm_world :: pool_world
  bm_disk :: disk

section \<open>Settings, creation and closing\<close>

definition applyConfigSettings :: "config option \<Rightarrow> bm_state \<Rightarrow> bm_state" where
  "applyConfigSettings co s =
     (case co of
        None \<Rightarrow> s
      | Some c \<Rightarrow>
          (let drain = rc_DrainTimeout (cf_SubscriptionRefresh c) in
           s\<lparr>bm_drainTimeout :=
               (if 0 < drain then drain
                else if bm_drainTimeout s = 0 then defaultDrainTimeout else bm_drainTimeout s),
             bm_minAvailableNodes := rc_MinAvailableNodes (cf_SubscriptionRefresh c)\<rparr>))"

definition New :: "config option \<Rightarrow> monitor_config \<Rightarrow> pool_world \<Rightarrow> disk \<Rightarrow> bm_state" where
  "New co mcfg w d =
     (let s = applyConfigSettings co
           \<lparr>bm_currentBox = None, bm_monitorMgr = False, bm_monitorServer = False, bm_cfg = co,
            bm_monitorCfg = mcfg, bm_drainTimeout = 0, bm_minAvailableNodes = 0,
            bm_baseCtx = False, bm_healthCheckStarted = False, bm_running = {}, bm_nextBox = 0,
            bm_world = w, bm_disk = d\<rparr>
      in if bm_drainTimeout s \<le> 0 then s\<lparr>bm_drainTimeout := defaultDrainTimeout\<rparr> else s)"

definition ensureMonitor :: "bm_state \<Rightarrow> bm_state" where
  "ensureMonitor s =
     (if bm_monitorMgr s then s
      else
        s\<lparr>bm_monitorMgr := True, bm_world := NewManager (bm_monitorCfg s) (bm_world s),
          bm_monitorServer := (if mc_Enabled (bm_monitorCfg s) then True else bm_monitorServer s)\<rparr>)"

text \<open>
  Closing an instance: it does not run any more.  Its error is returned by \<open>Close\<close> and only logged
  by \<open>Reload\<close>.
\<close>

definition close_box :: "nat option \<Rightarrow> bm_state \<Rightarrow> bm_state" where
  "close_box bo s = (case bo of None \<Rightarrow> s | Some b \<Rightarrow> s\<lparr>bm_running := bm_running s - {b}\<rparr>)"

definition bm_Close :: "bm_env \<Rightarrow> bm_state \<Rightarrow> string option \<times> bm_state" where
  "bm_Close env s =
     (case bm_currentBox s of None \<Rightarrow> None | Some b \<Rightarrow> be_close env b,
      (close_box (bm_currentBox s) s)
        \<lparr>bm_currentBox := None, bm_monitorServer := False, bm_monitorMgr := False,
         bm_healthCheckStarted := (if bm_monitorMgr s then False else bm_healthCheckStarted s),
         bm_baseCtx := False\<rparr>)"

section \<open>Creating and starting an instance\<close>

definition cloneNodes :: "node_config list \<Rightarrow> node_config list" where
  "cloneNodes ns = ns"

definition copyConfig :: "bm_state \<Rightarrow> config option" where
  "copyConfig s = map_option (\<lambda>c. c\<lparr>cf_Nodes := cloneNodes (cf_Nodes c)\<rparr>) (bm_cfg s)"

text \<open>The configuration that the builder gets: a clone, with locations when the filter needs them.\<close>

definition cfg_for_build :: "bm_env \<Rightarrow> config \<Rightarrow> config" where
  "cfg_for_build env c =
     (let c1 = c\<lparr>cf_Nodes := cloneNodes (cf_Nodes c)\<rparr>; f = cf_NodeFilter c1 in
      if NeedsGeo f \<and> (nf_Include f \<noteq> [] \<or> nf_Exclude f \<noteq> [])
      then PopulateNodeGeo (be_json_add env) (be_lookup env) c1 else c1)"

definition createBox :: "bm_env \<Rightarrow> config option \<Rightarrow> bm_state \<Rightarrow> (build_error + nat) \<times> bm_state" where
  "createBox env co s =
     (case co of
        None \<Rightarrow> (Inl (BuildError ''config is nil''), s)
      | Some c \<Rightarrow>
          if \<not> bm_monitorMgr s then (Inl (BuildError ''monitor manager not initialized''), s)
          else
            (case be_build env (cfg_for_build env c) of
               Some (NoValidNodes e) \<Rightarrow> (Inl (NoValidNodes (''build sing-box options: '' @ e)), s)
             | Some (BuildError e) \<Rightarrow> (Inl (BuildError (''build sing-box options: '' @ e)), s)
             | None \<Rightarrow>
                 (let b = bm_nextBox s; s1 = s\<lparr>bm_nextBox := Suc b\<rparr> in
                  case be_new env b (cfg_for_build env c) of
                    Some e \<Rightarrow> (Inl (BuildError (''create sing-box instance: '' @ e)), s1)
                  | None \<Rightarrow>
                      (Inr b, s1\<lparr>bm_world := be_world env b (cfg_for_build env c) (bm_world s1)\<rparr>))))"

text \<open>
  The port in a bind error: the first match of
  \<open>listen tcp[46]? [^:]+:(\d+): bind: address already in use\<close>.
\<close>

definition bind_prefix :: string where
  "bind_prefix = ''listen tcp''"

definition bind_suffix :: string where
  "bind_suffix = '': bind: address already in use''"

definition match_bind :: "string \<Rightarrow> string option" where
  "match_bind t =
     (if \<not> HasPrefix t bind_prefix then None
      else
        (let r1 = drop (length bind_prefix) t;
             r2 = (if HasPrefix r1 ''4'' \<or> HasPrefix r1 ''6'' then tl r1 else r1) in
         if \<not> HasPrefix r2 '' '' then None
         else
           (let host = takeWhile (\<lambda>c. c \<noteq> CHR '':'') (tl r2);
                r3 = drop (length host) (tl r2) in
            if host = [] \<or> r3 = [] then None
            else
              (let digits = takeWhile is_digit (tl r3);
                   r4 = drop (length digits) (tl r3) in
               if digits \<noteq> [] \<and> HasPrefix r4 bind_suffix then Some digits else None))))"

fun find_bind :: "string \<Rightarrow> string option" where
  "find_bind [] = None"
| "find_bind (c # cs) = (case match_bind (c # cs) of Some d \<Rightarrow> Some d | None \<Rightarrow> find_bind cs)"

definition extractPortFromBindError :: "string \<Rightarrow> port" where
  "extractPortFromBindError err =
     (case find_bind err of
        None \<Rightarrow> 0
      | Some digits \<Rightarrow>
          (case Atoi digits of
             None \<Rightarrow> 0
           | Some p \<Rightarrow> if 0 < p \<and> p \<le> 65535 then of_int p else 0))"

text \<open>The first node on the conflicting port moves; \<open>None\<close> is a search that does not return.\<close>

definition bm_used_ports :: "config \<Rightarrow> port set" where
  "bm_used_ports c =
     (if cf_Mode c = ''hybrid'' then {lc_Port (cf_Listener c)} else {}) \<union> nc_Port ` set (cf_Nodes c)"

fun move_first :: "port \<Rightarrow> port \<Rightarrow> node_config list \<Rightarrow> node_config list" where
  "move_first p q [] = []"
| "move_first p q (n # ns) = (if nc_Port n = p then n\<lparr>nc_Port := q\<rparr> # ns else n # move_first p q ns)"

definition reassignConflictingPort ::
  "(string \<Rightarrow> port \<Rightarrow> bool) \<Rightarrow> port \<Rightarrow> config \<Rightarrow> (bool \<times> config) option" where
  "reassignConflictingPort free p c =
     (if \<forall>n \<in> set (cf_Nodes c). nc_Port n \<noteq> p then Some (False, c)
      else
        (let address = default_string ''0.0.0.0'' (mpc_Address (cf_MultiPort c)) in
         case port_scan (\<lambda>q. q \<in> bm_used_ports c \<or> \<not> free address q) ''no port'' (p + 1) of
           None \<Rightarrow> None
         | Some (Inl _) \<Rightarrow> Some (False, c)
         | Some (Inr q) \<Rightarrow> Some (True, c\<lparr>cf_Nodes := move_first p q (cf_Nodes c)\<rparr>)))"

text \<open>
  The retry loop of \<open>Start\<close> and \<open>Reload\<close>, with \<open>k\<close> rounds left and the instance of the last round.
  When the rounds run out the loop ends like after a success, with the instance of the last
  round, which is closed by then.  An instance whose start failed is closed, its error ignored; as
  it never counted as running, this changes nothing here (the same in \<open>rollbackToOldConfig\<close>).
\<close>

datatype boot_result = Booted "nat option" | NotCreated build_error | NotStarted string

fun boot_loop ::
  "bm_env \<Rightarrow> nat \<Rightarrow> nat option \<Rightarrow> config option \<Rightarrow> bm_state \<Rightarrow>
   (boot_result \<times> config option \<times> bm_state) option" where
  "boot_loop env 0 lastBox co s = Some (Booted lastBox, co, s)"
| "boot_loop env (Suc k) lastBox co s =
     (case createBox env co s of
        (Inl e, s1) \<Rightarrow> Some (NotCreated e, co, s1)
      | (Inr b, s1) \<Rightarrow>
          (case be_start env b (the co) of
             None \<Rightarrow> Some (Booted (Some b), co, s1\<lparr>bm_running := insert b (bm_running s1)\<rparr>)
           | Some err \<Rightarrow>
               (let p = extractPortFromBindError err in
                if 0 < p then
                  (case reassignConflictingPort (ce_free (be_cfg env)) p (the co) of
                     None \<Rightarrow> None
                   | Some (False, c) \<Rightarrow> Some (NotStarted err, Some c, s1)
                   | Some (True, c) \<Rightarrow>
                       boot_loop env k (Some b) (Some c)
                         (s1\<lparr>bm_world := ResetSharedStateStore (bm_world s1)\<rparr>))
                else Some (NotStarted err, co, s1))))"

definition build_error_text :: "build_error \<Rightarrow> string" where
  "build_error_text e = (case e of NoValidNodes t \<Rightarrow> t | BuildError t \<Rightarrow> t)"

definition maxRetries :: nat where
  "maxRetries = 10"

definition start_health :: "bm_state \<Rightarrow> bm_state" where
  "start_health s =
     (if bm_monitorMgr s \<and> \<not> bm_healthCheckStarted s then s\<lparr>bm_healthCheckStarted := True\<rparr> else s)"

definition bm_Start :: "bm_env \<Rightarrow> bm_state \<Rightarrow> (bm_error option \<times> bm_state) option" where
  "bm_Start env s0 =
     (let s = ensureMonitor s0 in
      case bm_cfg s of
        None \<Rightarrow> Some (Some (Failed ''box manager requires config''), s)
      | Some c \<Rightarrow>
          if bm_currentBox s \<noteq> None then Some (Some (Failed ''sing-box already running''), s)
          else
            (case boot_loop env maxRetries None (bm_cfg s)
                    ((applyConfigSettings (bm_cfg s) s)\<lparr>bm_baseCtx := True\<rparr>) of
               None \<Rightarrow> None
             | Some (NotCreated (NoValidNodes e), co, s1) \<Rightarrow> Some (None, s1\<lparr>bm_cfg := co\<rparr>)
             | Some (NotCreated (BuildError e), co, s1) \<Rightarrow> Some (Some (Failed e), s1\<lparr>bm_cfg := co\<rparr>)
             | Some (NotStarted e, co, s1) \<Rightarrow>
                 Some (Some (Failed (''start sing-box: '' @ e)), s1\<lparr>bm_cfg := co\<rparr>)
             | Some (Booted bo, co, s1) \<Rightarrow>
                 Some (None, start_health (s1\<lparr>bm_cfg := co, bm_currentBox := bo\<rparr>))))"

definition rollbackToOldConfig :: "bm_env \<Rightarrow> config option \<Rightarrow> bm_state \<Rightarrow> bm_state" where
  "rollbackToOldConfig env oldCfg s =
     (if oldCfg = None then s
      else
        (case createBox env oldCfg s of
           (Inl e, s1) \<Rightarrow> s1
         | (Inr b, s1) \<Rightarrow>
             (case be_start env b (the oldCfg) of
                Some e \<Rightarrow> s1
              | None \<Rightarrow> s1\<lparr>bm_running := insert b (bm_running s1), bm_currentBox := Some b\<rparr>)))"

text \<open>The first half of \<open>Reload\<close>: the old instance is closed and the registries are cleared.\<close>

definition reload_begin :: "bm_state \<Rightarrow> bm_state" where
  "reload_begin s =
     (let s1 = (close_box (bm_currentBox s) s)\<lparr>bm_currentBox := None\<rparr>;
          w = ResetSharedStateStore (bm_world s1)
      in s1\<lparr>bm_world := (if bm_monitorMgr s1 then ResetNodes w else w)\<rparr>)"

text \<open>Its end after a success: the shared configuration object takes over the new one's fields.\<close>

definition reload_commit :: "nat option \<Rightarrow> config \<Rightarrow> bm_state \<Rightarrow> bm_state" where
  "reload_commit bo newCfg s =
     start_health
       ((applyConfigSettings (Some newCfg) s)
          \<lparr>bm_currentBox := bo,
           bm_cfg :=
             (case bm_cfg s of
                None \<Rightarrow> Some newCfg
              | Some old \<Rightarrow>
                  Some (if cf_filePath newCfg = [] \<and> cf_filePath old \<noteq> []
                        then newCfg\<lparr>cf_filePath := cf_filePath old\<rparr> else newCfg))\<rparr>)"

definition Reload ::
  "bm_env \<Rightarrow> config option \<Rightarrow> bm_state \<Rightarrow> (bm_error option \<times> bm_state) option" where
  "Reload env newCfg s0 =
     (case newCfg of
        None \<Rightarrow> Some (Some (Failed ''new config is nil''), s0)
      | Some c0 \<Rightarrow>
          (case boot_loop env maxRetries None (Some c0) (reload_begin s0) of
             None \<Rightarrow> None
           | Some (NotCreated e, co, s1) \<Rightarrow>
               Some (Some (Failed (''create new box: '' @ build_error_text e)),
                     rollbackToOldConfig env (bm_cfg s0) s1)
           | Some (NotStarted e, co, s1) \<Rightarrow>
               Some (Some (Failed (''start new box: '' @ e)), rollbackToOldConfig env (bm_cfg s0) s1)
           | Some (Booted bo, co, s1) \<Rightarrow> Some (None, reload_commit bo (the co) s1)))"

text \<open>\<open>gracefulSwitch\<close>: the old instance runs on until it is drained; \<open>drainOldBox\<close> then closes it.\<close>

definition gracefulSwitch :: "nat option \<Rightarrow> bm_state \<Rightarrow> bm_error option \<times> nat option \<times> bm_state" where
  "gracefulSwitch newBox s =
     (case newBox of
        None \<Rightarrow> (Some (Failed ''new box is nil''), None, s)
      | Some b \<Rightarrow> (None, bm_currentBox s, s\<lparr>bm_currentBox := Some b\<rparr>))"

definition drainOldBox :: "nat option \<Rightarrow> bm_state \<Rightarrow> bm_state" where
  "drainOldBox bo s = close_box bo s"

section \<open>Waiting for healthy nodes\<close>

definition availableNodeCount :: "bool \<Rightarrow> snapshot list \<Rightarrow> int \<times> int" where
  "availableNodeCount has_monitor snaps =
     (if \<not> has_monitor then (0, 0)
      else (int (length (filter (\<lambda>x. sn_InitialCheckDone x \<and> sn_Available x) snaps)),
            int (length snaps)))"

text \<open>
  The polling loop: each round has the snapshots it sees and the reading of the clock behind
  them.  \<open>None\<close> means that the given rounds are over and it still waits.
\<close>

fun poll_loop ::
  "int \<Rightarrow> time \<Rightarrow> (snapshot list \<times> time) list \<Rightarrow> string option option" where
  "poll_loop minNodes deadline [] = None"
| "poll_loop minNodes deadline ((snaps, now) # rounds) =
     (let (available, total) = availableNodeCount True snaps in
      if minNodes \<le> available then Some None
      else if deadline < now then
        Some (Some (''timeout: '' @ Itoa available @ ''/'' @ Itoa total @ '' nodes available (need >= '' @
          Itoa minNodes @ '')''))
      else poll_loop minNodes deadline rounds)"

definition waitForHealthCheck ::
  "bm_state \<Rightarrow> duration \<Rightarrow> time \<Rightarrow> (snapshot list \<times> time) list \<Rightarrow> string option option" where
  "waitForHealthCheck s timeout start rounds =
     (if \<not> bm_monitorMgr s \<or> bm_minAvailableNodes s \<le> 0 then Some None
      else
        poll_loop (bm_minAvailableNodes s)
          (start + (if timeout \<le> 0 then defaultHealthCheckTimeout else timeout)) rounds)"

section \<open>The nodes of the configuration\<close>

definition ListConfigNodes :: "bm_state \<Rightarrow> bm_error + node_config list" where
  "ListConfigNodes s =
     (case bm_cfg s of None \<Rightarrow> Inl ErrConfigUnavailable | Some c \<Rightarrow> Inr (cloneNodes (cf_Nodes c)))"

fun nodeIndex :: "string \<Rightarrow> node_config list \<Rightarrow> nat option" where
  "nodeIndex name [] = None"
| "nodeIndex name (n # ns) = (if nc_Name n = name then Some 0 else map_option Suc (nodeIndex name ns))"

definition portInUse :: "port \<Rightarrow> string \<Rightarrow> node_config list \<Rightarrow> bool" where
  "portInUse p currentName ns =
     (if p = 0 then False
      else list_ex (\<lambda>n. if nc_Name n = currentName then False else nc_Port n = p) ns)"

fun next_port :: "nat \<Rightarrow> port set \<Rightarrow> port \<Rightarrow> port \<Rightarrow> port" where
  "next_port 0 used base p = base"
| "next_port (Suc k) used base p =
     (if p \<notin> used \<and> p \<noteq> 0 then p
      else (let q = p + 1 in next_port k used base (if q = 0 then 1 else q)))"

definition nextAvailablePort :: "config \<Rightarrow> port" where
  "nextAvailablePort c =
     (let base = (if mpc_BasePort (cf_MultiPort c) = 0 then 24000 else mpc_BasePort (cf_MultiPort c));
          used = nc_Port ` set (filter (\<lambda>n. 0 < nc_Port n) (cf_Nodes c))
      in next_port (2 ^ 16) used base base)"

text \<open>The name of a node without one: the current name, the decoded fragment, a number.\<close>

definition prepared_name :: "config \<Rightarrow> string \<Rightarrow> node_config \<Rightarrow> string" where
  "prepared_name c currentName n =
     (if nc_Name n \<noteq> [] then nc_Name n
      else
        (let name =
               (if currentName \<noteq> [] then currentName
                else
                  (case LastIndex (nc_URI n) (CHR ''#'') of
                     None \<Rightarrow> []
                   | Some i \<Rightarrow>
                       if Suc i < length (nc_URI n)
                       then opt_string (QueryUnescape (drop (Suc i) (nc_URI n))) else []))
         in if name = [] then ''node-'' @ Itoa (int (length (cf_Nodes c)) + 1) else name))"

definition prepareNode :: "config \<Rightarrow> node_config \<Rightarrow> string \<Rightarrow> bm_error + node_config" where
  "prepareNode c n0 currentName =
     (let n1 = trim_node n0 in
      if nc_URI n1 = [] then Inl ErrInvalidNode
      else
        (let n = n1\<lparr>nc_Name := prepared_name c currentName n1\<rparr> in
         if (case nodeIndex (nc_Name n) (cf_Nodes c) of
               None \<Rightarrow> False
             | Some i \<Rightarrow> currentName = [] \<or> nc_Name (cf_Nodes c ! i) \<noteq> currentName)
         then Inl (ErrNameConflict (nc_Name n))
         else if cf_Mode c = ''multi-port'' then
           (if nc_Port n \<noteq> 0 \<and> portInUse (nc_Port n) currentName (cf_Nodes c)
            then Inl (ErrPortConflict (nc_Port n))
            else
              (let n2 = (if nc_Port n = 0 then n\<lparr>nc_Port := nextAvailablePort c\<rparr> else n) in
               Inr (if nc_Username n2 = []
                    then n2\<lparr>nc_Username := mpc_Username (cf_MultiPort c),
                            nc_Password := mpc_Password (cf_MultiPort c)\<rparr>
                    else n2)))
         else Inr n))"

text \<open>Saving the configuration with other nodes: on an error the nodes are as before.\<close>

definition save_nodes :: "bm_env \<Rightarrow> config \<Rightarrow> bm_state \<Rightarrow> string option \<times> bm_state" where
  "save_nodes env c s =
     (case Save (be_cfg env) (Some c) (bm_disk s) of
        (Some e, d) \<Rightarrow> (Some e, s\<lparr>bm_disk := d\<rparr>)
      | (None, d) \<Rightarrow> (None, s\<lparr>bm_disk := d, bm_cfg := Some c\<rparr>))"

definition CreateNode ::
  "bm_env \<Rightarrow> string option \<Rightarrow> node_config \<Rightarrow> bm_state \<Rightarrow> (bm_error + node_config) \<times> bm_state" where
  "CreateNode env ctx_err n s =
     (case ctx_err of
        Some e \<Rightarrow> (Inl (ErrContext e), s)
      | None \<Rightarrow>
          (case bm_cfg s of
             None \<Rightarrow> (Inl ErrConfigUnavailable, s)
           | Some c \<Rightarrow>
               (case prepareNode c n [] of
                  Inl e \<Rightarrow> (Inl e, s)
                | Inr m0 \<Rightarrow>
                    (let m = m0\<lparr>nc_Source :=
                           (if cf_Subscriptions c = [] \<and> cf_NodesFile c \<noteq> []
                            then NodeSourceFile else NodeSourceInline)\<rparr> in
                     case save_nodes env (c\<lparr>cf_Nodes := cf_Nodes c @ [m]\<rparr>) s of
                       (Some e, s') \<Rightarrow> (Inl (Failed (''save config: '' @ e)), s')
                     | (None, s') \<Rightarrow> (Inr m, s')))))"

definition UpdateNode ::
  "bm_env \<Rightarrow> string option \<Rightarrow> string \<Rightarrow> node_config \<Rightarrow> bm_state \<Rightarrow>
   (bm_error + node_config) \<times> bm_state" where
  "UpdateNode env ctx_err name0 n s =
     (case ctx_err of
        Some e \<Rightarrow> (Inl (ErrContext e), s)
      | None \<Rightarrow>
          (let name = TrimSpace name0 in
           case bm_cfg s of
             None \<Rightarrow> (Inl ErrConfigUnavailable, s)
           | Some c \<Rightarrow>
               (case nodeIndex name (cf_Nodes c) of
                  None \<Rightarrow> (Inl ErrNodeNotFound, s)
                | Some i \<Rightarrow>
                    (case prepareNode c n name of
                       Inl e \<Rightarrow> (Inl e, s)
                     | Inr m0 \<Rightarrow>
                         (let m = m0\<lparr>nc_Source := nc_Source (cf_Nodes c ! i)\<rparr> in
                          case save_nodes env (c\<lparr>cf_Nodes := (cf_Nodes c)[i := m]\<rparr>) s of
                            (Some e, s') \<Rightarrow> (Inl (Failed (''save config: '' @ e)), s')
                          | (None, s') \<Rightarrow> (Inr m, s'))))))"

definition DeleteNode ::
  "bm_env \<Rightarrow> string option \<Rightarrow> string \<Rightarrow> bm_state \<Rightarrow> bm_error option \<times> bm_state" where
  "DeleteNode env ctx_err name0 s =
     (case ctx_err of
        Some e \<Rightarrow> (Some (ErrContext e), s)
      | None \<Rightarrow>
          (let name = TrimSpace name0 in
           case bm_cfg s of
             None \<Rightarrow> (Some ErrConfigUnavailable, s)
           | Some c \<Rightarrow>
               (case nodeIndex name (cf_Nodes c) of
                  None \<Rightarrow> (Some ErrNodeNotFound, s)
                | Some i \<Rightarrow>
                    (case save_nodes env
                            (c\<lparr>cf_Nodes := take i (cf_Nodes c) @ drop (Suc i) (cf_Nodes c)\<rparr>) s of
                       (Some e, s') \<Rightarrow> (Some (Failed (''save config: '' @ e)), s')
                     | (None, s') \<Rightarrow> (None, s')))))"

section \<open>Reloading\<close>

definition CurrentPortMap :: "bm_state \<Rightarrow> port_map option" where
  "CurrentPortMap s = map_option BuildPortMap (bm_cfg s)"

text \<open>An empty map skips the normalisation.\<close>

definition ReloadWithPortMap ::
  "bm_env \<Rightarrow> config option \<Rightarrow> port_map \<Rightarrow> bm_state \<Rightarrow> (bm_error option \<times> bm_state) option" where
  "ReloadWithPortMap env newCfg portMap s =
     (case newCfg of
        None \<Rightarrow> Some (Some (Failed ''new config is nil''), s)
      | Some c \<Rightarrow>
          if portMap = Map.empty then Reload env (Some c) s
          else
            (case NormalizeWithPortMap (be_cfg env) portMap c of
               None \<Rightarrow> None
             | Some (Inl e) \<Rightarrow>
                 Some (Some (Failed (''normalize config with port map: '' @ e)), s)
             | Some (Inr c') \<Rightarrow> Reload env (Some c') s))"

text \<open>Without a configuration the port map is built through a nil pointer.\<close>

definition TriggerReload ::
  "bm_env \<Rightarrow> string option \<Rightarrow> bm_state \<Rightarrow> (bm_error option \<times> bm_state) option" where
  "TriggerReload env ctx_err s =
     (case ctx_err of
        Some e \<Rightarrow> Some (Some (ErrContext e), s)
      | None \<Rightarrow>
          (case bm_cfg s of
             None \<Rightarrow> Some (Some NilPanic, s)
           | Some c \<Rightarrow> ReloadWithPortMap env (copyConfig s) (BuildPortMap c) s))"

end
