(* ===== verification/Go_Ip.thy ===== *)
theory Go_Ip
  imports Go_Url
begin

text \<open>
  IP addresses of packages \<open>net/netip\<close> and \<open>net\<close>: \<open>ParseAddr\<close>, \<open>ParseIP\<close>, \<open>Addr.String\<close> and the
  tests of an address that the program uses.  The text of a parse error is not modelled.
\<close>

section \<open>Addresses\<close>

text \<open>An address is its octets, 4 or 16; an IPv6 address has a zone, empty without one.\<close>

datatype ip_addr = V4 "nat list" | V6 "nat list" string

section \<open>Parsing\<close>

text \<open>An octet: one to three digits without a leading zero, at most 255.\<close>

definition parse_octet :: "string \<Rightarrow> nat option" where
  "parse_octet s =
     (if s \<noteq> [] \<and> length s \<le> 3 \<and> list_all is_digit s \<and> (hd s = CHR ''0'' \<longrightarrow> length s = 1) \<and>
         digits_value s \<le> 255
      then Some (nat (digits_value s)) else None)"

fun sequence_options :: "'a option list \<Rightarrow> 'a list option" where
  "sequence_options [] = Some []"
| "sequence_options (None # xs) = None"
| "sequence_options (Some x # xs) = map_option (Cons x) (sequence_options xs)"

definition parse_v4 :: "string \<Rightarrow> nat list option" where
  "parse_v4 s =
     (let parts = Split s (CHR ''.'') in
      if length parts = 4 then sequence_options (map parse_octet parts) else None)"

definition is_hex :: "char \<Rightarrow> bool" where
  "is_hex c \<longleftrightarrow> hex_value c \<noteq> None"

definition hex_nat :: "string \<Rightarrow> nat" where
  "hex_nat s = foldl (\<lambda>a c. 16 * a + the (hex_value c)) 0 s"

text \<open>
  The groups of an IPv6 address.  \<open>acc\<close> holds the octets read so far, \<open>ell\<close> the position of the
  ellipsis; the result is both.  A group of decimal octets may end the address.
\<close>

function v6_groups :: "string \<Rightarrow> nat list \<Rightarrow> nat option \<Rightarrow> (nat list \<times> nat option) option" where
  "v6_groups s acc ell =
     (if 16 \<le> length acc then None
      else
        (let g = takeWhile is_hex s; r = drop (length g) s in
         if g = [] \<or> 4 < length g then None
         else if HasPrefix r ''.'' then
           (if ell = None \<and> length acc \<noteq> 12 \<or> 12 < length acc then None
            else map_option (\<lambda>os. (acc @ os, ell)) (parse_v4 s))
         else
           (let acc' = acc @ [hex_nat g div 256, hex_nat g mod 256] in
            if r = [] then Some (acc', ell)
            else if hd r \<noteq> CHR '':'' \<or> tl r = [] then None
            else if hd (tl r) = CHR '':'' then
              (if ell \<noteq> None then None
               else if tl (tl r) = [] then Some (acc', Some (length acc'))
               else v6_groups (tl (tl r)) acc' (Some (length acc')))
            else v6_groups (tl r) acc' ell)))"
  by pat_completeness auto
termination
  by (relation "measure (\<lambda>(s, acc, ell). 16 - length acc)") (auto simp: Let_def)

declare v6_groups.simps [simp del]

definition v6_expand :: "nat list \<times> nat option \<Rightarrow> nat list option" where
  "v6_expand p =
     (case p of
        (acc, None) \<Rightarrow> if length acc = 16 then Some acc else None
      | (acc, Some k) \<Rightarrow>
          if length acc < 16
          then Some (take k acc @ replicate (16 - length acc) 0 @ drop k acc) else None)"

definition parse_v6 :: "string \<Rightarrow> ip_addr option" where
  "parse_v6 s0 =
     (let (s, zone) = Cut s0 (CHR ''%'') in
      if zone = Some [] then None
      else
        map_option (\<lambda>os. V6 os (opt_string zone))
          (if s = ''::'' then Some (replicate 16 0)
           else if HasPrefix s ''::'' then Option.bind (v6_groups (drop 2 s) [] (Some 0)) v6_expand
           else Option.bind (v6_groups s [] None) v6_expand))"

text \<open>\<open>netip.ParseAddr\<close>: the first dot, colon or percent sign decides.\<close>

definition ParseAddr :: "string \<Rightarrow> ip_addr option" where
  "ParseAddr s =
     (case filter (\<lambda>c. c = CHR ''.'' \<or> c = CHR '':'' \<or> c = CHR ''%'') s of
        [] \<Rightarrow> None
      | c # _ \<Rightarrow>
          if c = CHR ''.'' then map_option V4 (parse_v4 s)
          else if c = CHR '':'' then parse_v6 s
          else None)"

text \<open>\<open>net.ParseIP\<close> admits the same addresses without a zone.\<close>

definition ParseIP :: "string \<Rightarrow> ip_addr option" where
  "ParseIP s =
     (case ParseAddr s of
        Some (V6 os zone) \<Rightarrow> if zone = [] then Some (V6 os zone) else None
      | r \<Rightarrow> r)"

section \<open>Printing\<close>

definition v4_text :: "nat list \<Rightarrow> string" where
  "v4_text os = Join (map Itoa_nat os) ''.''"

definition v6_words :: "nat list \<Rightarrow> nat list" where
  "v6_words os = map (\<lambda>i. 256 * os ! (2 * i) + os ! (2 * i + 1)) [0..<8]"

definition hex_digit :: "nat \<Rightarrow> char" where
  "hex_digit d = char_of (if d < 10 then 48 + d else 87 + d)"

fun hex_text :: "nat \<Rightarrow> string" where
  "hex_text n = (if n < 16 then [hex_digit n] else hex_text (n div 16) @ [hex_digit (n mod 16)])"

declare hex_text.simps [simp del]

text \<open>The first longest run of at least two zero words is left out.\<close>

fun zero_run :: "nat list \<Rightarrow> nat \<Rightarrow> nat \<times> nat \<Rightarrow> nat \<times> nat" where
  "zero_run [] i best = best"
| "zero_run (w # ws) i best =
     (let n = length (takeWhile (\<lambda>x. x = 0) (w # ws)) in
      zero_run ws (Suc i) (if 2 \<le> n \<and> snd best < n then (i, n) else best))"

definition v6_text :: "nat list \<Rightarrow> string" where
  "v6_text os =
     (let ws = v6_words os; (i, n) = zero_run ws 0 (0, 0) in
      if n = 0 then Join (map hex_text ws) '':''
      else Join (map hex_text (take i ws)) '':'' @ ''::'' @ Join (map hex_text (drop (i + n) ws)) '':'')"

definition is_4in6 :: "nat list \<Rightarrow> bool" where
  "is_4in6 os \<longleftrightarrow> take 12 os = replicate 10 0 @ [255, 255]"

definition addr_String :: "ip_addr \<Rightarrow> string" where
  "addr_String a =
     (case a of
        V4 os \<Rightarrow> v4_text os
      | V6 os zone \<Rightarrow>
          (if is_4in6 os then ''::ffff:'' @ v4_text (drop 12 os) else v6_text os) @
          (if zone = [] then [] else CHR ''%'' # zone))"

section \<open>Kinds of addresses\<close>

text \<open>An IPv4 address in IPv6 form is judged as the IPv4 address.\<close>

definition addr_Unmap :: "ip_addr \<Rightarrow> ip_addr" where
  "addr_Unmap a = (case a of V6 os zone \<Rightarrow> if is_4in6 os then V4 (drop 12 os) else a | _ \<Rightarrow> a)"

definition IsPrivate :: "ip_addr \<Rightarrow> bool" where
  "IsPrivate a =
     (case addr_Unmap a of
        V4 os \<Rightarrow> os ! 0 = 10 \<or> os ! 0 = 172 \<and> os ! 1 div 16 = 1 \<or> os ! 0 = 192 \<and> os ! 1 = 168
      | V6 os _ \<Rightarrow> os ! 0 div 2 = 126)"

definition IsLoopback :: "ip_addr \<Rightarrow> bool" where
  "IsLoopback a =
     (case addr_Unmap a of V4 os \<Rightarrow> os ! 0 = 127 | V6 os _ \<Rightarrow> os = replicate 15 0 @ [1])"

definition IsMulticast :: "ip_addr \<Rightarrow> bool" where
  "IsMulticast a = (case addr_Unmap a of V4 os \<Rightarrow> os ! 0 div 16 = 14 | V6 os _ \<Rightarrow> os ! 0 = 255)"

definition IsUnspecified :: "ip_addr \<Rightarrow> bool" where
  "IsUnspecified a \<longleftrightarrow> a = V4 [0, 0, 0, 0] \<or> a = V6 (replicate 16 0) []"

definition IsLinkLocalUnicast :: "ip_addr \<Rightarrow> bool" where
  "IsLinkLocalUnicast a =
     (case addr_Unmap a of
        V4 os \<Rightarrow> os ! 0 = 169 \<and> os ! 1 = 254 | V6 os _ \<Rightarrow> os ! 0 = 254 \<and> os ! 1 div 64 = 2)"

definition IsLinkLocalMulticast :: "ip_addr \<Rightarrow> bool" where
  "IsLinkLocalMulticast a =
     (case addr_Unmap a of
        V4 os \<Rightarrow> os ! 0 = 224 \<and> os ! 1 = 0 \<and> os ! 2 = 0
      | V6 os _ \<Rightarrow> os ! 0 = 255 \<and> os ! 1 mod 16 = 2)"
section \<open>Printed IPv4 addresses are read back\<close>

lemma digit_char_zero: "d < 10 \<Longrightarrow> digit_char d = CHR ''0'' \<longleftrightarrow> d = 0"
proof -
  have z: "digit_value (CHR ''0'') = 0" by code_simp
  assume "d < 10"
  then have "digit_value (digit_char d) = int d" by (simp add: digit_char_value)
  moreover have "digit_char 0 = CHR ''0''" by code_simp
  ultimately show ?thesis using z by auto
qed

lemma Itoa_nat_short:
  "n < 10 \<Longrightarrow> Itoa_nat n = [digit_char n]"
  "10 \<le> n \<Longrightarrow> n < 100 \<Longrightarrow> Itoa_nat n = [digit_char (n div 10), digit_char (n mod 10)]"
  "100 \<le> n \<Longrightarrow> n < 1000 \<Longrightarrow>
   Itoa_nat n = [digit_char (n div 100), digit_char (n div 10 mod 10), digit_char (n mod 10)]"
proof -
  show one: "Itoa_nat n = [digit_char n]" if "n < 10" for n
    using that by (subst Itoa_nat.simps) simp
  show two: "Itoa_nat n = [digit_char (n div 10), digit_char (n mod 10)]" if "10 \<le> n" "n < 100" for n
    using that one [of "n div 10"] by (subst Itoa_nat.simps) simp
  show "Itoa_nat n = [digit_char (n div 100), digit_char (n div 10 mod 10), digit_char (n mod 10)]"
    if "100 \<le> n" "n < 1000" for n
    using that two [of "n div 10"] by (subst Itoa_nat.simps) (simp add: div_mult2_eq [symmetric])
qed

lemma parse_octet_Itoa:
  assumes "n < 256"
  shows "parse_octet (Itoa_nat n) = Some n"
proof -
  have "length (Itoa_nat n) \<le> 3 \<and> (hd (Itoa_nat n) = CHR ''0'' \<longrightarrow> length (Itoa_nat n) = 1)"
  proof -
    consider "n < 10" | "10 \<le> n" "n < 100" | "100 \<le> n" "n < 1000" using assms by linarith
    then show ?thesis
    proof cases
      case 2
      then have "digit_char (n div 10) \<noteq> CHR ''0''" using digit_char_zero [of "n div 10"] by auto
      then show ?thesis using 2 by (simp add: Itoa_nat_short)
    next
      case 3
      then have "digit_char (n div 100) \<noteq> CHR ''0''" using digit_char_zero [of "n div 100"] by auto
      then show ?thesis using 3 by (simp add: Itoa_nat_short)
    qed (simp add: Itoa_nat_short)
  qed
  then show ?thesis
    using assms Itoa_nat_digits [of n] by (simp add: parse_octet_def)
qed

lemma Itoa_nat_no_mark: "c \<in> {CHR ''.'', CHR '':'', CHR ''%''} \<Longrightarrow> c \<notin> set (Itoa_nat n)"
  using Itoa_nat_digits [of n] by (auto simp: list_all_iff is_digit_def less_eq_char_def)

lemma ParseAddr_v4:
  assumes "a < 256" "b < 256" "c < 256" "d < 256"
  shows "ParseAddr (v4_text [a, b, c, d]) = Some (V4 [a, b, c, d])"
proof -
  have "filter (\<lambda>x. x = CHR ''.'' \<or> x = CHR '':'' \<or> x = CHR ''%'') (Itoa_nat n) = []" for n
    using Itoa_nat_no_mark [of _ n] by (auto simp: filter_empty_conv)
  moreover have "Split (Itoa_nat n) (CHR ''.'') = [Itoa_nat n]" for n
    using Itoa_nat_no_mark [of "CHR ''.''" n] by (simp add: Split_no_sep)
  ultimately show ?thesis
    using assms by (simp add: ParseAddr_def parse_v4_def v4_text_def Split_append Itoa_nat_no_mark parse_octet_Itoa)
qed

end
