(* ===== verification/Url_Facts.thy ===== *)
theory Url_Facts
  imports Node_Text
begin

text \<open>
  Facts on URLs that several components share: escaping and its inverse, the characters of an
  authority, the parsing of a URL that was put together from its parts, and the query values that
  come back from an encoded query.
\<close>

section \<open>Escapes and authorities\<close>

text \<open>Escapes consist of percent signs, digits and letters; credentials are escaped and come back.\<close>

definition word_char :: "char \<Rightarrow> bool" where
  "word_char c \<longleftrightarrow> is_letter c \<or> is_digit c"

lemma upper_hex_word: "n < 16 \<Longrightarrow> word_char (upper_hex n)"
proof -
  have "list_all (\<lambda>n. word_char (upper_hex n)) [0..<16]" by code_simp
  then show "n < 16 \<Longrightarrow> word_char (upper_hex n)" by (simp add: list_all_iff)
qed

lemma escape_chars:
  assumes "m \<noteq> encodeQueryComponent" and "c \<in> set (escape m s)"
  shows "c = CHR ''%'' \<or> word_char c \<or> \<not> shouldEscape m c"
  using assms upper_hex_word [of "of_char _ div 16"] upper_hex_word [of "of_char _ mod 16"]
  by (auto simp: escape_def split: if_splits)

lemma unescape_user: "unescape encodeUserPassword (escape encodeUserPassword s) = Some s"
proof (induction s)
  case (Cons c s)
  have hex: "hex_value (upper_hex (of_char c div 16)) = Some (of_char c div 16)"
    "hex_value (upper_hex (of_char c mod 16)) = Some (of_char c mod 16)"
    by (auto intro!: hex_upper)
  have "shouldEscape encodeUserPassword (CHR ''%'')" by code_simp
  then show ?case
    using Cons by (auto simp: escape_def hex hex_byte Let_def)
qed (simp add: escape_def)

lemma unreserved_id:
  assumes "list_all unreserved s"
  shows "escape encodeHost s = s" "unescape encodeHost s = Some s"
proof -
  have "\<not> unreserved (CHR ''%'')" by code_simp
  then show "escape encodeHost s = s" "unescape encodeHost s = Some s"
    using assms by (induction s) (auto simp: escape_def)
qed

text \<open>The characters of a proxy URL between the scheme and its end.\<close>

definition url_chars :: string where
  "url_chars = ''$&+,;=%-_.~:@''"

definition authority_char :: "char \<Rightarrow> bool" where
  "authority_char c \<longleftrightarrow> word_char c \<or> c \<in> set url_chars"

lemma authority_char_plain:
  assumes "authority_char c"
  shows "c \<notin> {CHR ''#'', CHR ''?'', CHR ''/'', CHR ''['', CHR '']''}" "\<not> is_ctl c"
proof -
  have "\<not> authority_char x" if "x \<in> {CHR ''#'', CHR ''?'', CHR ''/'', CHR ''['', CHR '']''}" for x
    using that by (auto simp: authority_char_def word_char_def url_chars_def is_letter_def is_digit_def
        less_eq_char_def)
  then show "c \<notin> {CHR ''#'', CHR ''?'', CHR ''/'', CHR ''['', CHR '']''}" using assms by blast
  have "\<not> is_ctl x" if "x \<in> set url_chars" for x
    using that by (auto simp: url_chars_def is_ctl_def less_char_def)
  moreover have "\<not> is_ctl x" if "word_char x" for x
    using that by (auto simp: word_char_def is_letter_def is_digit_def is_ctl_def less_char_def less_eq_char_def)
  ultimately show "\<not> is_ctl c" using assms by (auto simp: authority_char_def)
qed

lemma escaped_user_chars:
  assumes "c \<in> set (escape encodeUserPassword s)"
  shows "authority_char c" "c \<noteq> CHR '':''" "c \<noteq> CHR ''@''"
    "is_letter c \<or> is_digit c \<or> c \<in> set (CHR 0x27 # ''-._:~!$&()*+,;=%@'')"
proof -
  have c: "c = CHR ''%'' \<or> word_char c \<or> c \<in> set ''-_.~$&+,;=''"
    using escape_chars [OF _ assms] by (auto simp: unreserved_def word_char_def)
  then show "authority_char c" by (auto simp: authority_char_def url_chars_def)
  have "\<not> word_char (CHR '':'')" "\<not> word_char (CHR ''@'')" by code_simp+
  then show "c \<noteq> CHR '':''" "c \<noteq> CHR ''@''" using c by auto
  show "is_letter c \<or> is_digit c \<or> c \<in> set (CHR 0x27 # ''-._:~!$&()*+,;=%@'')"
    using c by (auto simp: word_char_def)
qed

lemma unreserved_chars:
  assumes "unreserved c"
  shows "authority_char c" "c \<noteq> CHR '':''" "c \<noteq> CHR ''@''" "c \<noteq> CHR ''%''"
proof -
  show "authority_char c"
    using assms by (auto simp: unreserved_def authority_char_def word_char_def url_chars_def)
  have "\<not> unreserved (CHR '':'')" "\<not> unreserved (CHR ''@'')" "\<not> unreserved (CHR ''%'')" by code_simp+
  then show "c \<noteq> CHR '':''" "c \<noteq> CHR ''@''" "c \<noteq> CHR ''%''" using assms by auto
qed

lemma escape_append: "escape m (a @ b) = escape m a @ escape m b"
  by (simp add: escape_def)

lemma unescape_host_append:
  "list_all unreserved a \<Longrightarrow> list_all unreserved b \<Longrightarrow>
   unescape encodeHost (a @ CHR '':'' # b) = Some (a @ CHR '':'' # b)"
proof -
  have "\<not> unreserved (CHR ''%'')" by code_simp
  then show "list_all unreserved a \<Longrightarrow> list_all unreserved b \<Longrightarrow> ?thesis"
    using unreserved_id(2) [of b] by (induction a) auto
qed

lemma digits_unreserved: "list_all is_digit s \<Longrightarrow> list_all unreserved s"
  by (auto simp: list_all_iff unreserved_def)

lemma parse_host_port:
  assumes "list_all unreserved addr" and "list_all is_digit port"
  shows "parseHost (addr @ '':'' @ port) = Some (addr @ '':'' @ port)"
proof -
  have "CHR '':'' \<notin> set port"
    using assms(2) digits_unreserved unreserved_chars(2) by (auto simp: list_all_iff)
  moreover have "\<not> HasPrefix (addr @ CHR '':'' # port) ''[''"
    using assms(1) unreserved_chars(1) authority_char_plain(1)
    by (cases addr) (auto simp: list_all_iff)
  moreover have "validOptionalPort (CHR '':'' # port)"
    using assms(2) by (simp add: validOptionalPort_def)
  ultimately show ?thesis
    using unescape_host_append [OF assms(1) digits_unreserved [OF assms(2)]]
    by (simp add: parseHost_def LastIndex_append)
qed

text \<open>
  Host names, IPv4 addresses and, in brackets, IPv6 addresses without a zone are kept by escaping
  and parsing.
\<close>

definition host_char :: "char \<Rightarrow> bool" where
  "host_char c \<longleftrightarrow> unreserved c \<or> c = CHR '':''"

lemma host_char_plain:
  assumes "host_char c \<or> c = CHR ''['' \<or> c = CHR '']''"
  shows "c \<noteq> CHR ''@''" "c \<noteq> CHR ''%''" "\<not> shouldEscape encodeHost c"
    "c \<notin> {CHR ''#'', CHR ''?'', CHR ''/''}" "\<not> is_ctl c"
proof -
  have u: "c \<noteq> CHR ''@'' \<and> c \<noteq> CHR ''%'' \<and> \<not> shouldEscape encodeHost c \<and>
      c \<notin> {CHR ''#'', CHR ''?'', CHR ''/''} \<and> \<not> is_ctl c" if "unreserved c"
    using unreserved_chars [OF that] authority_char_plain [of c] that by auto
  have "list_all (\<lambda>c. c \<noteq> CHR ''@'' \<and> c \<noteq> CHR ''%'' \<and> \<not> shouldEscape encodeHost c \<and>
      c \<notin> {CHR ''#'', CHR ''?'', CHR ''/''} \<and> \<not> is_ctl c) '':[]''"
    by code_simp
  with u assms show "c \<noteq> CHR ''@''" "c \<noteq> CHR ''%''" "\<not> shouldEscape encodeHost c"
    "c \<notin> {CHR ''#'', CHR ''?'', CHR ''/''}" "\<not> is_ctl c"
    unfolding host_char_def by auto
qed

lemma host_id:
  assumes "list_all (\<lambda>c. host_char c \<or> c = CHR ''['' \<or> c = CHR '']'') s"
  shows "escape encodeHost s = s" "unescape encodeHost s = Some s"
  using assms host_char_plain(2,3) by (induction s) (auto simp: escape_def simp del: shouldEscape.simps)

lemma Index_head_None: "c \<notin> set s \<Longrightarrow> Index s (c # sub) = None"
  by (induction s) auto

lemma parse_bracketed_host:
  assumes "list_all host_char addr" and "list_all is_digit port"
  shows "parseHost (''['' @ addr @ '']:'' @ port) = Some (''['' @ addr @ '']:'' @ port)"
proof -
  let ?h = "''['' @ addr" and ?r = "CHR '':'' # port"
  have r: "list_all host_char ?r"
    using digits_unreserved [OF assms(2)] by (auto simp: host_char_def list_all_iff)
  have "\<not> host_char (CHR '']'')" by code_simp
  then have "CHR '']'' \<notin> set ?r" using r by (auto simp: list_all_iff)
  then have "LastIndex (?h @ CHR '']'' # ?r) (CHR '']'') = Some (length ?h)"
    by (rule LastIndex_append)
  moreover have "validOptionalPort ?r"
    using assms(2) by (simp add: validOptionalPort_def)
  moreover have "CHR ''%'' \<notin> set ?h"
    using assms(1) host_char_plain(2) by (auto simp: list_all_iff)
  then have "Index ?h ''%25'' = None" by (rule Index_head_None)
  moreover have "unescape encodeHost (?h @ CHR '']'' # ?r) = Some (?h @ CHR '']'' # ?r)"
    by (rule host_id(2)) (use assms(1) r in \<open>auto simp: list_all_iff\<close>)
  ultimately show ?thesis
    by (simp add: parseHost_def HasPrefix_def)
qed

lemma Itoa_port_digits: "list_all is_digit (Itoa (uint (p :: port)))"
  using Itoa_digits [of "uint p"] by simp

section \<open>A URL from its parts\<close>

definition plain_scheme :: "string \<Rightarrow> bool" where
  "plain_scheme s \<longleftrightarrow>
     s \<noteq> [] \<and> is_letter (hd s) \<and> list_all (\<lambda>c. CHR ''a'' \<le> c \<and> c \<le> CHR ''z'' \<or> is_digit c) s"

lemma plain_scheme_lower:
  assumes "plain_scheme s"
  shows "ToLower s = s"
proof -
  have "lower_char c = c" if "CHR ''a'' \<le> c \<and> c \<le> CHR ''z'' \<or> is_digit c" for c
    using that by (auto simp: lower_char_def is_digit_def less_eq_char_def)
  then show ?thesis
    using assms by (auto simp: plain_scheme_def ToLower_def list_all_iff intro!: map_idI)
qed

lemma scheme_end_plain:
  assumes "list_all (\<lambda>c. CHR ''a'' \<le> c \<and> c \<le> CHR ''z'' \<or> is_digit c) s"
  shows "scheme_end (s @ CHR '':'' # r) = Some (length s)"
proof -
  have "\<not> is_letter (CHR '':'')" "\<not> is_digit (CHR '':'')" by code_simp+
  then show ?thesis
    using assms by (induction s) (auto simp: is_letter_def)
qed

lemma getScheme_plain:
  assumes "plain_scheme s"
  shows "getScheme (s @ ''://'' @ r) = Some (s, ''//'' @ r)"
proof -
  obtain c cs where s: "s = c # cs" "is_letter c"
    using assms by (cases s) (auto simp: plain_scheme_def)
  have "\<not> is_letter (CHR '':'')" by code_simp
  then have "c \<noteq> CHR '':''" using s(2) by auto
  moreover have "scheme_end (s @ CHR '':'' # (''//'' @ r)) = Some (length s)"
    by (rule scheme_end_plain) (use assms in \<open>simp add: plain_scheme_def\<close>)
  ultimately show ?thesis
    using s by (simp add: getScheme_def)
qed

lemma plain_scheme_chars:
  assumes "plain_scheme s"
  shows "\<not> list_ex is_ctl s" "CHR ''#'' \<notin> set s"
proof -
  have "\<not> is_ctl c \<and> c \<noteq> CHR ''#''" if "CHR ''a'' \<le> c \<and> c \<le> CHR ''z'' \<or> is_digit c" for c
    using that by (auto simp: is_ctl_def is_digit_def less_char_def less_eq_char_def)
  then show "\<not> list_ex is_ctl s" "CHR ''#'' \<notin> set s"
    using assms unfolding plain_scheme_def list_ex_iff list_all_iff by blast+
qed

text \<open>The characters that an encoded query and an encoded fragment consist of.\<close>

definition query_char :: "char \<Rightarrow> bool" where
  "query_char c \<longleftrightarrow> unreserved c \<or> c \<in> set ''%+=&''"

lemma query_char_plain:
  assumes "query_char c"
  shows "c \<noteq> CHR ''#''" "c \<noteq> CHR ''?''" "c \<noteq> CHR '';''" "\<not> is_ctl c"
proof -
  have "list_all authority_char ''%+=&''" by code_simp
  then have "authority_char c"
    using assms unreserved_chars(1) unfolding query_char_def list_all_iff by blast
  then show "c \<noteq> CHR ''#''" "c \<noteq> CHR ''?''" "\<not> is_ctl c"
    using authority_char_plain by auto
  have "\<not> query_char (CHR '';'')" by code_simp
  then show "c \<noteq> CHR '';''" using assms by auto
qed

definition empty_url :: url where
  "empty_url = \<lparr>u_Scheme = [], u_Opaque = [], u_User = None, u_Host = [], u_Path = [], u_RawPath = [],
     u_RawQuery = [], u_Fragment = []\<rparr>"

lemma Cut_absent: "c \<notin> set s \<Longrightarrow> Cut s c = (s, None)"
  by (induction s) auto

lemma HasSuffix_absent: "c \<notin> set b \<Longrightarrow> b \<noteq> [] \<Longrightarrow> \<not> HasSuffix (a @ b) [c]"
proof -
  assume "c \<notin> set b" "b \<noteq> []"
  then have "c \<notin> set (rev b)" "rev b \<noteq> []" by simp_all
  then show ?thesis by (cases "rev b") (auto simp: HasSuffix_def)
qed

text \<open>What an authority must not contain; the brackets around an IPv6 address are allowed.\<close>

definition ends_authority :: "char \<Rightarrow> bool" where
  "ends_authority c \<longleftrightarrow> c \<in> {CHR ''#'', CHR ''?'', CHR ''/''} \<or> is_ctl c"

lemma authority_stays: "list_all authority_char auth \<Longrightarrow> list_all (\<lambda>c. \<not> ends_authority c) auth"
  unfolding list_all_iff ends_authority_def using authority_char_plain by blast

lemma parse_url_plain:
  assumes "plain_scheme s" and "list_all (\<lambda>c. \<not> ends_authority c) auth" and "auth \<noteq> []"
    and "parseAuthority auth = Some (user, host)" and "list_all query_char q"
  shows "parse_url (s @ ''://'' @ auth @ (if q = [] then [] else CHR ''?'' # q)) =
    Some (empty_url\<lparr>u_Scheme := s, u_User := user, u_Host := host, u_RawQuery := q\<rparr>)"
proof -
  let ?qs = "if q = [] then [] else CHR ''?'' # q"
  have auth: "CHR ''?'' \<notin> set auth" "CHR ''/'' \<notin> set auth" "\<not> list_ex is_ctl auth"
    using assms(2) by (auto simp: list_all_iff list_ex_iff ends_authority_def)
  have q: "CHR ''?'' \<notin> set q" "\<not> list_ex is_ctl q"
    using assms(5) query_char_plain(2,4) unfolding list_all_iff list_ex_iff by blast+
  have ctl: "\<not> is_ctl (CHR '':'')" "\<not> is_ctl (CHR ''/'')" "\<not> is_ctl (CHR ''?'')"
    by code_simp+
  have noctl: "\<not> list_ex is_ctl (s @ ''://'' @ auth @ ?qs)"
    using plain_scheme_chars(1) [OF assms(1)] auth(3) q(2) ctl unfolding list_ex_append by auto
  have star: "s @ ''://'' @ auth @ ?qs \<noteq> ''*''"
  proof -
    have "2 \<le> length (s @ ''://'' @ auth @ ?qs)" by simp
    then show ?thesis by auto
  qed
  have scheme: "getScheme (s @ ''://'' @ auth @ ?qs) = Some (s, ''//'' @ auth @ ?qs)"
    by (rule getScheme_plain [OF assms(1)])
  have suff: "\<not> HasSuffix (''//'' @ auth @ ?qs) ''?''"
    using HasSuffix_absent [OF auth(1) assms(3), of "''//''"]
      HasSuffix_absent [OF q(1), of "''//'' @ auth @ ''?''"] by auto
  have cut: "Cut (''//'' @ auth @ ?qs) (CHR ''?'') = (''//'' @ auth, if q = [] then None else Some q)"
    using Cut_append [of "CHR ''?''" "''//'' @ auth" q] Cut_absent [of "CHR ''?''" "''//'' @ auth"] auth(1)
    by auto
  have idx: "Index auth ''/'' = None" by (rule Index_single_None [OF auth(2)])
  have snd: "opt_string (if q = [] then None else Some q) = q" by (simp add: opt_string_def)
  have path: "setPath [] u = Some (u\<lparr>u_Path := [], u_RawPath := []\<rparr>)" for u
    by (simp add: setPath_def escape_def)
  have ne: "s \<noteq> []" using assms(1) by (simp add: plain_scheme_def)
  show ?thesis
    unfolding parse_url_def
    by (simp only: noctl star scheme suff cut snd Let_def prod.case option.case if_False
        plain_scheme_lower [OF assms(1)] if_True simp_thms)
      (simp add: ne idx assms(4) path empty_url_def)
qed

lemmas parse_url_parts = parse_url_plain [OF _ authority_stays]

lemma url_Parse_plain:
  assumes "plain_scheme s" and "list_all (\<lambda>c. \<not> ends_authority c) auth" and "auth \<noteq> []"
    and "parseAuthority auth = Some (user, host)"
  shows "url_Parse (s @ ''://'' @ auth) = Some (empty_url\<lparr>u_Scheme := s, u_User := user, u_Host := host\<rparr>)"
proof -
  have "CHR ''#'' \<notin> set auth"
    using assms(2) by (auto simp: list_all_iff ends_authority_def)
  then have "Cut (s @ ''://'' @ auth) (CHR ''#'') = (s @ ''://'' @ auth, None)"
    using plain_scheme_chars(2) [OF assms(1)] by (intro Cut_absent) simp
  then show ?thesis
    using parse_url_plain [OF assms, of "[]"] by (simp add: url_Parse_def opt_string_def empty_url_def)
qed

lemmas url_Parse_authority = url_Parse_plain [OF _ authority_stays]

lemma url_Parse_parts:
  assumes "plain_scheme s" and "list_all authority_char auth" and "auth \<noteq> []"
    and "parseAuthority auth = Some (user, host)" and "list_all query_char q"
    and "unescape encodeFragment f = Some frag"
  shows "url_Parse (s @ ''://'' @ auth @ (if q = [] then [] else CHR ''?'' # q) @ CHR ''#'' # f) =
    Some (empty_url\<lparr>u_Scheme := s, u_User := user, u_Host := host, u_RawQuery := q, u_Fragment := frag\<rparr>)"
proof -
  let ?u = "s @ ''://'' @ auth @ (if q = [] then [] else CHR ''?'' # q)"
  have "CHR ''#'' \<notin> set auth"
    using assms(2) authority_char_plain by (auto simp: list_all_iff)
  moreover have "CHR ''#'' \<notin> set q"
    using assms(5) query_char_plain(1) unfolding list_all_iff by blast
  ultimately have "CHR ''#'' \<notin> set ?u"
    using plain_scheme_chars(2) [OF assms(1)] by simp
  then have cut: "Cut (?u @ CHR ''#'' # f) (CHR ''#'') = (?u, Some f)" by (rule Cut_append)
  have eq: "s @ ''://'' @ auth @ (if q = [] then [] else CHR ''?'' # q) @ CHR ''#'' # f = ?u @ CHR ''#'' # f"
    by (simp only: append_assoc)
  show ?thesis
    unfolding eq url_Parse_def cut prod.case parse_url_parts [OF assms(1-5)] option.case
    using assms(6) by (cases "f = []") (simp_all add: opt_string_def empty_url_def)
qed

section \<open>Query values come back\<close>

lemma QueryEscape_chars:
  assumes "c \<in> set (QueryEscape s)"
  shows "query_char c" "c \<noteq> CHR ''&''" "c \<noteq> CHR ''=''"
proof -
  have word: "unreserved (upper_hex n)" if "n < 16" for n
    using upper_hex_word [OF that] by (auto simp: word_char_def unreserved_def)
  have c: "unreserved c \<or> c = CHR ''%'' \<or> c = CHR ''+''"
    using assms word [of "of_char _ div 16"] word [of "of_char _ mod 16"]
    by (auto simp: QueryEscape_def escape_def split: if_splits)
  then show "query_char c" by (auto simp: query_char_def)
  have "\<not> unreserved (CHR ''&'')" "\<not> unreserved (CHR ''='')" by code_simp+
  then show "c \<noteq> CHR ''&''" "c \<noteq> CHR ''=''" using c by auto
qed

lemma QueryUnescape_QueryEscape: "QueryUnescape (QueryEscape s) = Some s"
  by (simp add: QueryUnescape_unescape unescape_QueryEscape)

lemma query_pair_encoded: "query_pair (QueryEscape k @ CHR ''='' # QueryEscape v) = Some (k, v)"
proof -
  have "CHR '';'' \<notin> set (QueryEscape s)" for s
    using QueryEscape_chars(1) query_char_plain(3) by blast
  moreover have "Cut (QueryEscape k @ CHR ''='' # QueryEscape v) (CHR ''='') = (QueryEscape k, Some (QueryEscape v))"
    using QueryEscape_chars(3) by (intro Cut_append) blast
  ultimately show ?thesis
    by (simp add: query_pair_def QueryUnescape_QueryEscape opt_string_def)
qed

abbreviation by_key :: "(string \<times> string) \<Rightarrow> (string \<times> string) \<Rightarrow> bool" where
  "by_key \<equiv> (\<lambda>(k, _) (k', _). k < k')"

lemma values_Encode_chars: "list_all query_char (values_Encode q)"
proof -
  have join: "list_all P (Join xs sep)" if "\<forall>x \<in> set xs. list_all P x" "list_all P sep" for P xs and sep :: string
    using that by (induction xs sep rule: Join.induct) auto
  have marks: "query_char (CHR ''='')" "query_char (CHR ''&'')" by code_simp+
  have enc: "list_all query_char (QueryEscape s)" for s
    unfolding list_all_iff using QueryEscape_chars(1) by blast
  show ?thesis
    unfolding values_Encode_def by (rule join) (use marks enc in \<open>auto split: prod.splits\<close>)
qed

lemma Query_Encode:
  "List.map_filter query_pair (Split (values_Encode q) (CHR ''&'')) = sort_slice by_key q"
proof (cases "q = []")
  case True
  then show ?thesis
    by (simp add: values_Encode_def query_pair_def List.map_filter_simps)
next
  case False
  let ?enc = "\<lambda>(k, v). QueryEscape k @ ''='' @ QueryEscape v"
  have "sort_slice by_key q \<noteq> []"
    using False by (metis length_0_conv length_sort_slice)
  moreover have "CHR ''&'' \<notin> set (?enc kv)" for kv
    using QueryEscape_chars(2) by (auto split: prod.splits)
  ultimately have "Split (values_Encode q) (CHR ''&'') = map ?enc (sort_slice by_key q)"
    unfolding values_Encode_def by (intro Split_Join) auto
  moreover have "List.map_filter query_pair (map ?enc xs) = xs" for xs
  proof (induction xs)
    case (Cons x xs)
    then show ?case
      by (cases x) (simp add: List.map_filter_simps query_pair_encoded)
  qed (simp add: List.map_filter_simps)
  ultimately show ?thesis by metis
qed

lemma Get_Query:
  assumes "distinct (map fst q)" and "u_RawQuery u = values_Encode q"
  shows "values_Get (url_Query u) k = values_Get q k"
proof -
  have "distinct (map fst (sort_slice by_key q))"
    using assms(1) by (metis mset_map mset_sort_slice mset_eq_imp_distinct_iff)
  then have "map_of (sort_slice by_key q) = map_of q"
    using assms(1) by (simp add: map_of_inject_set)
  then show ?thesis
    by (simp add: values_Get_def url_Query_def assms(2) Query_Encode)
qed

lemma keys_Set: "distinct (map fst q) \<Longrightarrow> distinct (map fst (values_Set k v q))"
  by (auto simp: values_Set_def distinct_map inj_on_def)

lemma Get_Set [simp]: "values_Get (values_Set k v q) k' = (if k' = k then v else values_Get q k')"
proof -
  have "map_of (filter (\<lambda>(k', _). k' \<noteq> k) q @ [(k, v)]) k' = (if k' = k then Some v else map_of q k')"
    by (induction q) auto
  then show ?thesis by (auto simp: values_Get_def values_Set_def opt_string_def)
qed

lemma Get_empty [simp]: "values_Get [] k = []"
  by (simp add: values_Get_def opt_string_def)

end
