(* ===== verification/Builder.thy ===== *)
theory Builder
  imports Complex_Main Box_Manager Go_Ip Url_Facts
begin

text \<open>
  The builder (\<open>internal/builder/builder.go\<close>): the translation of a configuration into the options of
  sing-box.  Each node URI becomes an outbound of its protocol, or is skipped with an error; the
  outbounds are gathered in one pool, in one pool per node, or in both, with their inbounds and
  routing rules.

  The option types belong to sing-box; the records here hold the fields that the builder sets, with the
  zero values for the rest.  Three things are parameters, in the record \<open>build_env\<close>: regular
  expressions, the JSON decoder for VMess links and the conversion of a float that no \<open>int\<close> can
  hold; so are the names of sing-box's transports.  The log lines that are only decoration are left
  out, the printed links are not.
\<close>

section \<open>Options of an outbound\<close>

record utls_options =
  ut_Enabled :: bool
  ut_Fingerprint :: string

record reality_options =
  re_Enabled :: bool
  re_PublicKey :: string
  re_ShortID :: string

record tls_options =
  tl_Enabled :: bool
  tl_Insecure :: bool
  tl_ServerName :: string
  tl_ALPN :: "string list"
  tl_UTLS :: "utls_options option"
  tl_Reality :: "reality_options option"

record transport_options =
  tr_Type :: string
  tr_WSPath :: string
  tr_WSHost :: "string option"
  tr_MaxEarlyData :: "32 word"
  tr_EarlyDataHeaderName :: string
  tr_HTTPPath :: string
  tr_HTTPHost :: "string list"
  tr_ServiceName :: string
  tr_UpgradePath :: string
  tr_UpgradeHost :: "string option"

text \<open>What every outbound to a server has; each protocol adds its own fields.\<close>

record server_options =
  so_Server :: string
  so_ServerPort :: port
  so_ConnectTimeout :: duration

record http_options = server_options +
  ho_Username :: string
  ho_Password :: string
  ho_Path :: string
  ho_TLS :: "tls_options option"

record socks_options = server_options +
  sk_Version :: string
  sk_Username :: string
  sk_Password :: string

record vless_options = server_options +
  vl_UUID :: string
  vl_Flow :: string
  vl_PacketEncoding :: "string option"
  vl_TCPFastOpen :: bool
  vl_Transport :: "transport_options option"
  vl_TLS :: "tls_options option"

record hysteria2_options = server_options +
  hy_Password :: string
  hy_UpMbps :: int
  hy_DownMbps :: int
  hy_Obfs :: "(string \<times> string) option"
  hy_TLS :: "tls_options option"

record shadowsocks_options = server_options +
  sh_Method :: string
  sh_Password :: string
  sh_Plugin :: string
  sh_PluginOptions :: string

record trojan_options = server_options +
  tj_Password :: string
  tj_Transport :: "transport_options option"
  tj_TLS :: "tls_options option"

record vmess_options = server_options +
  vm_UUID :: string
  vm_AlterId :: int
  vm_Security :: string
  vm_Transport :: "transport_options option"
  vm_TLS :: "tls_options option"

datatype outbound_options =
    OutHTTP http_options
  | OutSOCKS socks_options
  | OutVLESS vless_options
  | OutHysteria2 hysteria2_options
  | OutShadowsocks shadowsocks_options
  | OutTrojan trojan_options
  | OutVMess vmess_options
  | OutPool pool_options

record outbound =
  ob_Tag :: tag
  ob_Options :: outbound_options

text \<open>The errors for a single node.\<close>

datatype node_error =
    ParseURI
  | UnsupportedScheme string
  | MissingHost
  | InvalidPort string
  | MissingUserinfo
  | MissingUUID
  | InvalidUUID string
  | MissingPassword
  | UnsupportedTransport string
  | BadBase64
  | BadMethodPassword
  | BadVMessJSON
  | MissingServer

text \<open>\<open>vmessJSON\<close> as \<open>encoding/json\<close> fills it; \<open>Port\<close> and \<open>Aid\<close> are of type \<open>interface{}\<close>.\<close>

datatype json_value = JFloat rat | JInt int | JString string | JOther

record vmess_json =
  vj_Add :: string
  vj_Port :: json_value
  vj_ID :: string
  vj_Aid :: json_value
  vj_Scy :: string
  vj_Net :: string
  vj_Host :: string
  vj_Path :: string
  vj_TLS :: string
  vj_SNI :: string
  vj_ALPN :: string
  vj_FP :: string

record build_env =
  bd_regexps :: regexps
  bd_vmess :: "string \<Rightarrow> vmess_json option"
  bd_overflow :: "rat \<Rightarrow> int"
  bd_ws :: string
  bd_http :: string
  bd_grpc :: string
  bd_httpupgrade :: string

section \<open>Small parsers\<close>

definition hostPort :: "url \<Rightarrow> int \<Rightarrow> node_error + string \<times> int" where
  "hostPort u defaultPort =
     (let host = url_Hostname u in
      if host = [] then Inl MissingHost
      else
        (let portStr = (if url_Port u = [] then Itoa defaultPort else url_Port u) in
         case Atoi portStr of None \<Rightarrow> Inl (InvalidPort portStr) | Some p \<Rightarrow> Inr (host, p)))"

definition parseAddr :: "string \<Rightarrow> ip_addr option option" where
  "parseAddr v =
     (let addr = TrimSpace v in
      if addr = [] then Some None
      else (case ParseAddr addr of None \<Rightarrow> None | Some a \<Rightarrow> Some (Some a)))"

definition tag_char :: "char \<Rightarrow> bool" where
  "tag_char c \<longleftrightarrow> CHR ''a'' \<le> c \<and> c \<le> CHR ''z'' \<or> CHR ''0'' \<le> c \<and> c \<le> CHR ''9''"

text \<open>\<open>strings.Trim\<close> with the cutset \<open>-\<close>.\<close>

definition trim_dashes :: "string \<Rightarrow> string" where
  "trim_dashes s =
     (let f = dropWhile (\<lambda>c. c = CHR ''-'') in rev (f (rev (f s))))"

definition sanitizeTag :: "string \<Rightarrow> string" where
  "sanitizeTag name =
     (let lower = TrimSpace (ToLower name) in
      if lower = [] then []
      else trim_dashes (Join (FieldsFunc lower (\<lambda>c. \<not> tag_char c)) ''-''))"

definition atoiDefault :: "string \<Rightarrow> int" where
  "atoiDefault v = Atoi_value (TrimSuffix (TrimSuffix v ''mbps'') ''Mbps'')"

definition parseBool01 :: "string \<Rightarrow> bool" where
  "parseBool01 v0 =
     (let v = TrimSpace v0 in
      if v = [] then False
      else if v = ''1'' then True
      else if v = ''0'' then False
      else EqualFold v ''true'' \<or> EqualFold v ''yes'' \<or> EqualFold v ''on'')"

subsection \<open>UUIDs\<close>

definition isHexByte :: "char \<Rightarrow> bool" where
  "isHexByte c \<longleftrightarrow>
     (CHR ''0'' \<le> c \<and> c \<le> CHR ''9'') \<or> (CHR ''a'' \<le> c \<and> c \<le> CHR ''f'') \<or>
     (CHR ''A'' \<le> c \<and> c \<le> CHR ''F'')"

definition isUUID36 :: "string \<Rightarrow> bool" where
  "isUUID36 v \<longleftrightarrow>
     length v = 36 \<and>
     list_all (\<lambda>i. if i \<in> {8, 13, 18, 23} then v ! i = CHR ''-'' else isHexByte (v ! i)) [0..<36]"

definition isUUID32 :: "string \<Rightarrow> bool" where
  "isUUID32 v \<longleftrightarrow> length v = 32 \<and> list_all isHexByte v"

definition slice :: "string \<Rightarrow> nat \<Rightarrow> nat \<Rightarrow> string" where
  "slice v i j = take (j - i) (drop i v)"

definition normalizeUUID :: "string \<Rightarrow> string" where
  "normalizeUUID v0 =
     (let v = TrimSpace v0 in
      if isUUID36 v then ToLower v
      else if isUUID32 v then
        (let l = ToLower v in
         slice l 0 8 @ ''-'' @ slice l 8 12 @ ''-'' @ slice l 12 16 @ ''-'' @ slice l 16 20 @ ''-'' @
         slice l 20 32)
      else [])"

text \<open>The first window of the given width that normalises.\<close>

fun find_uuid :: "nat \<Rightarrow> string \<Rightarrow> string" where
  "find_uuid n [] = []"
| "find_uuid n (c # cs) =
     (if length (c # cs) < n then []
      else
        (let norm = normalizeUUID (take n (c # cs)) in
         if norm \<noteq> [] then norm else find_uuid n cs))"

definition extractUUIDFromText :: "string \<Rightarrow> string" where
  "extractUUIDFromText text =
     (let canonical = find_uuid 36 text in if canonical \<noteq> [] then canonical else find_uuid 32 text)"

text \<open>The builder's own \<open>decodeBase64Any\<close>, which also strips line breaks and refuses an empty text.\<close>

definition builder_decodeBase64Any :: "string \<Rightarrow> string option" where
  "builder_decodeBase64Any v0 =
     (let v = ReplaceAll (ReplaceAll (TrimSpace v0) [CHR 0x0A] []) [CHR 0x0D] [] in
      if v = [] then None else decodeBase64Any v)"

definition extractVLESSUUID :: "url \<Rightarrow> node_error + string" where
  "extractVLESSUUID u =
     (case u_User u of
        None \<Rightarrow> Inl MissingUserinfo
      | Some (name, _) \<Rightarrow>
          (let raw = TrimSpace name in
           if raw = [] then Inl MissingUUID
           else if normalizeUUID raw \<noteq> [] then Inr (normalizeUUID raw)
           else
             (case builder_decodeBase64Any raw of
                None \<Rightarrow> Inl (InvalidUUID raw)
              | Some decoded \<Rightarrow>
                  if extractUUIDFromText decoded \<noteq> [] then Inr (extractUUIDFromText decoded)
                  else Inl (InvalidUUID raw))))"

section \<open>TLS\<close>

definition empty_tls :: tls_options where
  "empty_tls =
     \<lparr>tl_Enabled = False, tl_Insecure = False, tl_ServerName = [], tl_ALPN = [], tl_UTLS = None,
      tl_Reality = None\<rparr>"

definition is_true :: "string \<Rightarrow> bool" where
  "is_true v \<longleftrightarrow> v = ''1'' \<or> EqualFold v ''true''"

text \<open>The value of the first of two query keys that has one.\<close>

definition get_either :: "url_values \<Rightarrow> string \<Rightarrow> string \<Rightarrow> string" where
  "get_either q a b = (if values_Get q a = [] then values_Get q b else values_Get q a)"

definition set_alpn :: "string \<Rightarrow> tls_options \<Rightarrow> tls_options" where
  "set_alpn alpn t = (if alpn \<noteq> [] then t\<lparr>tl_ALPN := Split alpn (CHR '','')\<rparr> else t)"

definition set_insecure :: "string \<Rightarrow> tls_options \<Rightarrow> tls_options" where
  "set_insecure v t = (if v \<noteq> [] then t\<lparr>tl_Insecure := is_true v\<rparr> else t)"

definition set_utls :: "string \<Rightarrow> tls_options \<Rightarrow> tls_options" where
  "set_utls fp t =
     (if fp \<noteq> [] then t\<lparr>tl_UTLS := Some \<lparr>ut_Enabled = True, ut_Fingerprint = fp\<rparr>\<rparr> else t)"

text \<open>A server name that is set only when the value is there, or there and no name was set before.\<close>

definition set_server_name :: "string \<Rightarrow> tls_options \<Rightarrow> tls_options" where
  "set_server_name v t = (if v \<noteq> [] then t\<lparr>tl_ServerName := v\<rparr> else t)"

definition fill_server_name :: "string \<Rightarrow> tls_options \<Rightarrow> tls_options" where
  "fill_server_name v t = (if v \<noteq> [] \<and> tl_ServerName t = [] then t\<lparr>tl_ServerName := v\<rparr> else t)"

definition hysteriaTLSOptions :: "string \<Rightarrow> url_values \<Rightarrow> bool \<Rightarrow> tls_options" where
  "hysteriaTLSOptions host q skip =
     (let t0 = empty_tls\<lparr>tl_Enabled := True, tl_ServerName := host, tl_Insecure := skip\<rparr>;
          t1 = set_server_name (values_Get q ''sni'') t0;
          t2 = set_insecure (get_either q ''insecure'' ''allowInsecure'') t1
      in set_alpn (values_Get q ''alpn'') t2)"

definition tls_security :: "url_values \<Rightarrow> string" where
  "tls_security q =
     (let security = ToLower (TrimSpace (values_Get q ''security'')) in
      if security = [] \<and> parseBool01 (values_Get q ''tls'') then
        (if values_Get q ''pbk'' \<noteq> [] \<or> values_Get q ''sid'' \<noteq> [] then ''reality'' else ''tls'')
      else security)"

definition set_reality_options :: "url_values \<Rightarrow> tls_options \<Rightarrow> tls_options" where
  "set_reality_options q t =
     (let t1 = t\<lparr>tl_Reality := Some \<lparr>re_Enabled = True, re_PublicKey = values_Get q ''pbk'',
                                 re_ShortID = values_Get q ''sid''\<rparr>\<rparr>
      in if tl_UTLS t1 = None
         then set_utls (if values_Get q ''fp'' = [] then ''chrome'' else values_Get q ''fp'') t1 else t1)"

definition buildTLSOptions :: "url_values \<Rightarrow> bool \<Rightarrow> tls_options option" where
  "buildTLSOptions q skip =
     (let security = tls_security q in
      if security = [] \<or> security = ''none'' then None
      else
        (let t0 = empty_tls\<lparr>tl_Enabled := True, tl_Insecure := skip\<rparr>;
             t1 = set_server_name (values_Get q ''sni'') t0;
             t2 = fill_server_name (values_Get q ''peer'') t1;
             t3 = fill_server_name (values_Get q ''servername'') t2;
             t4 = set_insecure (get_either q ''allowInsecure'' ''insecure'') t3;
             t5 = set_alpn (values_Get q ''alpn'') t4;
             t6 = set_utls (values_Get q ''fp'') t5
         in Some (if security = ''reality'' then set_reality_options q t6 else t6)))"

definition buildTrojanTLSOptions :: "url_values \<Rightarrow> bool \<Rightarrow> tls_options" where
  "buildTrojanTLSOptions q skip =
     (let t0 = empty_tls\<lparr>tl_Enabled := True, tl_Insecure := skip\<rparr>;
          t1 = set_server_name (values_Get q ''sni'') t0;
          t2 = fill_server_name (values_Get q ''peer'') t1;
          t3 = set_insecure (get_either q ''allowInsecure'' ''insecure'') t2;
          t4 = set_alpn (values_Get q ''alpn'') t3
      in set_utls (values_Get q ''fp'') t4)"

section \<open>Transports\<close>

definition empty_transport :: transport_options where
  "empty_transport =
     \<lparr>tr_Type = [], tr_WSPath = [], tr_WSHost = None, tr_MaxEarlyData = 0, tr_EarlyDataHeaderName = [],
      tr_HTTPPath = [], tr_HTTPHost = [], tr_ServiceName = [], tr_UpgradePath = [], tr_UpgradeHost = None\<rparr>"

text \<open>The early data size in a websocket path like \<open>/path?ed=2048\<close>.\<close>

definition set_ws_path :: "string \<Rightarrow> transport_options \<Rightarrow> transport_options" where
  "set_ws_path path t =
     (case Index path ''?ed='' of
        None \<Rightarrow> t\<lparr>tr_WSPath := path\<rparr>
      | Some i \<Rightarrow>
          (let edPart = drop (i + 4) path;
               edValue = (case Index edPart ''&'' of Some j \<Rightarrow> take j edPart | None \<Rightarrow> edPart);
               t1 = (case Atoi edValue of
                       Some ed \<Rightarrow>
                         if 0 < ed
                         then t\<lparr>tr_MaxEarlyData := word_of_int ed,
                                tr_EarlyDataHeaderName := ''Sec-WebSocket-Protocol''\<rparr>
                         else t
                     | None \<Rightarrow> t)
           in t1\<lparr>tr_WSPath := take i path\<rparr>))"

definition buildV2RayTransport ::
  "build_env \<Rightarrow> url_values \<Rightarrow> node_error + transport_options option" where
  "buildV2RayTransport env q =
     (let ty = ToLower (values_Get q ''type''); host = values_Get q ''host'';
          path = values_Get q ''path''; t = empty_transport\<lparr>tr_Type := ty\<rparr> in
      if ty = [] \<or> ty = ''tcp'' then Inr None
      else if ty = bd_ws env then
        (let t1 = set_ws_path path t in
         Inr (Some (if host \<noteq> [] then t1\<lparr>tr_WSHost := Some host\<rparr> else t1)))
      else if ty = bd_http env then
        (let t1 = t\<lparr>tr_HTTPPath := path\<rparr> in
         Inr (Some (if host \<noteq> [] then t1\<lparr>tr_HTTPHost := [host]\<rparr> else t1)))
      else if ty = bd_grpc env then Inr (Some (t\<lparr>tr_ServiceName := values_Get q ''serviceName''\<rparr>))
      else if ty = bd_httpupgrade env then Inr (Some (t\<lparr>tr_UpgradePath := path\<rparr>))
      else if ty = ''xhttp'' then
        (let t1 = t\<lparr>tr_Type := bd_httpupgrade env, tr_UpgradePath := path\<rparr> in
         Inr (Some (if host \<noteq> [] then t1\<lparr>tr_UpgradeHost := Some host\<rparr> else t1)))
      else Inl (UnsupportedTransport ty))"

section \<open>Protocols\<close>

definition bind_result :: "'e + 'a \<Rightarrow> ('a \<Rightarrow> 'e + 'b) \<Rightarrow> 'e + 'b" where
  "bind_result r f = (case r of Inl e \<Rightarrow> Inl e | Inr a \<Rightarrow> f a)"

definition user_credentials :: "url \<Rightarrow> string \<times> string" where
  "user_credentials u =
     (case u_User u of None \<Rightarrow> ([], []) | Some (name, p) \<Rightarrow> (name, opt_string p))"

definition https_server_name :: "string \<Rightarrow> url_values \<Rightarrow> string" where
  "https_server_name server q =
     (let sni = TrimSpace (values_Get q ''sni''); name = TrimSpace (values_Get q ''servername'');
          peer = TrimSpace (values_Get q ''peer'') in
      if sni \<noteq> [] then sni else if name \<noteq> [] then name else if peer \<noteq> [] then peer else server)"

definition buildHTTPProxyOptions :: "url \<Rightarrow> bool \<Rightarrow> node_error + http_options" where
  "buildHTTPProxyOptions u skip =
     (let https = EqualFold (u_Scheme u) ''https'' in
      bind_result (hostPort u (if https then 443 else 80)) (\<lambda>(server, p).
        (let (username, password) = user_credentials u; path = TrimSpace (EscapedPath u) in
         Inr \<lparr>so_Server = server, so_ServerPort = word_of_int p, so_ConnectTimeout = 0,
              ho_Username = username, ho_Password = password,
              ho_Path = (if path \<noteq> [] \<and> path \<noteq> ''/'' then path else []),
              ho_TLS = (if https
                then Some (empty_tls\<lparr>tl_Enabled := True, tl_Insecure := skip,
                             tl_ServerName := https_server_name server (url_Query u)\<rparr>)
                else None)\<rparr>)))"

definition socks_version :: "string \<Rightarrow> string" where
  "socks_version scheme =
     (let s = ToLower (TrimSpace scheme) in
      if s = ''socks4'' then ''4'' else if s = ''socks4a'' then ''4a'' else ''5'')"

definition buildSOCKSProxyOptions :: "url \<Rightarrow> node_error + socks_options" where
  "buildSOCKSProxyOptions u =
     bind_result (hostPort u 1080) (\<lambda>(server, p).
       (let (username, password) = user_credentials u in
        Inr \<lparr>so_Server = server, so_ServerPort = word_of_int p, so_ConnectTimeout = 0,
             sk_Version = socks_version (u_Scheme u), sk_Username = username, sk_Password = password\<rparr>))"

definition vless_flow :: "url_values \<Rightarrow> string" where
  "vless_flow q =
     (let flow = values_Get q ''flow''; xtls = TrimSpace (values_Get q ''xtls'') in
      if flow \<noteq> [] then flow
      else if xtls \<noteq> [] then
        (if xtls = ''2'' then ''xtls-rprx-vision'' else if xtls = ''1'' then ''xtls-rprx-origin'' else [])
      else [])"

definition buildVLESSOptions :: "build_env \<Rightarrow> url \<Rightarrow> bool \<Rightarrow> node_error + vless_options" where
  "buildVLESSOptions env u skip =
     (if u_User u = None then Inl MissingUserinfo
      else
        bind_result (hostPort u 443) (\<lambda>(server, p).
        bind_result (extractVLESSUUID u) (\<lambda>uuid.
          (let q = url_Query u; pe = values_Get q ''packetEncoding'';
               tfo = TrimSpace (values_Get q ''tfo'') in
           bind_result (buildV2RayTransport env q) (\<lambda>transport.
             Inr \<lparr>so_Server = server, so_ServerPort = word_of_int p, so_ConnectTimeout = 0,
                  vl_UUID = uuid, vl_Flow = vless_flow q,
                  vl_PacketEncoding = (if pe \<noteq> [] then Some pe else None),
                  vl_TCPFastOpen = (if tfo \<noteq> [] then parseBool01 tfo else False),
                  vl_Transport = transport, vl_TLS = buildTLSOptions q skip\<rparr>)))))"

definition user_string :: "url \<Rightarrow> string" where
  "user_string u = (case u_User u of None \<Rightarrow> [] | Some (n, p) \<Rightarrow> userinfo_String n p)"

definition buildHysteria2Options :: "url \<Rightarrow> bool \<Rightarrow> node_error + hysteria2_options" where
  "buildHysteria2Options u skip =
     (if u_User u = None then Inl MissingUserinfo
      else if user_string u = [] then Inl MissingPassword
      else
        bind_result (hostPort u 443) (\<lambda>(server, p).
          (let q = url_Query u; up = values_Get q ''upMbps''; down = values_Get q ''downMbps'';
               obfs = values_Get q ''obfs'' in
           Inr \<lparr>so_Server = server, so_ServerPort = word_of_int p, so_ConnectTimeout = 0,
                hy_Password = user_string u,
                hy_UpMbps = (if up \<noteq> [] then atoiDefault up else 0),
                hy_DownMbps = (if down \<noteq> [] then atoiDefault down else 0),
                hy_Obfs = (if obfs \<noteq> [] then Some (obfs, values_Get q ''obfs-password'') else None),
                hy_TLS = Some (hysteriaTLSOptions server q skip)\<rparr>)))"

text \<open>The userinfo is \<open>method:password\<close> in base64, read as raw URL encoding or else as standard encoding.\<close>

definition buildShadowsocksOptions :: "url \<Rightarrow> node_error + shadowsocks_options" where
  "buildShadowsocksOptions u =
     bind_result (hostPort u 8388) (\<lambda>(server, p).
       if u_User u = None \<or> user_string u = [] then Inl MissingUserinfo
       else
         (case (case DecodeString url_alphabet False (user_string u) of
                  Some d \<Rightarrow> Some d
                | None \<Rightarrow> DecodeString std_alphabet True (user_string u)) of
            None \<Rightarrow> Inl BadBase64
          | Some decoded \<Rightarrow>
              (case Cut decoded (CHR '':'') of
                 (_, None) \<Rightarrow> Inl BadMethodPassword
               | (meth, Some password) \<Rightarrow>
                   (let q = url_Query u; plugin = values_Get q ''plugin'' in
                    Inr \<lparr>so_Server = server, so_ServerPort = word_of_int p, so_ConnectTimeout = 0,
                         sh_Method = meth, sh_Password = password, sh_Plugin = plugin,
                         sh_PluginOptions = (if plugin \<noteq> [] then values_Get q ''plugin-opts'' else [])\<rparr>))))"

definition buildTrojanOptions :: "build_env \<Rightarrow> url \<Rightarrow> bool \<Rightarrow> node_error + trojan_options" where
  "buildTrojanOptions env u skip =
     (if u_User u = None then Inl MissingUserinfo
      else if fst (user_credentials u) = [] then Inl MissingPassword
      else
        bind_result (hostPort u 443) (\<lambda>(server, p).
          (let q = url_Query u in
           bind_result (buildV2RayTransport env q) (\<lambda>transport.
             Inr \<lparr>so_Server = server, so_ServerPort = word_of_int p, so_ConnectTimeout = 0,
                  tj_Password = fst (user_credentials u), tj_Transport = transport,
                  tj_TLS = Some (buildTrojanTLSOptions q skip)\<rparr>))))"

subsection \<open>VMess\<close>

definition float_int :: "build_env \<Rightarrow> rat \<Rightarrow> int" where
  "float_int env x =
     (let i = (if 0 \<le> x then \<lfloor>x\<rfloor> else \<lceil>x\<rceil>) in
      if - (2 ^ 63) \<le> i \<and> i < 2 ^ 63 then i else bd_overflow env x)"

definition GetPort :: "build_env \<Rightarrow> vmess_json \<Rightarrow> int" where
  "GetPort env v =
     (case vj_Port v of
        JFloat x \<Rightarrow> float_int env x | JInt i \<Rightarrow> i | JString s \<Rightarrow> Atoi_value s | JOther \<Rightarrow> 443)"

definition GetAlterId :: "build_env \<Rightarrow> vmess_json \<Rightarrow> int" where
  "GetAlterId env v =
     (case vj_Aid v of
        JFloat x \<Rightarrow> float_int env x | JInt i \<Rightarrow> i | JString s \<Rightarrow> Atoi_value s | JOther \<Rightarrow> 0)"

definition vmess_transport :: "build_env \<Rightarrow> vmess_json \<Rightarrow> transport_options option" where
  "vmess_transport env v =
     (if vj_Net v = [] \<or> vj_Net v = ''tcp'' then None
      else if vj_Net v = ''ws'' then
        (let t = set_ws_path (vj_Path v) (empty_transport\<lparr>tr_Type := bd_ws env\<rparr>) in
         Some (if vj_Host v \<noteq> [] then t\<lparr>tr_WSHost := Some (vj_Host v)\<rparr> else t))
      else if vj_Net v = ''h2'' then
        (let t = empty_transport\<lparr>tr_Type := bd_http env, tr_HTTPPath := vj_Path v\<rparr> in
         Some (if vj_Host v \<noteq> [] then t\<lparr>tr_HTTPHost := [vj_Host v]\<rparr> else t))
      else if vj_Net v = ''grpc'' then
        Some (empty_transport\<lparr>tr_Type := bd_grpc env, tr_ServiceName := vj_Path v\<rparr>)
      else Some (empty_transport\<lparr>tr_Type := vj_Net v\<rparr>))"

definition vmess_tls :: "vmess_json \<Rightarrow> bool \<Rightarrow> tls_options option" where
  "vmess_tls v skip =
     (if vj_TLS v = ''tls'' then
        (let t0 = empty_tls\<lparr>tl_Enabled := True, tl_Insecure := skip\<rparr>;
             t1 = (if vj_SNI v \<noteq> [] then t0\<lparr>tl_ServerName := vj_SNI v\<rparr>
                   else if vj_Host v \<noteq> [] then t0\<lparr>tl_ServerName := vj_Host v\<rparr> else t0)
         in Some (set_utls (vj_FP v) (set_alpn (vj_ALPN v) t1)))
      else None)"

definition default_security :: "string \<Rightarrow> string" where
  "default_security s = (if s = [] then ''auto'' else s)"

definition buildVMessOptionsFromURL ::
  "build_env \<Rightarrow> string \<Rightarrow> bool \<Rightarrow> node_error + vmess_options" where
  "buildVMessOptionsFromURL env rawURI skip =
     (case url_Parse rawURI of
        None \<Rightarrow> Inl ParseURI
      | Some u \<Rightarrow>
          (let uuid = fst (user_credentials u) in
           if uuid = [] then Inl MissingUUID
           else
             bind_result (hostPort u 443) (\<lambda>(server, p).
               (let q = url_Query u; aid = values_Get q ''alterId'' in
                bind_result (buildV2RayTransport env q) (\<lambda>transport.
                  Inr \<lparr>so_Server = server, so_ServerPort = word_of_int p, so_ConnectTimeout = 0,
                       vm_UUID = uuid, vm_AlterId = (if aid \<noteq> [] then Atoi_value aid else 0),
                       vm_Security = default_security (values_Get q ''encryption''),
                       vm_Transport = transport, vm_TLS = buildTLSOptions q skip\<rparr>)))))"

definition vmess_of_json :: "build_env \<Rightarrow> vmess_json \<Rightarrow> bool \<Rightarrow> node_error + vmess_options" where
  "vmess_of_json env v skip =
     (if vj_Add v = [] then Inl MissingServer
      else if vj_ID v = [] then Inl MissingUUID
      else
        (let p = GetPort env v; port = (if p = 0 then 443 else p) in
         Inr \<lparr>so_Server = vj_Add v, so_ServerPort = word_of_int port, so_ConnectTimeout = 0,
              vm_UUID = vj_ID v, vm_AlterId = GetAlterId env v, vm_Security = default_security (vj_Scy v),
              vm_Transport = vmess_transport env v, vm_TLS = vmess_tls v skip\<rparr>))"

definition buildVMessOptions :: "build_env \<Rightarrow> string \<Rightarrow> bool \<Rightarrow> node_error + vmess_options" where
  "buildVMessOptions env rawURI skip =
     (let encoded = TrimPrefix rawURI ''vmess://'' in
      case (case DecodeString std_alphabet True encoded of
              Some d \<Rightarrow> Some d
            | None \<Rightarrow> DecodeString url_alphabet False encoded) of
        None \<Rightarrow> buildVMessOptionsFromURL env rawURI skip
      | Some decoded \<Rightarrow>
          (case bd_vmess env decoded of
             None \<Rightarrow> Inl BadVMessJSON
           | Some v \<Rightarrow> vmess_of_json env v skip))"

section \<open>One node\<close>

definition with_timeout :: "duration \<Rightarrow> 'a server_options_scheme \<Rightarrow> 'a server_options_scheme" where
  "with_timeout d x = (if 0 < d \<and> so_ConnectTimeout x = 0 then x\<lparr>so_ConnectTimeout := d\<rparr> else x)"

definition buildNodeOutbound ::
  "build_env \<Rightarrow> tag \<Rightarrow> string \<Rightarrow> bool \<Rightarrow> duration \<Rightarrow> node_error + outbound" where
  "buildNodeOutbound env t rawURI skip timeout =
     (case url_Parse rawURI of
        None \<Rightarrow> Inl ParseURI
      | Some u \<Rightarrow>
          (let scheme = ToLower (u_Scheme u);
               out = (\<lambda>x. Inr \<lparr>ob_Tag = t, ob_Options = x\<rparr>) in
           if scheme \<in> {''http'', ''https''} then
             bind_result (buildHTTPProxyOptions u skip) (\<lambda>x. out (OutHTTP (with_timeout timeout x)))
           else if scheme \<in> {''socks'', ''socks5'', ''socks4'', ''socks4a''} then
             bind_result (buildSOCKSProxyOptions u) (\<lambda>x. out (OutSOCKS (with_timeout timeout x)))
           else if scheme = ''vless'' then
             bind_result (buildVLESSOptions env u skip) (\<lambda>x. out (OutVLESS (with_timeout timeout x)))
           else if scheme = ''hysteria2'' then
             bind_result (buildHysteria2Options u skip) (\<lambda>x. out (OutHysteria2 (with_timeout timeout x)))
           else if scheme \<in> {''ss'', ''shadowsocks''} then
             bind_result (buildShadowsocksOptions u) (\<lambda>x. out (OutShadowsocks (with_timeout timeout x)))
           else if scheme = ''trojan'' then
             bind_result (buildTrojanOptions env u skip) (\<lambda>x. out (OutTrojan (with_timeout timeout x)))
           else if scheme = ''vmess'' then
             bind_result (buildVMessOptions env rawURI skip) (\<lambda>x. out (OutVMess (with_timeout timeout x)))
           else Inl (UnsupportedScheme (u_Scheme u))))"

section \<open>All nodes\<close>

text \<open>The variables of the loop over the enabled nodes.\<close>

record node_acc =
  na_memberTags :: "tag list"
  na_outbounds :: "outbound list"
  na_metadata :: "tag \<Rightarrow> member_meta option"
  na_failed :: "string list"
  na_usedTags :: "string \<Rightarrow> nat option"

definition no_nodes :: node_acc where
  "no_nodes = \<lparr>na_memberTags = [], na_outbounds = [], na_metadata = (\<lambda>_. None), na_failed = [],
               na_usedTags = (\<lambda>_. None)\<rparr>"

definition base_tag :: "node_config \<Rightarrow> node_acc \<Rightarrow> string" where
  "base_tag n acc =
     (if sanitizeTag (nc_Name n) = [] then ''node-'' @ Itoa (int (length (na_memberTags acc)) + 1)
      else sanitizeTag (nc_Name n))"

definition numbered :: "string \<Rightarrow> nat \<Rightarrow> string" where
  "numbered base k = base @ ''-'' @ Itoa (int k)"

text \<open>The tag of the next node, and the uses counted for its base tag.\<close>

definition choose_tag :: "node_config \<Rightarrow> node_acc \<Rightarrow> tag \<times> nat" where
  "choose_tag n acc =
     (case na_usedTags acc (base_tag n acc) of
        None \<Rightarrow> (base_tag n acc, 1)
      | Some k \<Rightarrow> (numbered (base_tag n acc) (k + 1), k + 1))"

definition node_meta :: "config \<Rightarrow> node_config \<Rightarrow> member_meta" where
  "node_meta c n =
     (let own = cf_Mode c = ''multi-port'' \<or> cf_Mode c = ''hybrid'' in
      \<lparr>mm_Name = nc_Name n, mm_URI = nc_URI n, mm_Mode = cf_Mode c,
       mm_ListenAddress = (if own then mpc_Address (cf_MultiPort c) else lc_Address (cf_Listener c)),
       mm_Port = (if own then nc_Port n else lc_Port (cf_Listener c)), mm_Geo = nc_Geo n\<rparr>)"

definition node_step :: "build_env \<Rightarrow> config \<Rightarrow> node_config \<Rightarrow> node_acc \<Rightarrow> node_acc" where
  "node_step env c n acc =
     (let (t, k) = choose_tag n acc;
          acc1 = acc\<lparr>na_usedTags := (na_usedTags acc)(base_tag n acc \<mapsto> k)\<rparr>
      in case buildNodeOutbound env t (nc_URI n) (cf_SkipCertVerify c) (cf_ConnectTimeout c) of
           Inl e \<Rightarrow> acc1\<lparr>na_failed := na_failed acc @ [nc_Name n]\<rparr>
         | Inr x \<Rightarrow>
             acc1\<lparr>na_memberTags := na_memberTags acc @ [t], na_outbounds := na_outbounds acc @ [x],
                  na_metadata := (na_metadata acc)(t \<mapsto> node_meta c n)\<rparr>)"

definition build_nodes :: "build_env \<Rightarrow> config \<Rightarrow> node_config list \<Rightarrow> node_acc" where
  "build_nodes env c ns = fold (node_step env c) ns no_nodes"

section \<open>Inbounds, pools and routes\<close>

record inbound =
  ib_Tag :: string
  ib_Listen :: "ip_addr option"
  ib_ListenPort :: port
  ib_Users :: "(string \<times> string) list"

record route_rule =
  rr_Inbound :: "string list"
  rr_Outbound :: tag

record sing_options =
  sg_LogLevel :: string
  sg_Inbounds :: "inbound list"
  sg_Outbounds :: "outbound list"
  sg_Rules :: "route_rule list"
  sg_Final :: tag

definition pool_Tag :: tag where
  "pool_Tag = ''proxy-pool''"

definition users :: "string \<Rightarrow> string \<Rightarrow> (string \<times> string) list" where
  "users username password = (if username \<noteq> [] then [(username, password)] else [])"

definition buildPoolInbound :: "config \<Rightarrow> string + inbound" where
  "buildPoolInbound c =
     (let l = cf_Listener c in
      case parseAddr (lc_Address l) of
        None \<Rightarrow> Inl ''parse listener address''
      | Some addr \<Rightarrow>
          Inr \<lparr>ib_Tag = ''http-in'', ib_Listen = addr, ib_ListenPort = lc_Port l,
               ib_Users = users (lc_Username l) (lc_Password l)\<rparr>)"

definition pool_outbound :: "config \<Rightarrow> node_acc \<Rightarrow> outbound" where
  "pool_outbound c acc =
     \<lparr>ob_Tag = pool_Tag,
      ob_Options = OutPool
        \<lparr>po_Mode = pc_Mode (cf_Pool c), po_Members = na_memberTags acc,
         po_FailureThreshold = pc_FailureThreshold (cf_Pool c),
         po_BlacklistDuration = pc_BlacklistDuration (cf_Pool c), po_Metadata = na_metadata acc\<rparr>\<rparr>"

definition per_pool_tag :: "tag \<Rightarrow> tag" where
  "per_pool_tag t = pool_Tag @ ''-'' @ t"

definition per_inbound_tag :: "tag \<Rightarrow> string" where
  "per_inbound_tag t = ''in-'' @ t"

text \<open>A tag without metadata reads as the zero \<open>MemberMeta\<close>.\<close>

definition meta_of :: "node_acc \<Rightarrow> tag \<Rightarrow> member_meta" where
  "meta_of acc t = (case na_metadata acc t of None \<Rightarrow> zero_meta | Some m \<Rightarrow> m)"

definition per_pool :: "config \<Rightarrow> node_acc \<Rightarrow> tag \<Rightarrow> outbound" where
  "per_pool c acc t =
     \<lparr>ob_Tag = per_pool_tag t,
      ob_Options = OutPool
        \<lparr>po_Mode = ''sequential'', po_Members = [t],
         po_FailureThreshold = pc_FailureThreshold (cf_Pool c),
         po_BlacklistDuration = pc_BlacklistDuration (cf_Pool c),
         po_Metadata = [t \<mapsto> meta_of acc t]\<rparr>\<rparr>"

definition per_inbound :: "config \<Rightarrow> ip_addr option \<Rightarrow> node_acc \<Rightarrow> tag \<Rightarrow> inbound" where
  "per_inbound c addr acc t =
     \<lparr>ib_Tag = per_inbound_tag t, ib_Listen = addr, ib_ListenPort = mm_Port (meta_of acc t),
      ib_Users = users (mpc_Username (cf_MultiPort c)) (mpc_Password (cf_MultiPort c))\<rparr>"

definition per_rule :: "tag \<Rightarrow> route_rule" where
  "per_rule t = \<lparr>rr_Inbound = [per_inbound_tag t], rr_Outbound = per_pool_tag t\<rparr>"

definition add_pool :: "config \<Rightarrow> node_acc \<Rightarrow> sing_options \<Rightarrow> string + sing_options" where
  "add_pool c acc o1 =
     bind_result (buildPoolInbound c) (\<lambda>ib.
       Inr (o1\<lparr>sg_Inbounds := sg_Inbounds o1 @ [ib], sg_Outbounds := sg_Outbounds o1 @ [pool_outbound c acc],
               sg_Final := pool_Tag\<rparr>))"

definition add_multi_port :: "config \<Rightarrow> node_acc \<Rightarrow> sing_options \<Rightarrow> string + sing_options" where
  "add_multi_port c acc o1 =
     (case parseAddr (mpc_Address (cf_MultiPort c)) of
        None \<Rightarrow> Inl ''parse multi-port address''
      | Some addr \<Rightarrow>
          (let ts = na_memberTags acc in
           Inr (o1\<lparr>sg_Inbounds := sg_Inbounds o1 @ map (per_inbound c addr acc) ts,
                   sg_Outbounds := sg_Outbounds o1 @ map (per_pool c acc) ts,
                   sg_Rules := sg_Rules o1 @ map per_rule ts\<rparr>)))"

definition no_valid_nodes :: "string \<Rightarrow> build_error" where
  "no_valid_nodes detail = NoValidNodes (''no valid nodes available: '' @ detail)"

definition all_failed :: "nat \<Rightarrow> string" where
  "all_failed k = ''all '' @ Itoa (int k) @ '' enabled nodes failed to build''"

definition pool_enabled :: "config \<Rightarrow> bool" where
  "pool_enabled c \<longleftrightarrow> cf_Mode c = ''pool'' \<or> cf_Mode c = ''hybrid''"

definition multi_port_enabled :: "config \<Rightarrow> bool" where
  "multi_port_enabled c \<longleftrightarrow> cf_Mode c = ''multi-port'' \<or> cf_Mode c = ''hybrid''"

definition assemble :: "config \<Rightarrow> node_acc \<Rightarrow> string + sing_options" where
  "assemble c acc =
     (let o0 = \<lparr>sg_LogLevel = ToLower (cf_LogLevel c), sg_Inbounds = [], sg_Outbounds = na_outbounds acc,
                sg_Rules = [], sg_Final = []\<rparr> in
      if \<not> pool_enabled c \<and> \<not> multi_port_enabled c then Inl (''unsupported mode '' @ cf_Mode c)
      else
        bind_result (if pool_enabled c then add_pool c acc o0 else Inr o0)
          (\<lambda>o1. if multi_port_enabled c then add_multi_port c acc o1 else Inr o1))"

definition Build :: "build_env \<Rightarrow> config option \<Rightarrow> build_error + sing_options" where
  "Build env co =
     (case co of
        None \<Rightarrow> Inl (BuildError ''config is nil'')
      | Some c \<Rightarrow>
          (let selected = config_FilterNodes (bd_regexps env) (Some c) in
           if cf_Nodes c = [] then Inl (no_valid_nodes ''no nodes configured'')
           else if selected = [] then Inl (no_valid_nodes ''no nodes matched node_filter'')
           else
             (let acc = build_nodes env c selected in
              if na_outbounds acc = [] then Inl (no_valid_nodes (all_failed (length selected)))
              else (case assemble c acc of Inl e \<Rightarrow> Inl (BuildError e) | Inr x \<Rightarrow> Inr x))))"

section \<open>Printed links\<close>

text \<open>
  A network interface: its flags, and its addresses as \<open>net.ParseCIDR\<close> reads them, \<open>None\<close> for the
  errors.
\<close>

record iface =
  if_up :: bool
  if_loopback :: bool
  if_addrs :: "ip_addr option list option"

definition add_host :: "string \<Rightarrow> string list \<Rightarrow> string list" where
  "add_host h0 hosts =
     (let h = TrimSpace h0 in if h = [] then hosts else if h \<in> set hosts then hosts else hosts @ [h])"

text \<open>The loops over addresses and interfaces; \<open>True\<close> is the early return with six hosts.\<close>

fun scan_addrs :: "ip_addr option list \<Rightarrow> string list \<Rightarrow> string list \<times> bool" where
  "scan_addrs [] hosts = (hosts, False)"
| "scan_addrs (None # as) hosts = scan_addrs as hosts"
| "scan_addrs (Some a # as) hosts =
     (if IsLoopback a then scan_addrs as hosts
      else
        (case addr_Unmap a of
           V6 _ _ \<Rightarrow> scan_addrs as hosts
         | V4 os \<Rightarrow>
             if os ! 0 = 169 \<and> os ! 1 = 254 then scan_addrs as hosts
             else
               (let hosts' = add_host (v4_text os) hosts in
                if 6 \<le> length hosts' then (hosts', True) else scan_addrs as hosts')))"

fun scan_ifaces :: "iface list \<Rightarrow> string list \<Rightarrow> string list" where
  "scan_ifaces [] hosts = hosts"
| "scan_ifaces (i # is) hosts =
     (if \<not> if_up i then scan_ifaces is hosts
      else if if_loopback i then scan_ifaces is hosts
      else
        (case if_addrs i of
           None \<Rightarrow> scan_ifaces is hosts
         | Some as \<Rightarrow>
             (case scan_addrs as hosts of
                (hosts', True) \<Rightarrow> hosts'
              | (hosts', False) \<Rightarrow> scan_ifaces is hosts')))"

definition proxyDisplayHosts :: "iface list option \<Rightarrow> string \<Rightarrow> string \<Rightarrow> string list" where
  "proxyDisplayHosts ifaces listen external =
     (let l0 = TrimSpace listen; ext = TrimSpace external; l = (if l0 = [] then ''0.0.0.0'' else l0) in
      if l \<noteq> ''0.0.0.0'' \<and> l \<noteq> ''::'' then [l]
      else
        (let hosts = add_host ''127.0.0.1'' (if ext \<noteq> [] then add_host ext [] else []) in
         case ifaces of None \<Rightarrow> hosts | Some is \<Rightarrow> scan_ifaces is hosts))"

text \<open>The URLs that \<open>printProxyLinks\<close> prints for the pool and for each node.\<close>

definition link :: "string \<Rightarrow> string \<Rightarrow> string \<Rightarrow> port \<Rightarrow> string" where
  "link username password host p =
     ''http://'' @ (if username \<noteq> [] then username @ '':'' @ password @ ''@'' else []) @
     host @ '':'' @ Itoa (uint p)"

definition pool_links :: "iface list option \<Rightarrow> config \<Rightarrow> string list" where
  "pool_links ifaces c =
     (let l = cf_Listener c in
      if pool_enabled c
      then map (\<lambda>host. link (lc_Username l) (lc_Password l) host (lc_Port l))
             (proxyDisplayHosts ifaces (lc_Address l) (cf_ExternalIP c))
      else [])"

definition node_link :: "config \<Rightarrow> string \<Rightarrow> node_config \<Rightarrow> string" where
  "node_link c host n =
     (let (username, password) =
        (if nc_Username n = [] then (mpc_Username (cf_MultiPort c), mpc_Password (cf_MultiPort c))
         else (nc_Username n, nc_Password n))
      in link username password host (nc_Port n))"

definition node_links :: "iface list option \<Rightarrow> config \<Rightarrow> string list" where
  "node_links ifaces c =
     (if multi_port_enabled c then
        (case proxyDisplayHosts ifaces (mpc_Address (cf_MultiPort c)) (cf_ExternalIP c) of
           [] \<Rightarrow> []
         | host # _ \<Rightarrow> map (node_link c host) (cf_Nodes c))
      else [])"

end
