(* ===== verification/Builder_Facts.thy ===== *)
theory Builder_Facts
  imports Builder Pool_Choice
begin

text \<open>
  Properties of the builder: its result is closed under references and its tags are distinct, it
  fails exactly when it should, connections leave through the nodes that they are meant for, the pools
  of a build can be created and started, and the hosts that it prints.
\<close>

section \<open>The loop over the nodes\<close>

definition node_options :: "build_env \<Rightarrow> config \<Rightarrow> node_config \<Rightarrow> node_error + outbound_options" where
  "node_options env c n =
     bind_result (buildNodeOutbound env [] (nc_URI n) (cf_SkipCertVerify c) (cf_ConnectTimeout c))
       (\<lambda>x. Inr (ob_Options x))"

definition node_builds :: "build_env \<Rightarrow> config \<Rightarrow> node_config \<Rightarrow> bool" where
  "node_builds env c n \<longleftrightarrow> (\<exists>x. node_options env c n = Inr x)"

definition is_pool :: "outbound_options \<Rightarrow> bool" where
  "is_pool x \<longleftrightarrow> (\<exists>p. x = OutPool p)"

lemma bind_result_simps [simp]:
  "bind_result (Inl e) f = Inl e" "bind_result (Inr a) f = f a"
  by (simp_all add: bind_result_def)

lemma bind_result_Inr: "bind_result r f = Inr b \<longleftrightarrow> (\<exists>a. r = Inr a \<and> f a = Inr b)"
  by (cases r) auto

lemma bind_result_Inl: "bind_result r f = Inl e \<longleftrightarrow> r = Inl e \<or> (\<exists>a. r = Inr a \<and> f a = Inl e)"
  by (cases r) auto

text \<open>The tag of an outbound is only copied.\<close>

lemma bind_bind: "bind_result (bind_result r f) g = bind_result r (\<lambda>x. bind_result (f x) g)"
  by (cases r) simp_all

lemma outbound_tag:
  "buildNodeOutbound env t uri skip d =
   bind_result (buildNodeOutbound env t' uri skip d) (\<lambda>x. Inr \<lparr>ob_Tag = t, ob_Options = ob_Options x\<rparr>)"
  unfolding buildNodeOutbound_def Let_def by (cases "url_Parse uri") (simp_all add: bind_bind)

lemma outbound_no_pool: "buildNodeOutbound env t uri skip d = Inr x \<Longrightarrow> \<not> is_pool (ob_Options x)"
  unfolding buildNodeOutbound_def Let_def
  by (auto simp: bind_result_Inr is_pool_def split: option.splits if_splits)

lemma outbound_cases:
  "buildNodeOutbound env t (nc_URI n) (cf_SkipCertVerify c) (cf_ConnectTimeout c) =
   bind_result (node_options env c n) (\<lambda>x. Inr \<lparr>ob_Tag = t, ob_Options = x\<rparr>)"
  unfolding node_options_def
  by (subst outbound_tag [of env t _ _ _ "[]"]) (simp add: bind_bind)

lemma node_options_no_pool: "node_options env c n = Inr x \<Longrightarrow> \<not> is_pool x"
  by (auto simp: node_options_def bind_result_Inr dest: outbound_no_pool)

lemma node_step_cases:
  "node_step env c n acc =
     (case node_options env c n of
        Inl e \<Rightarrow>
          acc\<lparr>na_usedTags := (na_usedTags acc)(base_tag n acc \<mapsto> snd (choose_tag n acc)),
              na_failed := na_failed acc @ [nc_Name n]\<rparr>
      | Inr x \<Rightarrow>
          acc\<lparr>na_usedTags := (na_usedTags acc)(base_tag n acc \<mapsto> snd (choose_tag n acc)),
              na_memberTags := na_memberTags acc @ [fst (choose_tag n acc)],
              na_outbounds := na_outbounds acc @ [\<lparr>ob_Tag = fst (choose_tag n acc), ob_Options = x\<rparr>],
              na_metadata := (na_metadata acc)(fst (choose_tag n acc) \<mapsto> node_meta c n)\<rparr>)"
  unfolding node_step_def outbound_cases
  by (cases "choose_tag n acc"; cases "node_options env c n") simp_all

text \<open>What holds after every round, for the nodes seen so far.\<close>

definition acc_ok :: "build_env \<Rightarrow> config \<Rightarrow> node_config list \<Rightarrow> node_acc \<Rightarrow> bool" where
  "acc_ok env c ns acc \<longleftrightarrow>
     map ob_Tag (na_outbounds acc) = na_memberTags acc \<and>
     map (Inr \<circ> ob_Options) (na_outbounds acc) = map (node_options env c) (filter (node_builds env c) ns) \<and>
     na_failed acc = map nc_Name (filter (\<lambda>n. \<not> node_builds env c n) ns) \<and>
     dom (na_metadata acc) = set (na_memberTags acc) \<and>
     (\<forall>t m. na_metadata acc t = Some m \<longrightarrow> (\<exists>n \<in> set ns. node_builds env c n \<and> m = node_meta c n))"

lemma build_nodes_snoc: "build_nodes env c (ns @ [n]) = node_step env c n (build_nodes env c ns)"
  by (simp add: build_nodes_def)

lemma acc_ok_build: "acc_ok env c ns (build_nodes env c ns)"
proof (induction ns rule: rev_induct)
  case Nil
  then show ?case by (simp add: acc_ok_def build_nodes_def no_nodes_def)
next
  case (snoc n ns)
  show ?case
  proof (cases "node_options env c n")
    case (Inl e)
    then have "\<not> node_builds env c n" by (simp add: node_builds_def)
    then show ?thesis
      using snoc Inl unfolding acc_ok_def build_nodes_snoc node_step_cases by auto
  next
    case (Inr x)
    then have "node_builds env c n" by (simp add: node_builds_def)
    then show ?thesis
      using snoc Inr unfolding acc_ok_def build_nodes_snoc node_step_cases by auto
  qed
qed

lemmas acc_facts = acc_ok_build [unfolded acc_ok_def, THEN conjunct1]
  acc_ok_build [unfolded acc_ok_def, THEN conjunct2, THEN conjunct1]
  acc_ok_build [unfolded acc_ok_def, THEN conjunct2, THEN conjunct2, THEN conjunct1]
  acc_ok_build [unfolded acc_ok_def, THEN conjunct2, THEN conjunct2, THEN conjunct2, THEN conjunct1]

lemma acc_members_empty:
  "na_outbounds (build_nodes env c ns) = [] \<longleftrightarrow> \<not> list_ex (node_builds env c) ns"
proof -
  have "na_outbounds (build_nodes env c ns) = [] \<longleftrightarrow> filter (node_builds env c) ns = []"
    using acc_facts(2) [of env c ns] by (metis Nil_is_map_conv)
  then show ?thesis by (auto simp: filter_empty_conv list_ex_iff)
qed

lemma acc_no_pool: "x \<in> set (na_outbounds (build_nodes env c ns)) \<Longrightarrow> \<not> is_pool (ob_Options x)"
proof -
  assume "x \<in> set (na_outbounds (build_nodes env c ns))"
  then have "(Inr \<circ> ob_Options) x \<in>
      set (map (node_options env c) (filter (node_builds env c) ns) :: (node_error + outbound_options) list)"
    unfolding acc_facts(2) [symmetric] by (simp only: set_map) (rule imageI)
  then obtain n where "node_options env c n = Inr (ob_Options x)" by auto
  then show ?thesis by (rule node_options_no_pool)
qed
section \<open>What a build refers to exists\<close>

text \<open>
  A closed set of options: a pool has members, they are outbounds to servers and each has its
  metadata; a rule leads from an inbound to an outbound, and so does the final route.
\<close>

definition server_tags :: "sing_options \<Rightarrow> tag set" where
  "server_tags o1 = {ob_Tag x |x. x \<in> set (sg_Outbounds o1) \<and> \<not> is_pool (ob_Options x)}"

definition pools_of :: "sing_options \<Rightarrow> pool_options set" where
  "pools_of o1 = {p. \<exists>x \<in> set (sg_Outbounds o1). ob_Options x = OutPool p}"

definition closed_options :: "sing_options \<Rightarrow> bool" where
  "closed_options o1 \<longleftrightarrow>
     (\<forall>p \<in> pools_of o1. po_Members p \<noteq> [] \<and> set (po_Members p) \<subseteq> server_tags o1 \<and>
        set (po_Members p) = dom (po_Metadata p)) \<and>
     (\<forall>r \<in> set (sg_Rules o1). set (rr_Inbound r) \<subseteq> ib_Tag ` set (sg_Inbounds o1) \<and>
        rr_Outbound r \<in> ob_Tag ` set (sg_Outbounds o1)) \<and>
     (sg_Final o1 \<noteq> [] \<longrightarrow> sg_Final o1 \<in> ob_Tag ` set (sg_Outbounds o1))"

text \<open>The options that \<open>assemble\<close> gives, in one equation.\<close>

definition pool_part :: "bool \<Rightarrow> 'a list \<Rightarrow> 'a list" where
  "pool_part b xs = (if b then xs else [])"

lemma assemble_Inr:
  "assemble c acc = Inr o1 \<longleftrightarrow>
     (pool_enabled c \<or> multi_port_enabled c) \<and>
     (\<exists>ib addr. (pool_enabled c \<longrightarrow> buildPoolInbound c = Inr ib) \<and>
        (multi_port_enabled c \<longrightarrow> parseAddr (mpc_Address (cf_MultiPort c)) = Some addr) \<and>
        o1 = \<lparr>sg_LogLevel = ToLower (cf_LogLevel c),
              sg_Inbounds = pool_part (pool_enabled c) [ib] @
                pool_part (multi_port_enabled c) (map (per_inbound c addr acc) (na_memberTags acc)),
              sg_Outbounds = na_outbounds acc @ pool_part (pool_enabled c) [pool_outbound c acc] @
                pool_part (multi_port_enabled c) (map (per_pool c acc) (na_memberTags acc)),
              sg_Rules = pool_part (multi_port_enabled c) (map per_rule (na_memberTags acc)),
              sg_Final = (if pool_enabled c then pool_Tag else [])\<rparr>)"
  by (auto simp: assemble_def add_pool_def add_multi_port_def bind_result_Inr pool_part_def Let_def
      split: option.splits)

lemma Build_Inr:
  "Build env (Some c) = Inr o1 \<longleftrightarrow>
     (let ns = config_FilterNodes (bd_regexps env) (Some c) in
      cf_Nodes c \<noteq> [] \<and> list_ex (node_builds env c) ns \<and> assemble c (build_nodes env c ns) = Inr o1)"
proof -
  have "list_ex (node_builds env c) [] \<longleftrightarrow> False" by simp
  then show ?thesis
    by (auto simp: Build_def Let_def acc_members_empty split: sum.splits)
qed

definition the_pool :: "outbound \<Rightarrow> pool_options" where
  "the_pool x = (case ob_Options x of OutPool p \<Rightarrow> p)"

lemma assembled_closed:
  assumes "assemble c (build_nodes env c ns) = Inr o1" and "list_ex (node_builds env c) ns"
  shows "closed_options o1"
proof -
  define acc where "acc = build_nodes env c ns"
  have tags: "map ob_Tag (na_outbounds acc) = na_memberTags acc" "dom (na_metadata acc) = set (na_memberTags acc)"
    unfolding acc_def by (rule acc_facts)+
  have ne: "na_outbounds acc \<noteq> []" using assms(2) by (simp add: acc_def acc_members_empty)
  then have ne': "na_memberTags acc \<noteq> []" using tags(1) by auto
  have plain: "\<not> is_pool (ob_Options x)" if "x \<in> set (na_outbounds acc)" for x
    using acc_no_pool that unfolding acc_def .
  have member: "\<exists>x. t = ob_Tag x \<and> x \<in> set (na_outbounds acc) \<and> \<not> is_pool (ob_Options x)"
    if "t \<in> set (na_memberTags acc)" for t
  proof -
    have "t \<in> ob_Tag ` set (na_outbounds acc)" using that by (metis tags(1) set_map)
    then show ?thesis using plain by blast
  qed
  have mem': "t \<in> ob_Tag ` set (na_outbounds acc)" if "t \<in> set (na_memberTags acc)" for t
    using that by (metis tags(1) set_map)
  obtain ib addr where o1: "o1 = \<lparr>sg_LogLevel = ToLower (cf_LogLevel c),
              sg_Inbounds = pool_part (pool_enabled c) [ib] @
                pool_part (multi_port_enabled c) (map (per_inbound c addr acc) (na_memberTags acc)),
              sg_Outbounds = na_outbounds acc @ pool_part (pool_enabled c) [pool_outbound c acc] @
                pool_part (multi_port_enabled c) (map (per_pool c acc) (na_memberTags acc)),
              sg_Rules = pool_part (multi_port_enabled c) (map per_rule (na_memberTags acc)),
              sg_Final = (if pool_enabled c then pool_Tag else [])\<rparr>"
    using assms(1) unfolding assemble_Inr acc_def by blast
  have servers: "set (na_memberTags acc) \<subseteq> server_tags o1"
    using member by (auto simp: o1 server_tags_def)
  have pools: "po_Members p \<noteq> [] \<and> set (po_Members p) \<subseteq> set (na_memberTags acc) \<and>
      set (po_Members p) = dom (po_Metadata p)" if "p \<in> pools_of o1" for p
  proof -
    have "ob_Options (pool_outbound c acc) = OutPool p \<or>
        (\<exists>t \<in> set (na_memberTags acc). ob_Options (per_pool c acc t) = OutPool p)"
      using that plain by (auto simp: o1 pools_of_def pool_part_def is_pool_def split: if_splits)
    then consider "p = the_pool (pool_outbound c acc)" | t where "t \<in> set (na_memberTags acc)" "p = the_pool (per_pool c acc t)"
      by (auto simp: the_pool_def)
    then show ?thesis
      by cases (use ne' tags(2) in \<open>simp_all add: the_pool_def pool_outbound_def per_pool_def\<close>)
  qed
  have rules: "set (rr_Inbound r) \<subseteq> ib_Tag ` set (sg_Inbounds o1) \<and>
      rr_Outbound r \<in> ob_Tag ` set (sg_Outbounds o1)" if r: "r \<in> set (sg_Rules o1)" for r
  proof -
    obtain t where t: "t \<in> set (na_memberTags acc)" "r = per_rule t" and m: "multi_port_enabled c"
      using r by (auto simp: o1 pool_part_def split: if_splits)
    have "per_inbound c addr acc t \<in> set (sg_Inbounds o1)" "per_pool c acc t \<in> set (sg_Outbounds o1)"
      using t(1) m by (simp_all add: o1 pool_part_def)
    moreover have "rr_Inbound r = [ib_Tag (per_inbound c addr acc t)]" "rr_Outbound r = ob_Tag (per_pool c acc t)"
      by (simp_all add: t(2) per_rule_def per_inbound_def per_pool_def)
    ultimately show ?thesis by simp
  qed
  have final: "sg_Final o1 \<noteq> [] \<Longrightarrow> sg_Final o1 \<in> ob_Tag ` set (sg_Outbounds o1)"
    by (auto simp: o1 pool_part_def pool_outbound_def split: if_splits)
  show ?thesis
    unfolding closed_options_def using servers pools rules final by blast
qed
section \<open>Tags\<close>

text \<open>
  The base tags that a list of nodes can have: the cleaned names, and numbered ones if some name leaves
  nothing.  They are apart when none of them is another one with a number behind it.
\<close>

definition base_tags :: "node_config list \<Rightarrow> tag set" where
  "base_tags ns =
     {sanitizeTag (nc_Name n) |n. n \<in> set ns \<and> sanitizeTag (nc_Name n) \<noteq> []} \<union>
     (if \<exists>n \<in> set ns. sanitizeTag (nc_Name n) = []
      then {''node-'' @ Itoa (int i) |i. 1 \<le> i \<and> i \<le> length ns} else {})"

definition tags_apart :: "tag set \<Rightarrow> bool" where
  "tags_apart B \<longleftrightarrow> (\<forall>b \<in> B. \<forall>b' \<in> B. \<forall>k. b \<noteq> numbered b' k)"

lemma Itoa_inject: "0 \<le> i \<Longrightarrow> 0 \<le> j \<Longrightarrow> Itoa i = Itoa j \<Longrightarrow> i = j"
proof -
  have "digits_value (Itoa i) = i" if "0 \<le> i" for i
    using that Itoa_nat_digits [of "nat i"] unfolding Itoa_def by auto
  then show "0 \<le> i \<Longrightarrow> 0 \<le> j \<Longrightarrow> Itoa i = Itoa j \<Longrightarrow> i = j" by metis
qed

lemma numbered_inject:
  assumes "numbered b k = numbered b' k'"
  shows "b = b' \<and> k = k'"
proof -
  have tail: "takeWhile is_digit (rev (numbered b k)) = rev (Itoa (int k))" for b k
  proof -
    have "\<forall>c \<in> set (rev (Itoa (int k))). is_digit c"
      using Itoa_digits [of "int k"] by (simp add: list_all_iff)
    moreover have "\<not> is_digit (CHR ''-'')" by code_simp
    ultimately show ?thesis
      using takeWhile_append2 [of "rev (Itoa (int k))" is_digit "CHR ''-'' # rev b"]
      by (simp add: numbered_def)
  qed
  have "Itoa (int k) = Itoa (int k')" by (metis assms rev_rev_ident tail)
  then have "int k = int k'" by (intro Itoa_inject) simp_all
  then have "k = k'" by simp
  then show ?thesis using assms by (simp add: numbered_def)
qed

definition tags_inv :: "tag set \<Rightarrow> node_acc \<Rightarrow> bool" where
  "tags_inv B acc \<longleftrightarrow>
     dom (na_usedTags acc) \<subseteq> B \<and>
     (\<forall>t \<in> set (na_memberTags acc). \<exists>b k. na_usedTags acc b = Some k \<and>
        (t = b \<or> (\<exists>j \<le> k. t = numbered b j))) \<and>
     distinct (na_memberTags acc)"

lemma base_tag_in: "n \<in> set ns \<Longrightarrow> length (na_memberTags acc) < length ns \<Longrightarrow> base_tag n acc \<in> base_tags ns"
proof (cases "sanitizeTag (nc_Name n) = []")
  case True
  assume "n \<in> set ns" "length (na_memberTags acc) < length ns"
  then have "''node-'' @ Itoa (int (Suc (length (na_memberTags acc)))) \<in> base_tags ns"
    using True unfolding base_tags_def by (intro UnI2) (auto intro!: exI [of _ "Suc (length (na_memberTags acc))"])
  moreover have "int (length (na_memberTags acc)) + 1 = int (Suc (length (na_memberTags acc)))" by simp
  ultimately show ?thesis
    using True unfolding base_tag_def by metis
qed (auto simp: base_tag_def base_tags_def)

lemma choose_tag_cases:
  obtains "na_usedTags acc (base_tag n acc) = None" "choose_tag n acc = (base_tag n acc, 1)"
  | k where "na_usedTags acc (base_tag n acc) = Some k"
      "choose_tag n acc = (numbered (base_tag n acc) (k + 1), k + 1)"
  by (cases "na_usedTags acc (base_tag n acc)") (auto simp: choose_tag_def)

lemma new_tag:
  assumes "tags_inv B acc" and "tags_apart B" and "base_tag n acc \<in> B"
  shows "fst (choose_tag n acc) \<notin> set (na_memberTags acc)"
proof
  assume "fst (choose_tag n acc) \<in> set (na_memberTags acc)"
  then obtain b k where used: "na_usedTags acc b = Some k"
    and t: "fst (choose_tag n acc) = b \<or> (\<exists>j \<le> k. fst (choose_tag n acc) = numbered b j)"
    using assms(1) unfolding tags_inv_def by blast
  have b: "b \<in> B" using used assms(1) by (auto simp: tags_inv_def)
  show False
  proof (cases rule: choose_tag_cases [of acc n])
    case 1
    then have "base_tag n acc \<noteq> b" using used by auto
    then show False using 1 t b assms(2,3) by (auto simp: tags_apart_def)
  next
    case (2 k')
    then show False
      using t b used assms(2,3) by (auto simp: tags_apart_def dest!: numbered_inject)
  qed
qed

lemma tags_inv_step:
  assumes "tags_inv B acc" and "tags_apart B" and "base_tag n acc \<in> B"
  shows "tags_inv B (node_step env c n acc)"
proof -
  let ?used = "(na_usedTags acc)(base_tag n acc \<mapsto> snd (choose_tag n acc))"
  have grown: "\<exists>b k. ?used b = Some k \<and> (t = b \<or> (\<exists>j \<le> k. t = numbered b j))"
    if t: "t \<in> set (na_memberTags acc)" for t
  proof -
    obtain b k where used: "na_usedTags acc b = Some k" and b: "t = b \<or> (\<exists>j \<le> k. t = numbered b j)"
      using assms(1) t unfolding tags_inv_def by blast
    have "\<exists>k' \<ge> k. ?used b = Some k'"
      using used by (cases rule: choose_tag_cases [of acc n]) auto
    then show ?thesis using b by (metis le_trans)
  qed
  have mine: "\<exists>b k. ?used b = Some k \<and>
      (fst (choose_tag n acc) = b \<or> (\<exists>j \<le> k. fst (choose_tag n acc) = numbered b j))"
    by (cases rule: choose_tag_cases [of acc n]) (rule exI [of _ "base_tag n acc"], auto)+
  have "dom ?used \<subseteq> B" using assms(1,3) by (auto simp: tags_inv_def)
  moreover have "distinct (na_memberTags acc @ [fst (choose_tag n acc)])"
    using assms(1) new_tag [OF assms] by (simp add: tags_inv_def)
  moreover have "distinct (na_memberTags acc)" using assms(1) by (simp add: tags_inv_def)
  ultimately show ?thesis
    using grown mine by (cases "node_options env c n") (auto simp: node_step_cases tags_inv_def)
qed

lemma members_length: "length (na_memberTags (build_nodes env c ns)) \<le> length ns"
proof -
  have "length (na_memberTags (build_nodes env c ns)) = length (filter (node_builds env c) ns)"
    using acc_facts(1,2) [of env c ns] by (metis length_map)
  then show ?thesis by simp
qed

lemma tags_inv_prefix:
  assumes "tags_apart (base_tags ns)" and "ns = xs @ ys"
  shows "tags_inv (base_tags ns) (build_nodes env c xs)"
  using assms(2)
proof (induction xs arbitrary: ys rule: rev_induct)
  case Nil
  then show ?case by (simp add: tags_inv_def build_nodes_def no_nodes_def)
next
  case (snoc x xs)
  have "base_tag x (build_nodes env c xs) \<in> base_tags ns"
    using members_length [of env c xs] snoc.prems by (intro base_tag_in) auto
  with snoc show ?case
    unfolding build_nodes_snoc by (intro tags_inv_step assms(1)) auto
qed

lemma tags_inv_build:
  "tags_apart (base_tags ns) \<Longrightarrow> tags_inv (base_tags ns) (build_nodes env c ns)"
  using tags_inv_prefix [of ns ns "[]"] by simp

lemma members_distinct:
  "tags_apart (base_tags ns) \<Longrightarrow> distinct (na_memberTags (build_nodes env c ns))"
  using tags_inv_build [of ns env c] by (simp add: tags_inv_def)
lemma metadata_members:
  assumes "tags_apart (base_tags ns)"
  shows "map (na_metadata (build_nodes env c ns)) (na_memberTags (build_nodes env c ns)) =
    map (Some \<circ> node_meta c) (filter (node_builds env c) ns)"
proof -
  let ?meta = "\<lambda>acc. map (na_metadata acc) (na_memberTags acc)"
  have "?meta (build_nodes env c xs) = map (Some \<circ> node_meta c) (filter (node_builds env c) xs)"
    if "ns = xs @ ys" for xs ys
    using that
  proof (induction xs arbitrary: ys rule: rev_induct)
    case Nil
    then show ?case by (simp add: build_nodes_def no_nodes_def)
  next
    case (snoc x xs)
    let ?acc = "build_nodes env c xs"
    have "base_tag x ?acc \<in> base_tags ns"
      using members_length [of env c xs] snoc.prems by (intro base_tag_in) auto
    moreover have "tags_inv (base_tags ns) ?acc"
      using snoc.prems by (intro tags_inv_prefix [OF assms]) simp
    ultimately have new: "fst (choose_tag x ?acc) \<notin> set (na_memberTags ?acc)"
      using new_tag [OF _ assms] by blast
    then have keep: "map ((na_metadata ?acc)(fst (choose_tag x ?acc) \<mapsto> m)) (na_memberTags ?acc) = ?meta ?acc" for m
      by auto
    have builds: "node_builds env c x = (\<exists>y. node_options env c x = Inr y)" by (simp add: node_builds_def)
    have IH: "?meta ?acc = map (Some \<circ> node_meta c) (filter (node_builds env c) xs)"
      using snoc by simp
    show ?case
      unfolding build_nodes_snoc
      by (cases "node_options env c x") (use IH keep in \<open>simp_all add: node_step_cases builds del: fun_upd_apply, simp\<close>)
  qed
  then show ?thesis by blast
qed

text \<open>No tag of a node is the tag of a pool or starts like one.\<close>

definition no_pool_names :: "tag set \<Rightarrow> bool" where
  "no_pool_names B \<longleftrightarrow> (\<forall>b \<in> B. \<not> HasPrefix b pool_Tag)"

lemma member_form:
  assumes "tags_inv B acc" and "t \<in> set (na_memberTags acc)"
  obtains b where "b \<in> B" "t = b \<or> (\<exists>j. t = numbered b j)"
  using assms unfolding tags_inv_def by blast

lemma numbered_no_pool:
  assumes "\<not> HasPrefix b pool_Tag"
  shows "\<not> HasPrefix (numbered b k) pool_Tag"
proof
  assume "HasPrefix (numbered b k) pool_Tag"
  then have "prefix pool_Tag (b @ CHR ''-'' # Itoa (int k))" by (simp add: HasPrefix_iff numbered_def)
  moreover have "\<not> prefix pool_Tag b" using assms by (simp add: HasPrefix_iff)
  ultimately obtain ys where ys: "pool_Tag = b @ ys" "ys \<noteq> []" "prefix ys (CHR ''-'' # Itoa (int k))"
    by (metis append_Nil2 prefix_append prefix_order.refl)
  then have "last pool_Tag \<in> set (CHR ''-'' # Itoa (int k))"
    using set_mono_prefix [OF ys(3)] by (metis last_appendR last_in_set subsetD)
  moreover have "last pool_Tag = CHR ''l''" by (simp add: pool_Tag_def)
  moreover have "\<not> is_digit (CHR ''l'')" by code_simp
  ultimately show False
    using Itoa_digits [of "int k"] by (auto simp: list_all_iff)
qed

lemma member_no_pool:
  assumes "tags_inv B acc" and "no_pool_names B" and "t \<in> set (na_memberTags acc)"
  shows "\<not> HasPrefix t pool_Tag"
  using assms numbered_no_pool by (metis member_form no_pool_names_def)

lemma buildPoolInbound_fields:
  "buildPoolInbound c = Inr ib \<Longrightarrow> ib_Tag ib = ''http-in'' \<and> ib_ListenPort ib = lc_Port (cf_Listener c) \<and>
   ib_Users ib = users (lc_Username (cf_Listener c)) (lc_Password (cf_Listener c))"
  by (auto simp: buildPoolInbound_def Let_def split: option.splits)

lemma distinct_outbound_tags:
  assumes "tags_apart (base_tags ns)" and "no_pool_names (base_tags ns)"
    and "assemble c (build_nodes env c ns) = Inr o1"
  shows "distinct (map ob_Tag (sg_Outbounds o1))" "distinct (map ib_Tag (sg_Inbounds o1))"
proof -
  let ?acc = "build_nodes env c ns"
  let ?ts = "na_memberTags ?acc"
  have d: "distinct ?ts" by (rule members_distinct [OF assms(1)])
  have per: "HasPrefix (per_pool_tag t) pool_Tag" "per_pool_tag t \<noteq> pool_Tag" for t
    by (simp_all add: per_pool_tag_def HasPrefix_def pool_Tag_def)
  have mem: "\<not> HasPrefix t pool_Tag" if "t \<in> set ?ts" for t
    using member_no_pool [OF tags_inv_build [OF assms(1)] assms(2) that] .
  have own: "HasPrefix pool_Tag pool_Tag" by (simp add: HasPrefix_def)
  have inj: "inj per_pool_tag" "inj per_inbound_tag"
    by (auto intro: injI simp: per_pool_tag_def per_inbound_tag_def)
  have tags: "map ob_Tag (sg_Outbounds o1) = ?ts @ pool_part (pool_enabled c) [pool_Tag] @
      pool_part (multi_port_enabled c) (map per_pool_tag ?ts)"
    using assms(3) acc_facts(1) [of env c ns]
    by (auto simp: assemble_Inr pool_part_def pool_outbound_def per_pool_def)
  have "distinct (map per_pool_tag ?ts)" "distinct (map per_inbound_tag ?ts)"
    using d inj [THEN inj_on_subset] by (simp_all add: distinct_map)
  then show "distinct (map ob_Tag (sg_Outbounds o1))"
    unfolding tags using d mem per own by (auto simp: pool_part_def dest: sym)
  have inb: "map ib_Tag (sg_Inbounds o1) = pool_part (pool_enabled c) [''http-in''] @
      pool_part (multi_port_enabled c) (map per_inbound_tag ?ts)"
    using assms(3) by (auto simp: assemble_Inr pool_part_def per_inbound_def dest: buildPoolInbound_fields)
  have "''http-in'' \<notin> range per_inbound_tag" by (auto simp: per_inbound_tag_def)
  then show "distinct (map ib_Tag (sg_Inbounds o1))"
    unfolding inb using \<open>distinct (map per_inbound_tag ?ts)\<close> by (auto simp: pool_part_def)
qed
section \<open>Where a connection leaves\<close>

text \<open>
  What the options mean to sing-box, as documented: the first rule that names the inbound decides on
  the outbound, otherwise the final one is taken, and a pool sends a connection through one of
  its members.
\<close>

definition find_tag :: "tag \<Rightarrow> outbound list \<Rightarrow> outbound option" where
  "find_tag t xs = find (\<lambda>x. ob_Tag x = t) xs"

definition target_tag :: "sing_options \<Rightarrow> string \<Rightarrow> tag" where
  "target_tag o1 ib =
     (case find (\<lambda>r. ib \<in> set (rr_Inbound r)) (sg_Rules o1) of
        Some r \<Rightarrow> rr_Outbound r | None \<Rightarrow> sg_Final o1)"

definition exits :: "sing_options \<Rightarrow> string \<Rightarrow> outbound_options list" where
  "exits o1 ib =
     (case find_tag (target_tag o1 ib) (sg_Outbounds o1) of
        None \<Rightarrow> []
      | Some x \<Rightarrow>
          (case ob_Options x of
             OutPool p \<Rightarrow>
               List.map_filter (\<lambda>t. map_option ob_Options (find_tag t (sg_Outbounds o1))) (po_Members p)
           | y \<Rightarrow> [y]))"

lemma find_tag_distinct:
  "distinct (map ob_Tag xs) \<Longrightarrow> x \<in> set xs \<Longrightarrow> find_tag (ob_Tag x) xs = Some x"
  unfolding find_tag_def by (induction xs) auto

lemma find_rule:
  "distinct ts \<Longrightarrow> t \<in> set ts \<Longrightarrow>
   find (\<lambda>r. per_inbound_tag t \<in> set (rr_Inbound r)) (map per_rule ts) = Some (per_rule t)"
  by (induction ts) (auto simp: per_rule_def per_inbound_tag_def)

lemma find_no_rule:
  "find (\<lambda>r. ''http-in'' \<in> set (rr_Inbound r)) (map per_rule ts) = None"
  by (induction ts) (auto simp: per_rule_def per_inbound_tag_def)

lemma map_filter_total: "\<forall>x \<in> set xs. f x = Some (g x) \<Longrightarrow> List.map_filter f xs = map g xs"
  by (induction xs) (auto simp: List.map_filter_simps)

lemma projr_options:
  "map (Inr \<circ> ob_Options) xs = map (node_options env c) ns \<Longrightarrow>
   map ob_Options xs = map (\<lambda>n. projr (node_options env c n)) ns"
  by (auto simp: list_eq_iff_nth_eq) (metis sum.sel(2))

text \<open>
  C1. Where connections leave.  When the tags of the enabled nodes are apart, the inbounds are the pool's,
  if the mode has it, and one per node that can be built, in the order of the nodes, if the mode
  has these.  A connection to the pool's port leaves through any of the built nodes, and one to a
  node's own port through exactly this node.
\<close>

theorem connections_leave_through:
  assumes "Build env (Some c) = Inr o1"
    and "ns = config_FilterNodes (bd_regexps env) (Some c)"
    and "tags_apart (base_tags ns)" and "no_pool_names (base_tags ns)"
    and "built = filter (node_builds env c) ns"
    and "out = (\<lambda>n. projr (node_options env c n))"
  shows "map (\<lambda>ib. (ib_ListenPort ib, exits o1 (ib_Tag ib))) (sg_Inbounds o1) =
    (if pool_enabled c then [(lc_Port (cf_Listener c), map out built)] else []) @
    (if multi_port_enabled c then
       map (\<lambda>n. (nc_Port n, [out n])) built else [])"
proof -
  define acc where "acc = build_nodes env c ns"
  let ?ts = "na_memberTags acc"
  have asm: "assemble c acc = Inr o1"
    using assms(1,2) by (simp add: Build_Inr Let_def acc_def)
  obtain ib addr where ib: "pool_enabled c \<Longrightarrow> buildPoolInbound c = Inr ib"
    and inb: "sg_Inbounds o1 = pool_part (pool_enabled c) [ib] @
                pool_part (multi_port_enabled c) (map (per_inbound c addr acc) ?ts)"
    and out: "sg_Outbounds o1 = na_outbounds acc @ pool_part (pool_enabled c) [pool_outbound c acc] @
                pool_part (multi_port_enabled c) (map (per_pool c acc) ?ts)"
    and rules: "sg_Rules o1 = pool_part (multi_port_enabled c) (map per_rule ?ts)"
    and final: "sg_Final o1 = (if pool_enabled c then pool_Tag else [])"
    using asm unfolding assemble_Inr by auto
  have d: "distinct (map ob_Tag (sg_Outbounds o1))" and dts: "distinct ?ts"
    using distinct_outbound_tags(1) [OF assms(3,4)] asm members_distinct [OF assms(3)]
    by (simp_all add: acc_def)
  have tags: "map ob_Tag (na_outbounds acc) = ?ts" unfolding acc_def by (rule acc_facts)
  have opts: "map ob_Options (na_outbounds acc) = map out built"
    unfolding assms(5,6) acc_def by (rule projr_options [OF acc_facts(2)])
  have metas: "map (na_metadata acc) ?ts = map (Some \<circ> node_meta c) built"
    unfolding acc_def assms(5) by (rule metadata_members [OF assms(3)])
  have found: "find_tag (ob_Tag x) (sg_Outbounds o1) = Some x" if "x \<in> set (sg_Outbounds o1)" for x
    using find_tag_distinct [OF d that] .
  have server: "find_tag (ob_Tag x) (sg_Outbounds o1) = Some x" if "x \<in> set (na_outbounds acc)" for x
    using found that by (simp add: out)
  have members: "List.map_filter (\<lambda>t. map_option ob_Options (find_tag t (sg_Outbounds o1))) (map ob_Tag xs) =
      map ob_Options xs" if "set xs \<subseteq> set (na_outbounds acc)" for xs
  proof -
    have "List.map_filter (\<lambda>x. map_option ob_Options (find_tag (ob_Tag x) (sg_Outbounds o1))) xs = map ob_Options xs"
      by (rule map_filter_total) (use server that in auto)
    then show ?thesis by (simp add: List.map_filter_def comp_def filter_map)
  qed
  have pool: "exits o1 ''http-in'' = map out built" if p: "pool_enabled c"
  proof -
    have "target_tag o1 ''http-in'' = ob_Tag (pool_outbound c acc)"
      using p find_no_rule by (simp add: target_tag_def rules final pool_part_def pool_outbound_def)
    moreover have "find_tag (ob_Tag (pool_outbound c acc)) (sg_Outbounds o1) = Some (pool_outbound c acc)"
      using p by (intro found) (simp add: out pool_part_def)
    ultimately show ?thesis
      using members [of "na_outbounds acc"] by (simp add: exits_def pool_outbound_def tags opts)
  qed
  have own: "exits o1 (per_inbound_tag (ob_Tag x)) = [ob_Options x]"
    if m: "multi_port_enabled c" and x: "x \<in> set (na_outbounds acc)" for x
  proof -
    have t: "ob_Tag x \<in> set ?ts" using x by (metis image_eqI set_map tags)
    have "target_tag o1 (per_inbound_tag (ob_Tag x)) = ob_Tag (per_pool c acc (ob_Tag x))"
      using m find_rule [OF dts t] by (simp add: target_tag_def rules pool_part_def per_rule_def per_pool_def)
    moreover have "find_tag (ob_Tag (per_pool c acc (ob_Tag x))) (sg_Outbounds o1) = Some (per_pool c acc (ob_Tag x))"
      using m t by (intro found) (simp add: out pool_part_def)
    ultimately show ?thesis
      using members [of "[x]"] x by (simp add: exits_def per_pool_def)
  qed
  have ports: "map (\<lambda>t. mm_Port (meta_of acc t)) ?ts = map (\<lambda>n. mm_Port (node_meta c n)) built"
  proof -
    have "map (\<lambda>m. case m of None \<Rightarrow> mm_Port zero_meta | Some x \<Rightarrow> mm_Port x) (map (na_metadata acc) ?ts) =
        map (\<lambda>m. case m of None \<Rightarrow> mm_Port zero_meta | Some x \<Rightarrow> mm_Port x) (map (Some \<circ> node_meta c) built)"
      by (simp only: metas)
    then show ?thesis by (simp add: meta_of_def comp_def option.case_distrib [of mm_Port])
  qed
  have "map (\<lambda>t. exits o1 (per_inbound_tag t)) ?ts = map (\<lambda>n. [out n]) built" if "multi_port_enabled c"
  proof -
    have "map (\<lambda>t. exits o1 (per_inbound_tag t)) ?ts = map (\<lambda>x. [ob_Options x]) (na_outbounds acc)"
      unfolding tags [symmetric] using own that by simp
    also have "\<dots> = map (\<lambda>y. [y]) (map out built)" unfolding opts [symmetric] by simp
    finally show ?thesis by simp
  qed
  then have multi: "map (\<lambda>ib. (ib_ListenPort ib, exits o1 (ib_Tag ib))) (map (per_inbound c addr acc) ?ts) =
      map (\<lambda>n. (mm_Port (node_meta c n), [out n])) built" if "multi_port_enabled c"
    using that ports by (simp add: per_inbound_def comp_def list_eq_iff_nth_eq)
  have port: "mm_Port (node_meta c n) = nc_Port n" if "multi_port_enabled c" for n
    using that by (auto simp: node_meta_def multi_port_enabled_def Let_def)
  have "ib_Tag ib = ''http-in'' \<and> ib_ListenPort ib = lc_Port (cf_Listener c)" if "pool_enabled c"
    using buildPoolInbound_fields [OF ib [OF that]] by simp
  then show ?thesis
    using pool multi port by (auto simp: inb pool_part_def multi_port_enabled_def)
qed
section \<open>Properties of a build\<close>

text \<open>
  C8. Well-formed options.  Whatever the configuration, the options of a successful build are closed:
  pools have members, all of them outbounds to servers with metadata, and rules and the final route
  lead to outbounds that exist.
\<close>

theorem built_options_closed:
  assumes "Build env (Some c) = Inr o1"
  shows "closed_options o1"
  using assms assembled_closed by (auto simp: Build_Inr Let_def)


lemma servers_of_build:
  assumes "assemble c (build_nodes env c ns) = Inr o1"
  shows "map ob_Options (filter (\<lambda>x. \<not> is_pool (ob_Options x)) (sg_Outbounds o1)) =
    map (\<lambda>n. projr (node_options env c n)) (filter (node_builds env c) ns)"
proof -
  have "filter (\<lambda>x. \<not> is_pool (ob_Options x)) (na_outbounds (build_nodes env c ns)) = na_outbounds (build_nodes env c ns)"
    using acc_no_pool by (auto intro: filter_True)
  moreover have "is_pool (ob_Options (pool_outbound c acc))" "is_pool (ob_Options (per_pool c acc t))" for acc t
    by (simp_all add: is_pool_def pool_outbound_def per_pool_def)
  ultimately have "filter (\<lambda>x. \<not> is_pool (ob_Options x)) (sg_Outbounds o1) = na_outbounds (build_nodes env c ns)"
    using assms by (auto simp: assemble_Inr pool_part_def)
  then show ?thesis
    using projr_options [OF acc_facts(2) [of env c ns]] by simp
qed

text \<open>
  C16. The outcome of a build.  It reports that there are no valid nodes exactly when no enabled node can
  be built, and otherwise succeeds exactly when the mode is known and the listen addresses that the
  mode needs parse; a node that cannot be built is left out and the others are built in their order.
\<close>

theorem Build_outcome:
  assumes "ns = config_FilterNodes (bd_regexps env) (Some c)"
  shows "((\<exists>e. Build env (Some c) = Inl (NoValidNodes e)) \<longleftrightarrow>
      cf_Nodes c = [] \<or> \<not> list_ex (node_builds env c) ns) \<and>
    ((\<exists>o1. Build env (Some c) = Inr o1) \<longleftrightarrow>
      cf_Nodes c \<noteq> [] \<and> list_ex (node_builds env c) ns \<and> (pool_enabled c \<or> multi_port_enabled c) \<and>
      (pool_enabled c \<longrightarrow> parseAddr (lc_Address (cf_Listener c)) \<noteq> None) \<and>
      (multi_port_enabled c \<longrightarrow> parseAddr (mpc_Address (cf_MultiPort c)) \<noteq> None)) \<and>
    (\<forall>o1. Build env (Some c) = Inr o1 \<longrightarrow>
      map ob_Options (filter (\<lambda>x. \<not> is_pool (ob_Options x)) (sg_Outbounds o1)) =
      map (\<lambda>n. projr (node_options env c n)) (filter (node_builds env c) ns))"
proof -
  have "(\<exists>ib. buildPoolInbound c = Inr ib) \<longleftrightarrow> parseAddr (lc_Address (cf_Listener c)) \<noteq> None"
    by (auto simp: buildPoolInbound_def Let_def split: option.splits)
  then have "(\<exists>o1. Build env (Some c) = Inr o1) \<longleftrightarrow>
      cf_Nodes c \<noteq> [] \<and> list_ex (node_builds env c) ns \<and> (pool_enabled c \<or> multi_port_enabled c) \<and>
      (pool_enabled c \<longrightarrow> parseAddr (lc_Address (cf_Listener c)) \<noteq> None) \<and>
      (multi_port_enabled c \<longrightarrow> parseAddr (mpc_Address (cf_MultiPort c)) \<noteq> None)"
    unfolding Build_Inr Let_def assms [symmetric] assemble_Inr by blast
  moreover have "(\<exists>e. Build env (Some c) = Inl (NoValidNodes e)) \<longleftrightarrow>
      cf_Nodes c = [] \<or> \<not> list_ex (node_builds env c) ns"
    by (auto simp: Build_def Let_def assms [symmetric] acc_members_empty no_valid_nodes_def split: sum.splits)
  moreover have "map ob_Options (filter (\<lambda>x. \<not> is_pool (ob_Options x)) (sg_Outbounds o1)) =
      map (\<lambda>n. projr (node_options env c n)) (filter (node_builds env c) ns)"
    if "Build env (Some c) = Inr o1" for o1
    using that servers_of_build [of c env ns o1] by (simp add: Build_Inr Let_def assms)
  ultimately show ?thesis by blast
qed

section \<open>The pools of a build start\<close>

lemma pools_register_members:
  "pools (fold (register_member p) ts w) = pools w"
proof (induction ts arbitrary: w)
  case (Cons t ts)
  have "pools (register_member p t w) = pools w" by (simp add: register_member_def split_beta Let_def)
  with Cons show ?case by simp
qed simp

lemma newPool_pool:
  assumes "po_Members p \<noteq> []"
  shows "\<exists>w1. newPool True mon p w = (Inr (next_pool w), w1) \<and>
    pl_members (pools w1 (next_pool w)) = [] \<and> pl_options (pools w1 (next_pool w)) = normalizeOptions p"
  using assms by (simp add: newPool_def Let_def pools_register_members)

text \<open>
  C38. From the options to running pools.  Given an outbound manager that knows the outbounds of a build,
  every pool of the build is created and initialised without an error, with one member per tag of the
  configuration, each on the outbound of its tag.
\<close>

theorem built_pools_start:
  assumes "Build env (Some c) = Inr o1" and "p \<in> pools_of o1"
    and "\<And>t. t \<in> server_tags o1 \<Longrightarrow> mgr t \<noteq> None"
  shows "\<exists>a w1 w2. newPool True mon p w = (Inr a, w1) \<and> initializeMembers a mgr w1 = (None, w2) \<and>
    map mb_tag (pl_members (pools w2 a)) = po_Members p \<and>
    map (\<lambda>m. Some (mb_outbound m)) (pl_members (pools w2 a)) = map mgr (po_Members p)"
proof -
  have "closed_options o1" using assms(1) assembled_closed by (auto simp: Build_Inr Let_def)
  then have p: "po_Members p \<noteq> []" "\<forall>t \<in> set (po_Members p). mgr t \<noteq> None"
    using assms(2,3) unfolding closed_options_def by blast+
  obtain w1 where w1: "newPool True mon p w = (Inr (next_pool w), w1)"
    "pl_members (pools w1 (next_pool w)) = []" "pl_options (pools w1 (next_pool w)) = normalizeOptions p"
    using newPool_pool [OF p(1)] by blast
  have mem: "po_Members (normalizeOptions p) = po_Members p" by (simp add: normalizeOptions_def)
  obtain new w2 where "init_loop (next_pool w) mgr (po_Members p) [] w1 = (Inr new, w2)"
    "map mb_tag new = po_Members p" "map (\<lambda>m. Some (mb_outbound m)) new = map mgr (po_Members p)"
    using init_loop_found [OF p(2), of "next_pool w" "[]" w1] by (metis append_Nil prod.collapse)
  then show ?thesis
    using w1 by (intro exI [of _ "next_pool w"] exI [of _ w1]
        exI [of _ "upd_pool (next_pool w) (\<lambda>x. x\<lparr>pl_members := new\<rparr>) w2"]) (simp add: initializeMembers_def mem)
qed
section \<open>Printed hosts\<close>

definition hosts_ok :: "string list \<Rightarrow> bool" where
  "hosts_ok hs \<longleftrightarrow> distinct hs \<and> (\<forall>h \<in> set hs. h \<noteq> [] \<and> trimmed h)"

lemma add_host_ok: "hosts_ok hs \<Longrightarrow> hosts_ok (add_host h hs)"
  by (auto simp: hosts_ok_def add_host_def Let_def)

lemma add_host_length: "length (add_host h hs) \<le> Suc (length hs)" "prefix hs (add_host h hs)"
  by (auto simp: add_host_def Let_def)

lemma scan_addrs_ok:
  "hosts_ok hs \<Longrightarrow> length hs < 6 \<Longrightarrow> scan_addrs as hs = (hs', b) \<Longrightarrow>
   hosts_ok hs' \<and> prefix hs hs' \<and> length hs' \<le> 6 \<and> (b = (length hs' = 6))"
proof (induction as hs arbitrary: hs' b rule: scan_addrs.induct)
  case (3 a as hs)
  show ?case
  proof (cases "IsLoopback a")
    case False
    show ?thesis
    proof (cases "addr_Unmap a")
      case (V4 os)
      let ?hs = "add_host (v4_text os) hs"
      have ok: "hosts_ok ?hs" "length ?hs \<le> 6" "prefix hs ?hs"
        using add_host_ok [OF "3.prems"(1)] add_host_length [where h = "v4_text os" and hs = hs] "3.prems"(2) by auto
      consider (local_net) "os ! 0 = 169 \<and> os ! 1 = 254"
        | (full) "\<not> (os ! 0 = 169 \<and> os ! 1 = 254)" "6 \<le> length ?hs"
        | (far) "\<not> (os ! 0 = 169 \<and> os ! 1 = 254)" "\<not> 6 \<le> length ?hs"
        by blast
      then show ?thesis
      proof cases
        case local_net
        then have "scan_addrs as hs = (hs', b)" using "3.prems"(3) False V4 by simp
        then show ?thesis by (rule "3.IH"(2) [OF False V4 local_net "3.prems"(1,2)])
      next
        case full
        then show ?thesis using "3.prems"(3) False V4 ok by (auto simp: Let_def)
      next
        case far
        then have run: "scan_addrs as ?hs = (hs', b)"
          using "3.prems"(3) False V4 far by (simp only: scan_addrs.simps if_False simp_thms ip_addr.case Let_def)
        have "hosts_ok hs' \<and> prefix ?hs hs' \<and> length hs' \<le> 6 \<and> (b = (length hs' = 6))"
          by (rule "3.IH"(3) [OF False V4 _ refl _ ok(1) _ run]) (use far in auto)
        then show ?thesis using ok(3) prefix_order.trans by blast
      qed
    next
      case (V6 os z)
      then have "scan_addrs as hs = (hs', b)" using "3.prems"(3) False by simp
      then show ?thesis by (rule "3.IH"(4) [OF False V6 "3.prems"(1,2)])
    qed
  next
    case True
    then have "scan_addrs as hs = (hs', b)" using "3.prems"(3) by simp
    then show ?thesis by (rule "3.IH"(1) [OF True "3.prems"(1,2)])
  qed
qed auto

lemma scan_ifaces_ok:
  "hosts_ok hs \<Longrightarrow> length hs < 6 \<Longrightarrow>
   hosts_ok (scan_ifaces is hs) \<and> prefix hs (scan_ifaces is hs) \<and> length (scan_ifaces is hs) \<le> 6"
proof (induction "is" hs rule: scan_ifaces.induct)
  case (2 i "is" hs)
  show ?case
  proof (cases "if_up i \<and> \<not> if_loopback i \<and> if_addrs i \<noteq> None")
    case True
    then obtain as where as: "if_addrs i = Some as" by auto
    obtain hs' b where s: "scan_addrs as hs = (hs', b)" by fastforce
    note ok = scan_addrs_ok [OF "2.prems" s]
    show ?thesis
    proof (cases b)
      case False
      then have "hosts_ok (scan_ifaces is hs') \<and> prefix hs' (scan_ifaces is hs') \<and> length (scan_ifaces is hs') \<le> 6"
        using ok "2.IH"(4) True as s by auto
      then show ?thesis using True as s ok False prefix_order.trans by auto
    qed (use True as s ok in auto)
  qed (use 2 in \<open>auto split: option.splits\<close>)
qed simp

text \<open>
  Printed hosts.  For a specific listen address only this one is printed.  Otherwise between one and
  six hosts are printed, none twice and none blank, starting with the external address if there is
  one and with the loopback address else, whatever interfaces the machine has.
\<close>

theorem proxyDisplayHosts_bounds:
  "(if TrimSpace listen \<in> {[], ''0.0.0.0'', ''::''}
    then hd (proxyDisplayHosts ifaces listen external) =
      (if TrimSpace external \<noteq> [] then TrimSpace external else ''127.0.0.1'')
    else proxyDisplayHosts ifaces listen external = [TrimSpace listen]) \<and>
   1 \<le> length (proxyDisplayHosts ifaces listen external) \<and>
   length (proxyDisplayHosts ifaces listen external) \<le> 6 \<and>
   distinct (proxyDisplayHosts ifaces listen external) \<and>
   list_all (\<lambda>h. h \<noteq> [] \<and> TrimSpace h = h) (proxyDisplayHosts ifaces listen external)"
proof -
  have local: "TrimSpace ''127.0.0.1'' = ''127.0.0.1''" by code_simp
  define first where
    "first = (if TrimSpace external \<noteq> [] then add_host (TrimSpace external) [] else [])"
  define hosts where "hosts = add_host ''127.0.0.1'' first"
  have ok: "hosts_ok hosts" "length hosts < 6" "hosts \<noteq> []"
    "hd hosts = (if TrimSpace external \<noteq> [] then TrimSpace external else ''127.0.0.1'')"
  proof -
    have first: "first = (if TrimSpace external \<noteq> [] then [TrimSpace external] else [])"
      by (simp add: first_def add_host_def)
    have "hosts_ok first" unfolding first hosts_ok_def by simp
    then show "hosts_ok hosts" unfolding hosts_def by (rule add_host_ok)
    show "length hosts < 6" "hosts \<noteq> []"
      "hd hosts = (if TrimSpace external \<noteq> [] then TrimSpace external else ''127.0.0.1'')"
      using local by (auto simp: hosts_def first add_host_def Let_def)
  qed
  have all: "hosts_ok xs \<and> hd xs = hd hosts \<and> 1 \<le> length xs \<and> length xs \<le> 6"
    if xs: "xs = (case ifaces of None \<Rightarrow> hosts | Some is \<Rightarrow> scan_ifaces is hosts)" for xs
  proof -
    have xs': "hosts_ok xs \<and> prefix hosts xs \<and> length xs \<le> 6"
    proof (cases ifaces)
      case None
      then show ?thesis using ok(1,2) xs by simp
    next
      case (Some "is")
      then show ?thesis using scan_ifaces_ok [OF ok(1,2), of "is"] xs by simp
    qed
    obtain h hs where h: "hosts = h # hs" using ok(3) by (cases hosts) auto
    obtain ys where "xs = h # hs @ ys" using xs' h by (auto simp: prefix_def)
    then show ?thesis using xs' h by simp
  qed
  show ?thesis
  proof (cases "TrimSpace listen \<in> {[], ''0.0.0.0'', ''::''}")
    case True
    then have eq: "proxyDisplayHosts ifaces listen external =
        (case ifaces of None \<Rightarrow> hosts | Some is \<Rightarrow> scan_ifaces is hosts)"
      unfolding proxyDisplayHosts_def Let_def hosts_def first_def by (auto split: option.splits)
    have "list_all (\<lambda>h. h \<noteq> [] \<and> TrimSpace h = h) (proxyDisplayHosts ifaces listen external)"
      using all [OF eq] TrimSpace_trimmed unfolding hosts_ok_def list_all_iff by blast
    then show ?thesis
      unfolding if_P [OF True] using all [OF eq] ok(4) unfolding hosts_ok_def by presburger
  next
    case False
    then have "proxyDisplayHosts ifaces listen external = [TrimSpace listen]"
      by (simp add: proxyDisplayHosts_def Let_def)
    then show ?thesis using False by simp
  qed
qed

section \<open>Limits\<close>

text \<open>
  Three nodes named like a numbered tag give two outbounds with one tag, and a node can take the tag of
  the pool; the scheme \<open>hy2\<close>, which the configuration accepts, is not known to the builder; a port
  above 65535 is cut to 16 bits.
\<close>

lemma equal_tags:
  "fst (choose_tag ((uri_node u)\<lparr>nc_Name := ''a-2''\<rparr>)
     (no_nodes\<lparr>na_memberTags := [''a'', ''a-2''], na_usedTags := [''a'' \<mapsto> 2]\<rparr>)) = ''a-2''"
proof -
  have "sanitizeTag ''a-2'' = ''a-2''" by code_simp
  then have "base_tag ((uri_node u)\<lparr>nc_Name := ''a-2''\<rparr>) acc = ''a-2''" for acc
    by (simp add: base_tag_def)
  then show ?thesis by (simp add: choose_tag_def)
qed

lemma pool_tag_taken: "sanitizeTag ''Proxy Pool'' = pool_Tag"
  by code_simp

lemma hy2_unknown:
  "isProxyURI ''hy2://pw@h:443'' \<and>
   (case buildNodeOutbound env [] ''hy2://pw@h:443'' skip d of Inl e \<Rightarrow> e = UnsupportedScheme ''hy2'' | Inr _ \<Rightarrow> False)"
proof -
  have "map_option u_Scheme (url_Parse ''hy2://pw@h:443'') = Some ''hy2''" by code_simp
  then obtain u where "url_Parse ''hy2://pw@h:443'' = Some u" "u_Scheme u = ''hy2''"
    by (auto simp del: url_Parse_def)
  moreover have "ToLower ''hy2'' = ''hy2''" "isProxyURI ''hy2://pw@h:443''" by code_simp+
  ultimately show ?thesis by (simp add: buildNodeOutbound_def)
qed

lemma port_cut:
  "case hostPort (empty_url\<lparr>u_Host := ''h:65617''\<rparr>) 443 of
     Inl _ \<Rightarrow> False | Inr (h, p) \<Rightarrow> p = 65617 \<and> (word_of_int p :: port) = 81"
  by code_simp

text \<open>
  The printed links show the credentials of each node, but the builder does not read them: the inbound of a
  node asks for those of the multi-port settings.
\<close>

definition strip_credentials :: "node_config \<Rightarrow> node_config" where
  "strip_credentials n = n\<lparr>nc_Username := [], nc_Password := []\<rparr>"

lemma node_step_credentials: "node_step env c (strip_credentials n) acc = node_step env c n acc"
proof -
  have fields: "nc_Name (strip_credentials n) = nc_Name n" "nc_URI (strip_credentials n) = nc_URI n"
    "nc_Port (strip_credentials n) = nc_Port n" "nc_Geo (strip_credentials n) = nc_Geo n"
    by (simp_all add: strip_credentials_def)
  have base: "base_tag (strip_credentials n) acc = base_tag n acc"
    by (simp only: base_tag_def fields)
  have "choose_tag (strip_credentials n) acc = choose_tag n acc" "node_meta c (strip_credentials n) = node_meta c n"
    by (simp_all only: choose_tag_def base node_meta_def fields)
  then show ?thesis by (simp only: node_step_def base fields)
qed

lemma credentials_ignored: "build_nodes env c (map strip_credentials ns) = build_nodes env c ns"
proof -
  have "fold (node_step env c) (map strip_credentials ns) acc = fold (node_step env c) ns acc" for acc
    by (induction ns arbitrary: acc) (simp_all add: node_step_credentials)
  then show ?thesis by (simp add: build_nodes_def)
qed

section \<open>Examples\<close>

definition demo_build :: build_env where
  "demo_build = \<lparr>bd_regexps = (\<lambda>_. None), bd_vmess = (\<lambda>_. None), bd_overflow = (\<lambda>_. 0), bd_ws = ''ws'',
     bd_http = ''http'', bd_grpc = ''grpc'', bd_httpupgrade = ''httpupgrade''\<rparr>"

definition demo_good :: node_config where
  "demo_good = (uri_node ''trojan://pw@h:443'')\<lparr>nc_Name := ''a b'', nc_Port := 28000\<rparr>"

definition demo_bad :: node_config where
  "demo_bad = (uri_node ''hy2://pw@h:443'')\<lparr>nc_Name := ''a b'', nc_Port := 28001\<rparr>"

definition demo_hybrid :: config where
  "demo_hybrid = zero_config
     \<lparr>cf_Mode := ''hybrid'', cf_Nodes := [demo_good, demo_bad],
      cf_Listener := \<lparr>lc_Address = ''0.0.0.0'', lc_Port = 2323, lc_Username = [], lc_Password = []\<rparr>,
      cf_MultiPort := \<lparr>mpc_Address = ''127.0.0.1'', mpc_BasePort = 28000, mpc_Username = ''u'', mpc_Password = ''p''\<rparr>\<rparr>"

lemma demo_hybrid_fields:
  "cf_Nodes demo_hybrid = [demo_good, demo_bad]" "lc_Port (cf_Listener demo_hybrid) = 2323"
  "pool_enabled demo_hybrid" "multi_port_enabled demo_hybrid"
  "parseAddr (lc_Address (cf_Listener demo_hybrid)) \<noteq> None"
  "parseAddr (mpc_Address (cf_MultiPort demo_hybrid)) \<noteq> None"
proof -
  have "parseAddr ''0.0.0.0'' \<noteq> None" "parseAddr ''127.0.0.1'' \<noteq> None" by code_simp+
  then show "parseAddr (lc_Address (cf_Listener demo_hybrid)) \<noteq> None"
    "parseAddr (mpc_Address (cf_MultiPort demo_hybrid)) \<noteq> None"
    by (simp_all only: demo_hybrid_def) simp_all
qed (simp_all add: demo_hybrid_def pool_enabled_def multi_port_enabled_def)

lemma demo_enabled: "config_FilterNodes (bd_regexps demo_build) (Some demo_hybrid) = [demo_good, demo_bad]"
  by (simp add: config_FilterNodes_def FilterNodes_def Let_def demo_hybrid_def zero_config_def)

lemma demo_builds: "node_builds demo_build demo_hybrid demo_good" "\<not> node_builds demo_build demo_hybrid demo_bad"
proof -
  have "case node_options demo_build demo_hybrid demo_good of Inl _ \<Rightarrow> False | Inr x \<Rightarrow> True" by code_simp
  then show "node_builds demo_build demo_hybrid demo_good"
    by (cases "node_options demo_build demo_hybrid demo_good") (simp_all add: node_builds_def)
  have "case node_options demo_build demo_hybrid demo_bad of Inl _ \<Rightarrow> True | Inr x \<Rightarrow> False" by code_simp
  then show "\<not> node_builds demo_build demo_hybrid demo_bad"
    by (cases "node_options demo_build demo_hybrid demo_bad") (simp_all add: node_builds_def)
qed

lemma demo_tags: "tags_apart (base_tags [demo_good, demo_bad])" "no_pool_names (base_tags [demo_good, demo_bad])"
proof -
  have "sanitizeTag ''a b'' = ''a-b''" by code_simp
  then have "sanitizeTag (nc_Name demo_good) = ''a-b''" "sanitizeTag (nc_Name demo_bad) = ''a-b''"
    by (simp_all add: demo_good_def demo_bad_def)
  then have B: "base_tags [demo_good, demo_bad] = {''a-b''}"
    by (auto simp: base_tags_def intro!: exI [of _ demo_good])
  have "length (numbered ''a-b'' k) \<noteq> length ''a-b''" for k by (simp add: numbered_def)
  then show "tags_apart (base_tags [demo_good, demo_bad])" unfolding B tags_apart_def by (metis singletonD)
  have "\<not> HasPrefix ''a-b'' pool_Tag" by code_simp
  then show "no_pool_names (base_tags [demo_good, demo_bad])" unfolding B no_pool_names_def by blast
qed

lemma demo_built: "\<exists>o1. Build demo_build (Some demo_hybrid) = Inr o1"
proof -
  obtain ib where "buildPoolInbound demo_hybrid = Inr ib"
    using demo_hybrid_fields(5) by (auto simp: buildPoolInbound_def Let_def)
  then show ?thesis
    using demo_hybrid_fields demo_builds by (auto simp: Build_Inr Let_def demo_enabled assemble_Inr)
qed

theorem built_options_closed_witness:
  "\<exists>o1. Build demo_build (Some demo_hybrid) = Inr o1 \<and> closed_options o1"
  using demo_built built_options_closed by blast


theorem Build_outcome_witness:
  "\<exists>o1. Build demo_build (Some demo_hybrid) = Inr o1"
proof -
  have "list_ex (node_builds demo_build demo_hybrid) [demo_good, demo_bad]" using demo_builds by simp
  then show ?thesis
    using Build_outcome [OF demo_enabled [symmetric]] demo_hybrid_fields by auto
qed

theorem connections_leave_through_witness:
  "\<exists>o1 x. Build demo_build (Some demo_hybrid) = Inr o1 \<and>
     map (\<lambda>ib. (ib_ListenPort ib, exits o1 (ib_Tag ib))) (sg_Inbounds o1) = [(2323, [x]), (28000, [x])]"
proof -
  obtain o1 where o1: "Build demo_build (Some demo_hybrid) = Inr o1" using demo_built by blast
  have "filter (node_builds demo_build demo_hybrid) [demo_good, demo_bad] = [demo_good]"
    using demo_builds by simp
  then show ?thesis
    using connections_leave_through [OF o1 demo_enabled [symmetric] demo_tags refl refl] demo_hybrid_fields o1
    by (intro exI [of _ o1] exI [of _ "projr (node_options demo_build demo_hybrid demo_good)"])
      (simp add: demo_good_def)
qed

theorem built_pools_start_witness:
  "\<exists>o1 p a w1 w2. Build demo_build (Some demo_hybrid) = Inr o1 \<and> p \<in> pools_of o1 \<and>
     newPool True True p (boot_world :: pool_world) = (Inr a, w1) \<and>
     initializeMembers a (\<lambda>t. Some 7) w1 = (None, w2)"
proof -
  obtain o1 where o1: "Build demo_build (Some demo_hybrid) = Inr o1" using demo_built by blast
  then have "assemble demo_hybrid (build_nodes demo_build demo_hybrid [demo_good, demo_bad]) = Inr o1"
    by (simp add: Build_Inr Let_def demo_enabled)
  then have "pool_outbound demo_hybrid (build_nodes demo_build demo_hybrid [demo_good, demo_bad]) \<in> set (sg_Outbounds o1)"
    using demo_hybrid_fields(3) by (auto simp: assemble_Inr pool_part_def)
  then obtain p where p: "p \<in> pools_of o1"
    using that by (fastforce simp: pools_of_def pool_outbound_def)
  show ?thesis
    using built_pools_start [OF o1 p, of "\<lambda>t. Some 7" True boot_world] o1 p by blast
qed

end
