(* ===== verification/Builder_Nodes.thy ===== *)
theory Builder_Nodes
  imports Builder_Facts
begin

text \<open>
  From a Clash subscription to an outbound.  The configuration turns a Clash proxy into a URI
  (\<open>config.go\<close>) and the builder parses that URI again (\<open>builder.go\<close>).  \<open>clash_outbound\<close> is the direct
  translation of the proxy's fields, \<open>uri_outbound\<close> what the fields in the URI amount to; the lemmas
  follow each protocol through \<open>url.Parse\<close>, and the equivalence at the end says that both ways agree
  for a proxy whose fields all have a place in the URI.
\<close>

section \<open>The URI of a Clash proxy is read back\<close>

text \<open>The servers and ports that stand in a URI as they are.\<close>

definition clash_address_ok :: "clash_proxy \<Rightarrow> bool" where
  "clash_address_ok p \<longleftrightarrow>
     list_all unreserved (cp_Server p) \<and> cp_Server p \<noteq> [] \<and> 0 \<le> cp_Port p \<and> cp_Port p < 2 ^ 63"

definition clash_host :: "clash_proxy \<Rightarrow> string" where
  "clash_host p = cp_Server p @ '':'' @ Itoa (cp_Port p)"

lemma clash_host_facts:
  assumes "clash_address_ok p"
  shows "parseHost (clash_host p) = Some (clash_host p)" "list_all authority_char (clash_host p)"
    "CHR ''@'' \<notin> set (clash_host p)" "url_splitHostPort (clash_host p) = (cp_Server p, Itoa (cp_Port p))"
proof -
  have digits: "list_all is_digit (Itoa (cp_Port p))" "Itoa (cp_Port p) \<noteq> []"
    using assms Itoa_digits by (auto simp: clash_address_ok_def)
  have server: "list_all unreserved (cp_Server p)" using assms by (simp add: clash_address_ok_def)
  show "parseHost (clash_host p) = Some (clash_host p)"
    unfolding clash_host_def by (rule parse_host_port [OF server digits(1)])
  have marks: "authority_char (CHR '':'')" by code_simp
  have port: "list_all unreserved (Itoa (cp_Port p))" by (rule digits_unreserved [OF digits(1)])
  show "list_all authority_char (clash_host p)"
    using server port marks unreserved_chars(1) unfolding clash_host_def list_all_append
    by (auto simp: list_all_iff)
  show "CHR ''@'' \<notin> set (clash_host p)"
    using server port unreserved_chars(3) unfolding clash_host_def by (auto simp: list_all_iff)
  have colon: "CHR '':'' \<notin> set (Itoa (cp_Port p))"
    using port unreserved_chars(2) by (auto simp: list_all_iff)
  have "\<not> HasPrefix (cp_Server p) ''[''"
    using server unreserved_chars(1) authority_char_plain(1) by (cases "cp_Server p") (auto simp: list_all_iff)
  then show "url_splitHostPort (clash_host p) = (cp_Server p, Itoa (cp_Port p))"
    using digits(1) by (simp add: url_splitHostPort_def clash_host_def LastIndex_append [OF colon] validOptionalPort_def)
qed

text \<open>A userinfo with its \<open>@\<close> in front of the address.\<close>

definition reads_user :: "string \<Rightarrow> (string \<times> string option) option \<Rightarrow> bool" where
  "reads_user user who \<longleftrightarrow>
     list_all authority_char user \<and>
     (\<forall>h. parseHost h = Some h \<longrightarrow> CHR ''@'' \<notin> set h \<longrightarrow> parseAuthority (user @ h) = Some (who, h))"

lemma reads_user_empty: "reads_user [] None"
  by (simp add: reads_user_def parseAuthority_def LastIndex_None)

lemma reads_user_text:
  assumes "list_all authority_char info" and "validUserinfo info"
    and "(case Cut info (CHR '':'') of
            (n, None) \<Rightarrow> unescape encodeUserPassword n = Some name \<and> pass = None
          | (n, Some x) \<Rightarrow> unescape encodeUserPassword n = Some name \<and>
              (\<exists>y. unescape encodeUserPassword x = Some y \<and> pass = Some y))"
  shows "reads_user (info @ ''@'') (Some (name, pass))"
proof -
  have mark: "authority_char (CHR ''@'')" by code_simp
  have "parseAuthority ((info @ ''@'') @ h) = Some (Some (name, pass), h)"
    if "parseHost h = Some h" "CHR ''@'' \<notin> set h" for h
    using that assms(2,3) LastIndex_append [of "CHR ''@''" h info]
    by (auto simp: parseAuthority_def split: prod.splits option.splits)
  then show ?thesis using assms(1) mark by (simp add: reads_user_def)
qed

text \<open>Characters that the userinfo needs no escape for.\<close>

definition user_char :: "char \<Rightarrow> bool" where
  "user_char c \<longleftrightarrow> unreserved c \<or> c \<in> set ''+=''"

lemma user_char_facts:
  assumes "user_char c"
  shows "authority_char c" "c \<noteq> CHR '':''" "c \<noteq> CHR ''%''" "\<not> shouldEscape encodeUserPassword c"
    "is_letter c \<or> is_digit c \<or> c \<in> set (CHR 0x27 # ''-._:~!$&()*+,;=%@'')"
proof -
  have "list_all authority_char ''+=''" "\<not> user_char (CHR '':'')" "\<not> user_char (CHR ''%'')" by code_simp+
  then show "authority_char c" "c \<noteq> CHR '':''" "c \<noteq> CHR ''%''"
    using assms unreserved_chars(1) unfolding user_char_def list_all_iff by blast+
  show "\<not> shouldEscape encodeUserPassword c"
    using assms by (auto simp: user_char_def)
  show "is_letter c \<or> is_digit c \<or> c \<in> set (CHR 0x27 # ''-._:~!$&()*+,;=%@'')"
    using assms by (auto simp: user_char_def unreserved_def)
qed

lemma reads_user_plain:
  assumes "list_all user_char n"
  shows "reads_user (n @ ''@'') (Some (n, None))" "userinfo_String n None = n"
proof -
  have "CHR '':'' \<notin> set n" using assms user_char_facts(2) by (auto simp: list_all_iff)
  then have "Cut n (CHR '':'') = (n, None)" by (rule Cut_absent)
  moreover have "unescape encodeUserPassword n = Some n"
    using assms by (induction n) (use user_char_facts(3) in auto)
  moreover have "list_all authority_char n" "validUserinfo n"
    using assms user_char_facts(1,5) unfolding validUserinfo_def list_all_iff by blast+
  ultimately show "reads_user (n @ ''@'') (Some (n, None))"
    by (intro reads_user_text) simp_all
  show "userinfo_String n None = n"
    using assms by (induction n) (use user_char_facts(4) in \<open>auto simp: userinfo_String_def escape_def\<close>)
qed

lemma reads_user_info:
  "reads_user (user_info p)
     (if cp_Username p = [] then None
      else Some (cp_Username p, if cp_Password p \<noteq> [] then Some (cp_Password p) else None))"
proof (cases "cp_Username p = []")
  case True
  then show ?thesis by (simp add: user_info_def reads_user_empty)
next
  case False
  let ?u = "escape encodeUserPassword (cp_Username p)" and ?w = "escape encodeUserPassword (cp_Password p)"
  have chars: "list_all authority_char (escape encodeUserPassword s)" "validUserinfo (escape encodeUserPassword s)"
    "CHR '':'' \<notin> set (escape encodeUserPassword s)" for s
    using escaped_user_chars [of _ s] unfolding validUserinfo_def list_all_iff by blast+
  show ?thesis
  proof (cases "cp_Password p = []")
    case True
    have "reads_user (?u @ ''@'') (Some (cp_Username p, None))"
      by (rule reads_user_text) (simp_all add: chars Cut_absent unescape_user)
    then show ?thesis using True False by (simp add: user_info_def userinfo_String_def)
  next
    case pass: False
    have marks: "authority_char (CHR '':'')" by code_simp
    have "Cut (?u @ '':'' @ ?w) (CHR '':'') = (?u, Some ?w)"
      using Cut_append [OF chars(3)] by simp
    moreover have "validUserinfo (?u @ '':'' @ ?w)"
      using chars(2) unfolding validUserinfo_def list_all_append by simp
    ultimately have "reads_user ((?u @ '':'' @ ?w) @ ''@'') (Some (cp_Username p, Some (cp_Password p)))"
      by (intro reads_user_text) (simp_all add: chars marks unescape_user)
    then show ?thesis using False pass by (simp add: user_info_def userinfo_String_def)
  qed
qed

lemma clash_url:
  assumes "clash_address_ok p" and "plain_scheme s" and "reads_user user who" and "distinct (map fst q)"
  obtains u where "url_Parse (uri_text s user p (query_string q)) = Some u" "u_Scheme u = s" "u_User u = who"
    "u_Path u = []" "u_RawPath u = []" "\<And>d. hostPort u d = Inr (cp_Server p, cp_Port p)"
    "\<And>k. values_Get (url_Query u) k = values_Get q k"
proof -
  note host = clash_host_facts [OF assms(1)]
  let ?auth = "user @ clash_host p" and ?q = "values_Encode q"
  let ?f = "map (\<lambda>c. if c = CHR '' '' then CHR ''+'' else c) (cp_Name p)"
  define u where "u = empty_url\<lparr>u_Scheme := s, u_User := who, u_Host := clash_host p, u_RawQuery := ?q, u_Fragment := ?f\<rparr>"
  have auth: "list_all authority_char ?auth" "parseAuthority ?auth = Some (who, clash_host p)" "?auth \<noteq> []"
    using assms(3) host unfolding reads_user_def by (simp_all, simp add: clash_host_def)
  have frag: "unescape encodeFragment (QueryEscape (cp_Name p)) = Some ?f"
    by (simp add: unescape_QueryEscape)
  have ne: "?q = [] \<longleftrightarrow> q = []"
  proof
    assume "?q = []"
    then have "sort_slice by_key q = []" using Query_Encode [of q] by (simp add: query_pair_def List.map_filter_simps)
    then show "q = []" by (metis length_0_conv length_sort_slice)
  qed (simp add: values_Encode_def)
  have raw: "uri_text s user p (query_string q) =
      s @ ''://'' @ ?auth @ (if ?q = [] then [] else CHR ''?'' # ?q) @ CHR ''#'' # QueryEscape (cp_Name p)"
    by (simp add: uri_text_def query_string_def clash_host_def ne)
  have parse: "url_Parse (uri_text s user p (query_string q)) = Some u"
    unfolding raw u_def by (rule url_Parse_parts [OF assms(2) auth(1,3,2) values_Encode_chars frag])
  have fields: "u_Scheme u = s" "u_User u = who" "u_Path u = []" "u_RawPath u = []" "u_Host u = clash_host p"
    "u_RawQuery u = ?q"
    by (simp_all add: u_def empty_url_def)
  have "Itoa (cp_Port p) \<noteq> []" "Atoi (Itoa (cp_Port p)) = Some (cp_Port p)" "cp_Server p \<noteq> []"
    using assms(1) Itoa_digits Atoi_Itoa by (auto simp: clash_address_ok_def)
  then have "hostPort u d = Inr (cp_Server p, cp_Port p)" for d
    by (simp add: hostPort_def url_Hostname_def url_Port_def fields host(4))
  then show thesis
    using that parse fields Get_Query [OF assms(4) fields(6)] by blast
qed

section \<open>A direct translation of Clash proxies\<close>

text \<open>
  The outbound that the fields of a Clash proxy call for, without the detour over a URI: the server name
  is \<open>servername\<close> or else \<open>sni\<close>, the transport the one that the builder has for network, path,
  host and service name, and every protocol with TLS honours \<open>skip-cert-verify\<close>, the fingerprint and
  the REALITY options.
\<close>

definition clash_sni :: "clash_proxy \<Rightarrow> string" where
  "clash_sni p = (if cp_ServerName p \<noteq> [] then cp_ServerName p else cp_SNI p)"

definition clash_ws_path :: "clash_proxy \<Rightarrow> string" where
  "clash_ws_path p = (case cp_WSOpts p of None \<Rightarrow> [] | Some ws \<Rightarrow> cw_Path ws)"

definition clash_ws_host :: "clash_proxy \<Rightarrow> string" where
  "clash_ws_host p = (case cp_WSOpts p of None \<Rightarrow> [] | Some ws \<Rightarrow> opt_string (cw_Headers ws ''Host''))"

definition clash_transport ::
  "build_env \<Rightarrow> string \<Rightarrow> clash_proxy \<Rightarrow> node_error + transport_options option" where
  "clash_transport env service p =
     buildV2RayTransport env
       [(''type'', cp_Network p), (''path'', clash_ws_path p), (''host'', clash_ws_host p),
        (''serviceName'', service)]"

definition clash_utls :: "string \<Rightarrow> clash_proxy \<Rightarrow> utls_options option" where
  "clash_utls fallback p =
     (let fp = default_string fallback (cp_ClientFingerprint p) in
      if fp = [] then None else Some \<lparr>ut_Enabled = True, ut_Fingerprint = fp\<rparr>)"

definition clash_tls :: "bool \<Rightarrow> clash_proxy \<Rightarrow> tls_options" where
  "clash_tls skip p =
     empty_tls\<lparr>tl_Enabled := True, tl_Insecure := cp_SkipCertVerify p \<or> skip, tl_ServerName := clash_sni p,
       tl_UTLS := clash_utls (if cp_RealityOpts p = None then [] else ''chrome'') p,
       tl_Reality := map_option (\<lambda>r. \<lparr>re_Enabled = True, re_PublicKey = cr_PublicKey r, re_ShortID = cr_ShortID r\<rparr>)
         (cp_RealityOpts p)\<rparr>"

definition clash_tls_if :: "bool \<Rightarrow> clash_proxy \<Rightarrow> tls_options option" where
  "clash_tls_if skip p =
     (if cp_TLS p \<or> cp_RealityOpts p \<noteq> None then Some (clash_tls skip p) else None)"

definition clash_outbound ::
  "build_env \<Rightarrow> bool \<Rightarrow> duration \<Rightarrow> clash_proxy \<Rightarrow> node_error + outbound_options" where
  "clash_outbound env skip timeout p =
     (let t = ToLower (cp_Type p); port = word_of_int (cp_Port p); d = max 0 timeout;
          transport = clash_transport env (opt_string (cp_GrpcServiceName p)) p;
          server_tls = empty_tls\<lparr>tl_Enabled := True, tl_Insecure := cp_SkipCertVerify p \<or> skip,
            tl_ServerName := default_string (cp_Server p) (clash_sni p)\<rparr>
      in
      if t = ''vmess'' then
        bind_result transport (\<lambda>tr. Inr (OutVMess
          \<lparr>so_Server = cp_Server p, so_ServerPort = port, so_ConnectTimeout = d, vm_UUID = cp_UUID p,
           vm_AlterId = 0, vm_Security = default_string ''auto'' (cp_Cipher p), vm_Transport = tr,
           vm_TLS = clash_tls_if skip p\<rparr>))
      else if t = ''vless'' then
        bind_result transport (\<lambda>tr. Inr (OutVLESS
          \<lparr>so_Server = cp_Server p, so_ServerPort = port, so_ConnectTimeout = d,
           vl_UUID = normalizeUUID (cp_UUID p), vl_Flow = cp_Flow p, vl_PacketEncoding = None,
           vl_TCPFastOpen = False, vl_Transport = tr, vl_TLS = clash_tls_if skip p\<rparr>))
      else if t = ''trojan'' then
        bind_result transport (\<lambda>tr. Inr (OutTrojan
          \<lparr>so_Server = cp_Server p, so_ServerPort = port, so_ConnectTimeout = d, tj_Password = cp_Password p,
           tj_Transport = tr, tj_TLS = Some (clash_tls skip p)\<rparr>))
      else if t \<in> {''ss'', ''shadowsocks''} then
        Inr (OutShadowsocks
          \<lparr>so_Server = cp_Server p, so_ServerPort = port, so_ConnectTimeout = d, sh_Method = cp_Cipher p,
           sh_Password = cp_Password p, sh_Plugin = [], sh_PluginOptions = []\<rparr>)
      else if t \<in> {''hysteria2'', ''hy2''} then
        Inr (OutHysteria2
          \<lparr>so_Server = cp_Server p, so_ServerPort = port, so_ConnectTimeout = d, hy_Password = cp_Password p,
           hy_UpMbps = 0, hy_DownMbps = 0, hy_Obfs = None, hy_TLS = Some server_tls\<rparr>)
      else if t = ''http'' then
        Inr (OutHTTP
          \<lparr>so_Server = cp_Server p, so_ServerPort = port, so_ConnectTimeout = d, ho_Username = cp_Username p,
           ho_Password = cp_Password p, ho_Path = [], ho_TLS = (if cp_TLS p then Some server_tls else None)\<rparr>)
      else
        Inr (OutSOCKS
          \<lparr>so_Server = cp_Server p, so_ServerPort = port, so_ConnectTimeout = d, sk_Version = socks_version t,
           sk_Username = cp_Username p, sk_Password = cp_Password p\<rparr>))"

text \<open>
  The fields that the conversion has no place for in the URI (\<open>config.go\<close>, \<open>buildVMessURI\<close> and its
  siblings): \<open>skip-cert-verify\<close> of VMess, VLESS and HTTP, the cipher of VMess, the gRPC service name and
  REALITY of VMess and Trojan, \<open>sni\<close> beside REALITY without \<open>tls\<close>, a password without a user, TLS of
  SOCKS, blanks around the server name of HTTP.  A proxy that uses none of them is carried whole.
\<close>

definition clash_carried :: "clash_proxy \<Rightarrow> bool" where
  "clash_carried p \<longleftrightarrow>
     (let t = ToLower (cp_Type p) in
      if t = ''vmess'' then
        cp_Cipher p \<in> {[], ''auto''} \<and> (cp_TLS p \<longrightarrow> \<not> cp_SkipCertVerify p) \<and>
        opt_string (cp_GrpcServiceName p) = [] \<and> cp_RealityOpts p = None
      else if t = ''vless'' then
        (cp_TLS p \<or> cp_RealityOpts p \<noteq> None \<longrightarrow> \<not> cp_SkipCertVerify p) \<and>
        (cp_RealityOpts p \<noteq> None \<and> \<not> cp_TLS p \<and> cp_ServerName p = [] \<longrightarrow> cp_SNI p = [])
      else if t = ''trojan'' then opt_string (cp_GrpcServiceName p) = [] \<and> cp_RealityOpts p = None
      else if t = ''http'' then
        (cp_TLS p \<longrightarrow> \<not> cp_SkipCertVerify p \<and> TrimSpace (clash_sni p) = clash_sni p) \<and>
        (cp_Username p = [] \<longrightarrow> cp_Password p = [])
      else if t \<in> {''socks'', ''socks5'', ''socks4'', ''socks4a''} then
        \<not> cp_TLS p \<and> (cp_Username p = [] \<longrightarrow> cp_Password p = [])
      else True)"

subsection \<open>What the URI carries\<close>

text \<open>The outbound for the fields that are in the URI.\<close>

definition uri_tls :: "bool \<Rightarrow> clash_proxy \<Rightarrow> tls_options" where
  "uri_tls insecure p =
     empty_tls\<lparr>tl_Enabled := True, tl_Insecure := insecure, tl_ServerName := clash_sni p,
               tl_UTLS := clash_utls [] p\<rparr>"

definition uri_vless_tls :: "bool \<Rightarrow> clash_proxy \<Rightarrow> tls_options option" where
  "uri_vless_tls skip p =
     (case cp_RealityOpts p of
        Some r \<Rightarrow>
          Some (empty_tls\<lparr>tl_Enabled := True, tl_Insecure := skip,
            tl_ServerName := (if cp_ServerName p \<noteq> [] then cp_ServerName p
                              else if cp_TLS p then cp_SNI p else []),
            tl_UTLS := clash_utls ''chrome'' p,
            tl_Reality := Some \<lparr>re_Enabled = True, re_PublicKey = cr_PublicKey r, re_ShortID = cr_ShortID r\<rparr>\<rparr>)
      | None \<Rightarrow> if cp_TLS p then Some (uri_tls skip p) else None)"

definition uri_outbound ::
  "build_env \<Rightarrow> bool \<Rightarrow> duration \<Rightarrow> clash_proxy \<Rightarrow> node_error + outbound_options" where
  "uri_outbound env skip timeout p =
     (let t = ToLower (cp_Type p); port = word_of_int (cp_Port p); d = max 0 timeout in
      if t = ''vmess'' then
        bind_result (clash_transport env [] p) (\<lambda>tr. Inr (OutVMess
          \<lparr>so_Server = cp_Server p, so_ServerPort = port, so_ConnectTimeout = d, vm_UUID = cp_UUID p,
           vm_AlterId = 0, vm_Security = ''auto'', vm_Transport = tr,
           vm_TLS = (if cp_TLS p then Some (uri_tls skip p) else None)\<rparr>))
      else if t = ''vless'' then
        bind_result (clash_transport env (opt_string (cp_GrpcServiceName p)) p) (\<lambda>tr. Inr (OutVLESS
          \<lparr>so_Server = cp_Server p, so_ServerPort = port, so_ConnectTimeout = d,
           vl_UUID = normalizeUUID (cp_UUID p), vl_Flow = cp_Flow p, vl_PacketEncoding = None,
           vl_TCPFastOpen = False, vl_Transport = tr, vl_TLS = uri_vless_tls skip p\<rparr>))
      else if t = ''trojan'' then
        bind_result (clash_transport env [] p) (\<lambda>tr. Inr (OutTrojan
          \<lparr>so_Server = cp_Server p, so_ServerPort = port, so_ConnectTimeout = d, tj_Password = cp_Password p,
           tj_Transport = tr, tj_TLS = Some (uri_tls (cp_SkipCertVerify p \<or> skip) p)\<rparr>))
      else if t \<in> {''ss'', ''shadowsocks''} then
        Inr (OutShadowsocks
          \<lparr>so_Server = cp_Server p, so_ServerPort = port, so_ConnectTimeout = d, sh_Method = cp_Cipher p,
           sh_Password = cp_Password p, sh_Plugin = [], sh_PluginOptions = []\<rparr>)
      else if t \<in> {''hysteria2'', ''hy2''} then
        Inr (OutHysteria2
          \<lparr>so_Server = cp_Server p, so_ServerPort = port, so_ConnectTimeout = d, hy_Password = cp_Password p,
           hy_UpMbps = 0, hy_DownMbps = 0, hy_Obfs = None,
           hy_TLS = Some (empty_tls\<lparr>tl_Enabled := True, tl_Insecure := cp_SkipCertVerify p \<or> skip,
             tl_ServerName := default_string (cp_Server p) (clash_sni p)\<rparr>)\<rparr>)
      else if t = ''http'' then
        Inr (OutHTTP
          \<lparr>so_Server = cp_Server p, so_ServerPort = port, so_ConnectTimeout = d, ho_Username = cp_Username p,
           ho_Password = (if cp_Username p = [] then [] else cp_Password p), ho_Path = [],
           ho_TLS = (if cp_TLS p
             then Some (empty_tls\<lparr>tl_Enabled := True, tl_Insecure := skip,
                          tl_ServerName := default_string (cp_Server p) (TrimSpace (clash_sni p))\<rparr>)
             else None)\<rparr>)
      else
        Inr (OutSOCKS
          \<lparr>so_Server = cp_Server p, so_ServerPort = port, so_ConnectTimeout = d, sk_Version = socks_version t,
           sk_Username = cp_Username p, sk_Password = (if cp_Username p = [] then [] else cp_Password p)\<rparr>))"

text \<open>
  The proxies whose URI can be read: an address of unreserved characters, and credentials that need no
  escape where the conversion copies them unescaped.
\<close>

definition uri_ok :: "clash_proxy \<Rightarrow> bool" where
  "uri_ok p \<longleftrightarrow>
     clash_address_ok p \<and>
     (let t = ToLower (cp_Type p) in
      if t = ''vmess'' then list_all unreserved (cp_UUID p) \<and> cp_UUID p \<noteq> []
      else if t = ''vless'' then list_all unreserved (cp_UUID p) \<and> normalizeUUID (cp_UUID p) \<noteq> []
      else if t \<in> {''trojan'', ''hysteria2'', ''hy2''} then list_all unreserved (cp_Password p) \<and> cp_Password p \<noteq> []
      else if t \<in> {''ss'', ''shadowsocks''} then
        CHR '':'' \<notin> set (cp_Cipher p) \<and> CHR ''/'' \<notin> set (EncodeStd (cp_Cipher p @ '':'' @ cp_Password p))
      else t \<in> {''http'', ''socks'', ''socks5'', ''socks4'', ''socks4a''})"

definition clash_ok :: "clash_proxy \<Rightarrow> bool" where
  "clash_ok p \<longleftrightarrow> uri_ok p \<and> clash_carried p"

lemma uri_outbound_carried:
  assumes "clash_ok p"
  shows "uri_outbound env skip d p = clash_outbound env skip d p"
proof -
  let ?t = "ToLower (cp_Type p)"
  note carried = assms [unfolded clash_ok_def clash_carried_def Let_def, THEN conjunct2]
  consider "?t = ''vmess''" | "?t = ''vless''" | "?t = ''trojan''" | "?t \<in> {''ss'', ''shadowsocks''}"
    | "?t \<in> {''hysteria2'', ''hy2''}" | "?t = ''http''" | "?t \<in> {''socks'', ''socks5'', ''socks4'', ''socks4a''}"
    using assms by (auto simp: clash_ok_def uri_ok_def Let_def split: if_splits)
  then show ?thesis
  proof cases
    case 1
    with carried show ?thesis
      by (auto simp: uri_outbound_def clash_outbound_def Let_def clash_tls_if_def clash_tls_def uri_tls_def
          default_string_def empty_tls_def)
  next
    case 2
    have "uri_vless_tls skip p = clash_tls_if skip p"
      using carried 2
      by (auto simp: uri_vless_tls_def clash_tls_if_def clash_tls_def uri_tls_def clash_sni_def empty_tls_def
          split: option.split)
    with 2 show ?thesis by (simp add: uri_outbound_def clash_outbound_def Let_def)
  next
    case 3
    with carried show ?thesis
      by (auto simp: uri_outbound_def clash_outbound_def Let_def clash_tls_def uri_tls_def empty_tls_def)
  next
    case 6
    with carried show ?thesis
      by (auto simp: uri_outbound_def clash_outbound_def Let_def)
  next
    case 7
    with carried show ?thesis
      by (auto simp: uri_outbound_def clash_outbound_def Let_def)
  qed (auto simp: uri_outbound_def clash_outbound_def Let_def)
qed

section \<open>What the queries say\<close>

lemma Get_set_when [simp]:
  "values_Get (set_when b k v q) k' = (if b \<and> k' = k then v else values_Get q k')"
  by (simp add: set_when_def)

lemma Get_set_sni:
  "values_Get (set_sni p q) k = (if k = ''sni'' \<and> clash_sni p \<noteq> [] then clash_sni p else values_Get q k)"
  by (simp add: set_sni_def clash_sni_def)

lemma Get_set_tls:
  "values_Get (set_tls p q) k =
     (if cp_TLS p \<and> k = ''security'' then ''tls''
      else if cp_TLS p \<and> k = ''sni'' \<and> clash_sni p \<noteq> [] then clash_sni p else values_Get q k)"
  by (simp add: set_tls_def Get_set_sni)

lemma Get_set_ws:
  "values_Get q ''path'' = [] \<Longrightarrow> values_Get q ''host'' = [] \<Longrightarrow>
   values_Get (set_ws p q) k =
     (if k = ''path'' then clash_ws_path p else if k = ''host'' then clash_ws_host p else values_Get q k)"
  by (auto simp: set_ws_def clash_ws_path_def clash_ws_host_def Let_def opt_string_def split: option.splits)

lemma Get_set_network:
  "values_Get (set_network p q) k =
     (if k = ''type'' \<and> cp_Network p \<noteq> [] \<and> cp_Network p \<noteq> ''tcp'' then cp_Network p else values_Get q k)"
  by (simp add: set_network_def)

lemma Get_set_fp:
  "values_Get (set_fp p q) k =
     (if k = ''fp'' \<and> cp_ClientFingerprint p \<noteq> [] then cp_ClientFingerprint p else values_Get q k)"
  by (simp add: set_fp_def)

lemma Get_set_reality:
  "values_Get (set_reality p q) k =
     (case cp_RealityOpts p of
        None \<Rightarrow> values_Get q k
      | Some r \<Rightarrow>
          if k = ''sni'' \<and> cp_ServerName p \<noteq> [] then cp_ServerName p
          else if k = ''sid'' \<and> cr_ShortID r \<noteq> [] then cr_ShortID r
          else if k = ''pbk'' \<and> cr_PublicKey r \<noteq> [] then cr_PublicKey r
          else if k = ''security'' then ''reality''
          else values_Get q k)"
  by (auto simp: set_reality_def split: option.splits)

lemmas Get_sets = Get_set_sni Get_set_tls Get_set_ws Get_set_network Get_set_fp Get_set_reality

lemma keys_set_when: "distinct (map fst q) \<Longrightarrow> distinct (map fst (set_when b k v q))"
  by (simp add: set_when_def keys_Set)

lemma keys_sets:
  "distinct (map fst q) \<Longrightarrow> distinct (map fst (set_network p q))"
  "distinct (map fst q) \<Longrightarrow> distinct (map fst (set_sni p q))"
  "distinct (map fst q) \<Longrightarrow> distinct (map fst (set_tls p q))"
  "distinct (map fst q) \<Longrightarrow> distinct (map fst (set_ws p q))"
  "distinct (map fst q) \<Longrightarrow> distinct (map fst (set_fp p q))"
  "distinct (map fst q) \<Longrightarrow> distinct (map fst (set_reality p q))"
  by (auto simp: set_network_def set_sni_def set_tls_def set_ws_def set_fp_def set_reality_def Let_def
      intro!: keys_Set keys_set_when split: option.splits)

text \<open>The transport depends on four values only, and plain TCP may be left out.\<close>

lemma transport_of_values:
  assumes "values_Get q ''type'' = (if cp_Network p \<noteq> [] \<and> cp_Network p \<noteq> ''tcp'' then cp_Network p else [])"
    and "values_Get q ''path'' = clash_ws_path p" and "values_Get q ''host'' = clash_ws_host p"
    and "values_Get q ''serviceName'' = service"
  shows "buildV2RayTransport env q = clash_transport env service p"
proof -
  let ?q = "[(''type'', cp_Network p), (''path'', clash_ws_path p), (''host'', clash_ws_host p), (''serviceName'', service)]"
  have get: "values_Get ?q ''type'' = cp_Network p" "values_Get ?q ''path'' = clash_ws_path p"
    "values_Get ?q ''host'' = clash_ws_host p" "values_Get ?q ''serviceName'' = service"
    by (simp_all add: values_Get_def opt_string_def)
  have low: "ToLower [] = []" "ToLower ''tcp'' = ''tcp''" by code_simp+
  show ?thesis
  proof (cases "cp_Network p \<noteq> [] \<and> cp_Network p \<noteq> ''tcp''")
    case True
    then show ?thesis
      by (simp only: clash_transport_def buildV2RayTransport_def get assms if_True simp_thms)
  next
    case False
    then show ?thesis
      unfolding clash_transport_def buildV2RayTransport_def get assms if_not_P [OF False] Let_def
      using low by auto
  qed
qed

lemma trimmed_unreserved: "list_all unreserved s \<Longrightarrow> trimmed s"
proof -
  have "list_all (\<lambda>w. w \<noteq> [] \<and> \<not> unreserved (hd w)) white_space"
    "list_all (\<lambda>w. w \<noteq> [] \<and> \<not> unreserved (hd w)) (map rev white_space)"
    by code_simp+
  then show "list_all unreserved s \<Longrightarrow> trimmed s"
    unfolding trimmed_def by (intro conjI no_front_hd) (auto simp: list_all_iff)
qed

lemma user_char_unreserved: "list_all unreserved s \<Longrightarrow> list_all user_char s"
  by (auto simp: list_all_iff user_char_def)

section \<open>The way over the URI is the direct translation\<close>

lemma decode_bad_char:
  assumes "dig c = None" and "c \<noteq> CHR ''=''" and "c \<in> set s"
  shows "decode_quanta dig pad s = None"
  using assms by (induction dig pad s rule: decode_quanta.induct) (auto split: option.splits)

lemma DecodeString_at: "CHR ''@'' \<in> set s \<Longrightarrow> DecodeString std_alphabet True s = None \<and> DecodeString url_alphabet False s = None"
proof -
  have "position (CHR ''@'') std_alphabet = None" "position (CHR ''@'') url_alphabet = None" by code_simp+
  then show "CHR ''@'' \<in> set s \<Longrightarrow> ?thesis"
    unfolding DecodeString_def by (intro conjI decode_bad_char) auto
qed

lemma DecodeString_EncodeStd:
  "(case DecodeString url_alphabet False (EncodeStd s) of
      Some d \<Rightarrow> Some d | None \<Rightarrow> DecodeString std_alphabet True (EncodeStd s)) = Some s"
proof -
  have "d = s" if "DecodeString url_alphabet False (EncodeStd s) = Some d" for d
  proof (rule decode_EncodeStd_other)
    show "decode_quanta (\<lambda>c. position c url_alphabet) False (EncodeStd s) = Some d"
      using that by (simp add: DecodeString_def EncodeStd_no_breaks)
  qed (use position_url position_pad in auto)
  then show ?thesis
    using decode_EncodeStd by (auto split: option.splits)
qed

lemma max_timeout: "so_ConnectTimeout x = 0 \<Longrightarrow> with_timeout d x = x\<lparr>so_ConnectTimeout := max 0 d\<rparr>"
  by (cases "0 < d") (simp_all add: with_timeout_def max_def)

lemma schemes_plain:
  "plain_scheme ''vmess''" "plain_scheme ''vless''" "plain_scheme ''trojan''" "plain_scheme ''ss''"
  "plain_scheme ''hysteria2''" "plain_scheme ''http''" "plain_scheme ''https''" "plain_scheme ''socks4''"
  "plain_scheme ''socks4a''" "plain_scheme ''socks5''"
  by code_simp+

lemma schemes_lower:
  "ToLower ''vmess'' = ''vmess''" "ToLower ''vless'' = ''vless''" "ToLower ''trojan'' = ''trojan''"
  "ToLower ''ss'' = ''ss''" "ToLower ''hysteria2'' = ''hysteria2''" "ToLower ''http'' = ''http''"
  "ToLower ''https'' = ''https''" "ToLower ''socks4'' = ''socks4''" "ToLower ''socks4a'' = ''socks4a''"
  "ToLower ''socks5'' = ''socks5''" "ToLower ''tls'' = ''tls''" "ToLower ''reality'' = ''reality''"
  "TrimSpace ''tls'' = ''tls''" "TrimSpace ''reality'' = ''reality''" "is_true ''1''"
  "parseBool01 [] = False" "ToLower [] = []" "EqualFold ''http'' ''https'' = False" "EqualFold ''https'' ''https''"
  by code_simp+

lemmas translate_defs = uri_outbound_def Let_def bind_result_def default_string_def max_timeout

lemma tls_utls: "set_utls (cp_ClientFingerprint p) t = (if cp_ClientFingerprint p = [] then t
   else t\<lparr>tl_UTLS := Some \<lparr>ut_Enabled = True, ut_Fingerprint = cp_ClientFingerprint p\<rparr>\<rparr>)"
  by (simp add: set_utls_def)

lemma plain_tls:
  assumes "\<And>k. values_Get q k =
      (if k = ''security'' then (if cp_TLS p then ''tls'' else [])
       else if k = ''sni'' then (if cp_TLS p then clash_sni p else [])
       else if k = ''fp'' then cp_ClientFingerprint p
       else if k \<in> {''type'', ''path'', ''host'', ''serviceName'', ''encryption'', ''flow''} then f k else [])"
  shows "buildTLSOptions q skip = (if cp_TLS p then Some (uri_tls skip p) else None)"
proof -
  have get: "values_Get q ''security'' = (if cp_TLS p then ''tls'' else [])"
    "values_Get q ''sni'' = (if cp_TLS p then clash_sni p else [])"
    "values_Get q ''fp'' = cp_ClientFingerprint p" "values_Get q ''tls'' = []"
    "values_Get q ''peer'' = []" "values_Get q ''servername'' = []" "values_Get q ''alpn'' = []"
    "values_Get q ''allowInsecure'' = []" "values_Get q ''insecure'' = []"
    by (simp_all only: assms) simp_all
  show ?thesis
    by (cases "cp_TLS p")
      (simp_all add: buildTLSOptions_def tls_security_def get schemes_lower Let_def set_server_name_def
        fill_server_name_def set_insecure_def get_either_def set_alpn_def tls_utls uri_tls_def clash_utls_def
        default_string_def empty_tls_def)
qed

lemma build_vmess:
  assumes "uri_ok p" "ToLower (cp_Type p) = ''vmess''"
  shows "buildNodeOutbound env t (buildVMessURI p) skip d =
    bind_result (uri_outbound env skip d p) (\<lambda>x. Inr \<lparr>ob_Tag = t, ob_Options = x\<rparr>)"
proof -
  define q where "q = set_fp p (set_ws p (set_tls p (set_network p [])))"
  have uuid: "list_all unreserved (cp_UUID p)" "cp_UUID p \<noteq> []" and address: "clash_address_ok p"
    using assms by (simp_all add: uri_ok_def Let_def)
  have uri: "buildVMessURI p = uri_text ''vmess'' (cp_UUID p @ ''@'') p (query_string q)"
    by (simp add: buildVMessURI_def q_def)
  have "distinct (map fst q)" unfolding q_def by (intro keys_sets) simp
  then obtain u where u: "url_Parse (buildVMessURI p) = Some u" "u_Scheme u = ''vmess''"
    "u_User u = Some (cp_UUID p, None)" "\<And>d. hostPort u d = Inr (cp_Server p, cp_Port p)"
    "\<And>k. values_Get (url_Query u) k = values_Get q k"
    using clash_url [OF address schemes_plain(1) reads_user_plain(1) [OF user_char_unreserved [OF uuid(1)]]]
    unfolding uri by metis
  have get: "values_Get (url_Query u) k =
      (if k = ''security'' then (if cp_TLS p then ''tls'' else [])
       else if k = ''sni'' then (if cp_TLS p then clash_sni p else [])
       else if k = ''fp'' then cp_ClientFingerprint p
       else if k \<in> {''type'', ''path'', ''host'', ''serviceName'', ''encryption'', ''flow''} then values_Get q k else [])" for k
    unfolding u(5) by (auto simp: q_def Get_sets)
  have tls: "buildTLSOptions (url_Query u) skip = (if cp_TLS p then Some (uri_tls skip p) else None)"
    by (rule plain_tls [OF get])
  have trans: "buildV2RayTransport env (url_Query u) = clash_transport env [] p"
    by (rule transport_of_values) (simp_all add: u(5) q_def Get_sets)
  have rest: "values_Get q ''alterId'' = []" "values_Get q ''encryption'' = []"
    by (simp_all add: q_def Get_sets)
  have "TrimPrefix (buildVMessURI p) ''vmess://'' = cp_UUID p @ ''@'' @ drop (length (''vmess://'' @ cp_UUID p @ ''@'')) (buildVMessURI p)"
    by (simp add: uri uri_text_def TrimPrefix_def)
  then have "CHR ''@'' \<in> set (TrimPrefix (buildVMessURI p) ''vmess://'')" by (metis Un_iff list.set_intros(1) set_append)
  note no64 = DecodeString_at [OF this]
  show ?thesis
    using assms(2)
    by (cases "clash_transport env [] p")
      (simp_all add: buildNodeOutbound_def u schemes_lower buildVMessOptions_def no64 buildVMessOptionsFromURL_def
        user_credentials_def uuid trans tls rest default_security_def translate_defs)
qed

lemma build_trojan:
  assumes "uri_ok p" "ToLower (cp_Type p) = ''trojan''"
  shows "buildNodeOutbound env t (buildTrojanURI p) skip d =
    bind_result (uri_outbound env skip d p) (\<lambda>x. Inr \<lparr>ob_Tag = t, ob_Options = x\<rparr>)"
proof -
  define q where "q = set_fp p (set_ws p
    (set_when (cp_SkipCertVerify p) ''allowInsecure'' ''1'' (set_sni p (set_network p []))))"
  have pass: "list_all unreserved (cp_Password p)" "cp_Password p \<noteq> []" and address: "clash_address_ok p"
    using assms by (simp_all add: uri_ok_def Let_def)
  have uri: "buildTrojanURI p = uri_text ''trojan'' (cp_Password p @ ''@'') p (query_string q)"
    by (simp add: buildTrojanURI_def q_def)
  have "distinct (map fst q)" unfolding q_def by (intro keys_sets keys_set_when) simp
  then obtain u where u: "url_Parse (buildTrojanURI p) = Some u" "u_Scheme u = ''trojan''"
    "u_User u = Some (cp_Password p, None)" "\<And>d. hostPort u d = Inr (cp_Server p, cp_Port p)"
    "\<And>k. values_Get (url_Query u) k = values_Get q k"
    using clash_url [OF address schemes_plain(3) reads_user_plain(1) [OF user_char_unreserved [OF pass(1)]]]
    unfolding uri by metis
  have trans: "buildV2RayTransport env (url_Query u) = clash_transport env [] p"
    by (rule transport_of_values) (simp_all add: u(5) q_def Get_sets)
  have get: "values_Get q ''sni'' = clash_sni p" "values_Get q ''peer'' = []" "values_Get q ''insecure'' = []"
    "values_Get q ''allowInsecure'' = (if cp_SkipCertVerify p then ''1'' else [])" "values_Get q ''alpn'' = []"
    "values_Get q ''fp'' = cp_ClientFingerprint p"
    by (simp_all add: q_def Get_sets)
  have tls: "buildTrojanTLSOptions (url_Query u) skip = uri_tls (cp_SkipCertVerify p \<or> skip) p"
    by (simp add: buildTrojanTLSOptions_def u(5) get Let_def set_server_name_def fill_server_name_def
        set_insecure_def get_either_def set_alpn_def tls_utls uri_tls_def clash_utls_def default_string_def
        empty_tls_def schemes_lower)
  show ?thesis
    using assms(2)
    by (cases "clash_transport env [] p")
      (simp_all add: buildNodeOutbound_def u schemes_lower buildTrojanOptions_def user_credentials_def pass trans tls
        translate_defs)
qed

lemma build_hysteria2:
  assumes "uri_ok p" "ToLower (cp_Type p) \<in> {''hysteria2'', ''hy2''}"
  shows "buildNodeOutbound env t (buildHysteria2URI p) skip d =
    bind_result (uri_outbound env skip d p) (\<lambda>x. Inr \<lparr>ob_Tag = t, ob_Options = x\<rparr>)"
proof -
  define q where "q = set_when (cp_SkipCertVerify p) ''insecure'' ''1'' (set_sni p [])"
  have pass: "list_all unreserved (cp_Password p)" "cp_Password p \<noteq> []" and address: "clash_address_ok p"
    using assms by (auto simp: uri_ok_def Let_def)
  have uri: "buildHysteria2URI p = uri_text ''hysteria2'' (cp_Password p @ ''@'') p (query_string q)"
    by (simp add: buildHysteria2URI_def q_def)
  have "distinct (map fst q)" unfolding q_def by (intro keys_sets keys_set_when) simp
  then obtain u where u: "url_Parse (buildHysteria2URI p) = Some u" "u_Scheme u = ''hysteria2''"
    "u_User u = Some (cp_Password p, None)" "\<And>d. hostPort u d = Inr (cp_Server p, cp_Port p)"
    "\<And>k. values_Get (url_Query u) k = values_Get q k"
    using clash_url [OF address schemes_plain(5) reads_user_plain(1) [OF user_char_unreserved [OF pass(1)]]]
    unfolding uri by metis
  have get: "values_Get q ''sni'' = clash_sni p" "values_Get q ''allowInsecure'' = []"
    "values_Get q ''insecure'' = (if cp_SkipCertVerify p then ''1'' else [])" "values_Get q ''alpn'' = []"
    "values_Get q ''upMbps'' = []" "values_Get q ''downMbps'' = []" "values_Get q ''obfs'' = []"
    by (simp_all add: q_def Get_sets)
  have who: "user_string u = cp_Password p"
    using reads_user_plain(2) [OF user_char_unreserved [OF pass(1)]] by (simp add: user_string_def u(3))
  have tls: "hysteriaTLSOptions (cp_Server p) (url_Query u) skip =
      empty_tls\<lparr>tl_Enabled := True, tl_Insecure := cp_SkipCertVerify p \<or> skip,
        tl_ServerName := default_string (cp_Server p) (clash_sni p)\<rparr>"
    by (simp add: hysteriaTLSOptions_def u(5) get Let_def set_server_name_def set_insecure_def get_either_def
        set_alpn_def default_string_def empty_tls_def schemes_lower)
  show ?thesis
    using assms(2)
    by (auto simp: buildNodeOutbound_def u schemes_lower buildHysteria2Options_def who pass tls get translate_defs)
qed

lemma build_shadowsocks:
  assumes "uri_ok p" "ToLower (cp_Type p) \<in> {''ss'', ''shadowsocks''}"
  shows "buildNodeOutbound env t (buildShadowsocksURI p) skip d =
    bind_result (uri_outbound env skip d p) (\<lambda>x. Inr \<lparr>ob_Tag = t, ob_Options = x\<rparr>)"
proof -
  let ?text = "cp_Cipher p @ '':'' @ cp_Password p"
  let ?info = "EncodeStd ?text"
  have ok: "CHR '':'' \<notin> set (cp_Cipher p)" "CHR ''/'' \<notin> set ?info" and address: "clash_address_ok p"
    using assms by (auto simp: uri_ok_def Let_def)
  have "list_all (\<lambda>c. user_char c \<or> c = CHR ''/'') base64_chars" by code_simp
  then have chars: "list_all user_char ?info"
    using set_EncodeStd [of ?text] ok(2) unfolding list_all_iff by blast
  have empty: "distinct (map fst ([] :: url_values))" by simp
  have uri: "buildShadowsocksURI p = uri_text ''ss'' (?info @ ''@'') p (query_string [])"
    by (simp add: buildShadowsocksURI_def query_string_def)
  obtain u where u: "url_Parse (buildShadowsocksURI p) = Some u" "u_Scheme u = ''ss''"
    "u_User u = Some (?info, None)" "\<And>d. hostPort u d = Inr (cp_Server p, cp_Port p)"
    "\<And>k. values_Get (url_Query u) k = []"
    using clash_url [OF address schemes_plain(4) reads_user_plain(1) [OF chars] empty]
    unfolding uri Get_empty by metis
  have who: "user_string u = ?info"
    using reads_user_plain(2) [OF chars] by (simp add: user_string_def u(3))
  have "?info \<noteq> []" by (cases ?text rule: EncodeStd.cases) (simp_all add: Let_def)
  moreover have "Cut ?text (CHR '':'') = (cp_Cipher p, Some (cp_Password p))"
    using Cut_append [OF ok(1)] by simp
  ultimately have "buildShadowsocksOptions u = Inr
      \<lparr>so_Server = cp_Server p, so_ServerPort = word_of_int (cp_Port p), so_ConnectTimeout = 0,
       sh_Method = cp_Cipher p, sh_Password = cp_Password p, sh_Plugin = [], sh_PluginOptions = []\<rparr>"
    unfolding buildShadowsocksOptions_def u(4) bind_result_def sum.case prod.case who
    by (simp only: DecodeString_EncodeStd option.case u(3)) (simp add: u(5) Let_def)
  then show ?thesis
    using assms(2) by (auto simp: buildNodeOutbound_def u schemes_lower translate_defs)
qed

lemma build_http:
  assumes "uri_ok p" "ToLower (cp_Type p) = ''http''"
  shows "buildNodeOutbound env t (buildHTTPProxyURI p) skip d =
    bind_result (uri_outbound env skip d p) (\<lambda>x. Inr \<lparr>ob_Tag = t, ob_Options = x\<rparr>)"
proof -
  define s where "s = (if cp_TLS p then ''https'' else ''http'')"
  have address: "clash_address_ok p" using assms by (simp add: uri_ok_def)
  have s: "plain_scheme s" "ToLower s \<in> {''http'', ''https''}" "EqualFold s ''https'' = cp_TLS p"
    by (simp_all add: s_def schemes_plain schemes_lower)
  have uri: "buildHTTPProxyURI p = uri_text s (user_info p) p (query_string (set_sni p []))"
    by (simp add: buildHTTPProxyURI_def s_def)
  have "distinct (map fst (set_sni p []))" by (intro keys_sets) simp
  then obtain u where u: "url_Parse (buildHTTPProxyURI p) = Some u" "u_Scheme u = s"
    "u_User u = (if cp_Username p = [] then None
       else Some (cp_Username p, if cp_Password p \<noteq> [] then Some (cp_Password p) else None))"
    "u_Path u = []" "u_RawPath u = []" "\<And>d. hostPort u d = Inr (cp_Server p, cp_Port p)"
    "\<And>k. values_Get (url_Query u) k = values_Get (set_sni p []) k"
    using clash_url [OF address s(1) reads_user_info] unfolding uri by metis
  have path: "EscapedPath u = []" by (simp add: EscapedPath_def u escape_def)
  have trim: "TrimSpace [] = []" by code_simp
  have name: "https_server_name (cp_Server p) (url_Query u) = default_string (cp_Server p) (TrimSpace (clash_sni p))"
    by (simp add: https_server_name_def u(7) Get_sets trim default_string_def Let_def)
  have user: "user_credentials u = (cp_Username p, if cp_Username p = [] then [] else cp_Password p)"
    by (simp add: user_credentials_def u(3) opt_string_def)
  have "buildHTTPProxyOptions u skip = Inr
      \<lparr>so_Server = cp_Server p, so_ServerPort = word_of_int (cp_Port p), so_ConnectTimeout = 0,
       ho_Username = cp_Username p, ho_Password = (if cp_Username p = [] then [] else cp_Password p),
       ho_Path = [],
       ho_TLS = (if cp_TLS p
         then Some (empty_tls\<lparr>tl_Enabled := True, tl_Insecure := skip,
                      tl_ServerName := default_string (cp_Server p) (TrimSpace (clash_sni p))\<rparr>)
         else None)\<rparr>"
    by (simp add: buildHTTPProxyOptions_def u(2,6) s(3) user path trim name bind_result_def Let_def)
  then show ?thesis
    using s(2) by (simp add: buildNodeOutbound_def u(1,2) assms(2) translate_defs)
qed

lemma unreserved_lower: "unreserved (lower_char c) \<Longrightarrow> unreserved c"
  by (auto simp: lower_char_def unreserved_def is_letter_def split: if_splits)

lemma TrimSpace_scheme:
  assumes "list_all unreserved (ToLower v)"
  shows "TrimSpace v = v"
  using assms unreserved_lower
  by (intro TrimSpace_trimmed trimmed_unreserved) (auto simp: ToLower_def list_all_iff)

lemma build_socks:
  assumes "uri_ok p" "ToLower (cp_Type p) \<in> {''socks'', ''socks5'', ''socks4'', ''socks4a''}"
  shows "buildNodeOutbound env t (buildSOCKSProxyURI p) skip d =
    bind_result (uri_outbound env skip d p) (\<lambda>x. Inr \<lparr>ob_Tag = t, ob_Options = x\<rparr>)"
proof -
  let ?t = "ToLower (cp_Type p)"
  define s where "s = (if ?t \<in> {''socks4'', ''socks4a'', ''socks5''} then ?t else ''socks5'')"
  have address: "clash_address_ok p" using assms by (simp add: uri_ok_def)
  have "list_all (list_all unreserved) [''socks'', ''socks5'', ''socks4'', ''socks4a'']" by code_simp
  then have lower: "list_all unreserved ?t" using assms(2) by (simp only: list_all_iff) auto
  have chosen: "s = (if ?t = ''socks'' then ''socks5'' else ?t)" "s \<in> {''socks5'', ''socks4'', ''socks4a''}"
    using assms(2) unfolding s_def by auto
  have s: "plain_scheme s" "ToLower s = s" using chosen(2) schemes_plain schemes_lower by auto
  have version: "socks_version s = socks_version ?t"
  proof -
    have "socks_version ''socks5'' = socks_version ''socks''" by code_simp
    then show ?thesis unfolding chosen(1) by simp
  qed
  have empty: "distinct (map fst ([] :: url_values))" by simp
  have uri: "buildSOCKSProxyURI p = uri_text s (user_info p) p (query_string [])"
    by (simp only: buildSOCKSProxyURI_def TrimSpace_scheme [OF lower] s_def Let_def query_string_def simp_thms if_False)
  obtain u where u: "url_Parse (buildSOCKSProxyURI p) = Some u" "u_Scheme u = s"
    "u_User u = (if cp_Username p = [] then None
       else Some (cp_Username p, if cp_Password p \<noteq> [] then Some (cp_Password p) else None))"
    "\<And>d. hostPort u d = Inr (cp_Server p, cp_Port p)"
    using clash_url [OF address s(1) reads_user_info empty] unfolding uri by metis
  have user: "user_credentials u = (cp_Username p, if cp_Username p = [] then [] else cp_Password p)"
    by (simp add: user_credentials_def u(3) opt_string_def)
  have "buildSOCKSProxyOptions u = Inr
      \<lparr>so_Server = cp_Server p, so_ServerPort = word_of_int (cp_Port p), so_ConnectTimeout = 0,
       sk_Version = socks_version ?t, sk_Username = cp_Username p,
       sk_Password = (if cp_Username p = [] then [] else cp_Password p)\<rparr>"
    by (simp add: buildSOCKSProxyOptions_def u(2,4) user version bind_result_def)
  moreover have "buildNodeOutbound env t (buildSOCKSProxyURI p) skip d =
      bind_result (buildSOCKSProxyOptions u) (\<lambda>x. Inr \<lparr>ob_Tag = t, ob_Options = OutSOCKS (with_timeout d x)\<rparr>)"
    using chosen(2) by (auto simp: buildNodeOutbound_def u(1,2) s(2) Let_def)
  moreover have "uri_outbound env skip d p = Inr (OutSOCKS
      \<lparr>so_Server = cp_Server p, so_ServerPort = word_of_int (cp_Port p), so_ConnectTimeout = max 0 d,
       sk_Version = socks_version ?t, sk_Username = cp_Username p,
       sk_Password = (if cp_Username p = [] then [] else cp_Password p)\<rparr>)"
    using assms(2) by (auto simp: uri_outbound_def Let_def)
  ultimately show ?thesis by (simp add: bind_result_def max_timeout)
qed

lemma vless_tls:
  assumes "\<And>k. values_Get q k =
      (case cp_RealityOpts p of
         Some r \<Rightarrow>
           if k = ''security'' then ''reality''
           else if k = ''sni'' then (if cp_ServerName p \<noteq> [] then cp_ServerName p
                                     else if cp_TLS p then cp_SNI p else [])
           else if k = ''sid'' then cr_ShortID r else if k = ''pbk'' then cr_PublicKey r
           else if k = ''fp'' then cp_ClientFingerprint p
           else if k \<in> {''type'', ''path'', ''host'', ''serviceName'', ''encryption'', ''flow''} then f k else []
       | None \<Rightarrow>
           if k = ''security'' then (if cp_TLS p then ''tls'' else [])
           else if k = ''sni'' then (if cp_TLS p then clash_sni p else [])
           else if k = ''fp'' then cp_ClientFingerprint p
           else if k \<in> {''type'', ''path'', ''host'', ''serviceName'', ''encryption'', ''flow''} then f k else [])"
  shows "buildTLSOptions q skip = uri_vless_tls skip p"
proof (cases "cp_RealityOpts p")
  case None
  then show ?thesis using plain_tls [of q p f skip] assms by (simp add: uri_vless_tls_def)
next
  case (Some r)
  let ?sni = "if cp_ServerName p \<noteq> [] then cp_ServerName p else if cp_TLS p then cp_SNI p else []"
  have get: "values_Get q ''security'' = ''reality''"
    "values_Get q ''sni'' = ?sni" "values_Get q ''sid'' = cr_ShortID r" "values_Get q ''pbk'' = cr_PublicKey r"
    "values_Get q ''fp'' = cp_ClientFingerprint p" "values_Get q ''tls'' = []"
    "values_Get q ''peer'' = []" "values_Get q ''servername'' = []" "values_Get q ''alpn'' = []"
    "values_Get q ''allowInsecure'' = []" "values_Get q ''insecure'' = []"
    by (simp_all only: assms Some option.case) simp_all
  show ?thesis
    by (simp add: buildTLSOptions_def tls_security_def get schemes_lower Let_def set_server_name_def Some
        fill_server_name_def set_insecure_def get_either_def set_alpn_def tls_utls uri_vless_tls_def
        clash_utls_def set_reality_options_def set_utls_def default_string_def empty_tls_def)
qed

lemma build_vless:
  assumes "uri_ok p" "ToLower (cp_Type p) = ''vless''"
  shows "buildNodeOutbound env t (buildVLESSURI p) skip d =
    bind_result (uri_outbound env skip d p) (\<lambda>x. Inr \<lparr>ob_Tag = t, ob_Options = x\<rparr>)"
proof -
  define service where "service = opt_string (cp_GrpcServiceName p)"
  define q where "q = set_fp p (set_when (service \<noteq> []) ''serviceName'' service (set_ws p (set_reality p (set_tls p
    (set_when (cp_Flow p \<noteq> []) ''flow'' (cp_Flow p) (set_network p (values_Set ''encryption'' ''none'' [])))))))"
  have uuid: "list_all unreserved (cp_UUID p)" "normalizeUUID (cp_UUID p) \<noteq> []" and address: "clash_address_ok p"
    using assms by (simp_all add: uri_ok_def Let_def)
  have "q \<noteq> []"
  proof
    assume "q = []"
    moreover have "values_Get q ''encryption'' = ''none''" by (simp add: q_def Get_sets split: option.split)
    ultimately show False by simp
  qed
  then have uri: "buildVLESSURI p = uri_text ''vless'' (cp_UUID p @ ''@'') p (query_string q)"
    unfolding query_string_def q_def service_def buildVLESSURI_def Let_def
    by (simp add: set_when_def opt_string_def split: option.split)
  have "distinct (map fst q)" unfolding q_def by (intro keys_sets keys_set_when keys_Set) simp
  then obtain u where u: "url_Parse (buildVLESSURI p) = Some u" "u_Scheme u = ''vless''"
    "u_User u = Some (cp_UUID p, None)" "\<And>d. hostPort u d = Inr (cp_Server p, cp_Port p)"
    "\<And>k. values_Get (url_Query u) k = values_Get q k"
    using clash_url [OF address schemes_plain(2) reads_user_plain(1) [OF user_char_unreserved [OF uuid(1)]]]
    unfolding uri by metis
  have tls: "buildTLSOptions (url_Query u) skip = uri_vless_tls skip p"
    by (rule vless_tls [where f = "values_Get q"])
      (auto simp: u(5) q_def Get_sets clash_sni_def split: option.split)
  have trans: "buildV2RayTransport env (url_Query u) = clash_transport env service p"
    by (rule transport_of_values) (simp_all add: u(5) q_def Get_sets split: option.split)
  have get: "values_Get q ''flow'' = cp_Flow p" "values_Get q ''xtls'' = []" "values_Get q ''packetEncoding'' = []"
    "values_Get q ''tfo'' = []"
    by (simp_all add: q_def Get_sets split: option.split)
  have trim: "TrimSpace (cp_UUID p) = cp_UUID p" by (intro TrimSpace_trimmed trimmed_unreserved uuid(1))
  have "cp_UUID p \<noteq> []"
  proof
    assume "cp_UUID p = []"
    moreover have "normalizeUUID [] = []" by code_simp
    ultimately show False using uuid(2) by simp
  qed
  then have id: "extractVLESSUUID u = Inr (normalizeUUID (cp_UUID p))"
    using uuid(2) by (simp add: extractVLESSUUID_def u(3) trim Let_def)
  show ?thesis
    using assms(2)
    by (cases "clash_transport env service p")
      (simp_all add: buildNodeOutbound_def u(1-4) u(5) schemes_lower buildVLESSOptions_def id vless_flow_def get trans tls
        service_def [symmetric] translate_defs)
qed

definition demo_clash :: clash_proxy where
  "demo_clash =
     \<lparr>cp_Name = ''Tokyo 1'', cp_Type = ''VLESS'', cp_Server = ''a.example'', cp_Port = 8443,
      cp_UUID = ''0123456789ABCDEF0123456789abcdef'', cp_Username = [], cp_Password = [], cp_Cipher = [],
      cp_Network = ''ws'', cp_TLS = True, cp_SkipCertVerify = False, cp_ServerName = ''b.example'', cp_SNI = [],
      cp_Flow = ''xtls-rprx-vision'',
      cp_WSOpts = Some \<lparr>cw_Path = ''/p?ed=2048'', cw_Headers = [''Host'' \<mapsto> ''c.example'']\<rparr>,
      cp_GrpcServiceName = None,
      cp_RealityOpts = Some \<lparr>cr_PublicKey = ''k+/='', cr_ShortID = ''ab''\<rparr>, cp_ClientFingerprint = []\<rparr>"

definition demo_vless :: vless_options where
  "demo_vless =
       \<lparr>so_Server = ''a.example'', so_ServerPort = 8443, so_ConnectTimeout = 5,
        vl_UUID = ''01234567-89ab-cdef-0123-456789abcdef'', vl_Flow = ''xtls-rprx-vision'',
        vl_PacketEncoding = None, vl_TCPFastOpen = False,
        vl_Transport = Some (empty_transport\<lparr>tr_Type := ''ws'', tr_WSPath := ''/p'', tr_WSHost := Some ''c.example'',
          tr_MaxEarlyData := 2048, tr_EarlyDataHeaderName := ''Sec-WebSocket-Protocol''\<rparr>),
        vl_TLS = Some (empty_tls\<lparr>tl_Enabled := True, tl_ServerName := ''b.example'',
          tl_UTLS := Some \<lparr>ut_Enabled = True, ut_Fingerprint = ''chrome''\<rparr>,
          tl_Reality := Some \<lparr>re_Enabled = True, re_PublicKey = ''k+/='', re_ShortID = ''ab''\<rparr>\<rparr>)\<rparr>"

lemma demo_clash_outbound: "clash_outbound demo_build False 5 demo_clash = Inr (OutVLESS demo_vless)"
proof -
  have id: "normalizeUUID ''0123456789ABCDEF0123456789abcdef'' = ''01234567-89ab-cdef-0123-456789abcdef''"
    by code_simp
  have tr: "clash_transport demo_build [] demo_clash = Inr (vl_Transport demo_vless)" by code_simp
  have tls: "clash_tls_if False demo_clash = vl_TLS demo_vless" by code_simp
  have ty: "ToLower (cp_Type demo_clash) = ''vless''" by code_simp
  show ?thesis
    using tr tls by (simp add: clash_outbound_def ty id)
      (simp add: demo_clash_def demo_vless_def id bind_result_def opt_string_def)
qed

lemma uri_equivalence:
  assumes "uri_ok p"
  shows "buildNodeOutbound env t (convertClashProxyToURI p) skip d =
    bind_result (uri_outbound env skip d p) (\<lambda>x. Inr \<lparr>ob_Tag = t, ob_Options = x\<rparr>)"
proof -
  note builds = build_vmess build_vless build_trojan build_shadowsocks build_hysteria2 build_http build_socks
  let ?t = "ToLower (cp_Type p)"
  consider "?t = ''vmess''" | "?t = ''vless''" | "?t = ''trojan''" | "?t \<in> {''ss'', ''shadowsocks''}"
    | "?t \<in> {''hysteria2'', ''hy2''}" | "?t = ''http''" | "?t \<in> {''socks'', ''socks5'', ''socks4'', ''socks4a''}"
    using assms by (auto simp: uri_ok_def Let_def split: if_splits)
  then show ?thesis
    by cases (use builds [OF assms] in \<open>auto simp: convertClashProxyToURI_def Let_def\<close>)
qed


text \<open>
  What is lost otherwise.  The URI is the same whatever these fields say, so the builder cannot
  honour them: a VMess, VLESS or HTTP proxy with \<open>skip-cert-verify\<close> is verified after all, a VMess
  cipher becomes \<open>auto\<close>, and a VMess or Trojan proxy over gRPC loses its service name.
\<close>

lemma clash_fields_dropped:
  "buildVMessURI (p\<lparr>cp_SkipCertVerify := b, cp_Cipher := c, cp_GrpcServiceName := g\<rparr>) = buildVMessURI p \<and>
   buildVLESSURI (p\<lparr>cp_SkipCertVerify := b\<rparr>) = buildVLESSURI p \<and>
   buildTrojanURI (p\<lparr>cp_GrpcServiceName := g\<rparr>) = buildTrojanURI p \<and>
   buildHTTPProxyURI (p\<lparr>cp_SkipCertVerify := b\<rparr>) = buildHTTPProxyURI p"
  by (cases p, hypsubst, unfold buildVMessURI_def buildVLESSURI_def buildTrojanURI_def buildHTTPProxyURI_def
      uri_text_def user_info_def set_network_def set_sni_def set_tls_def set_ws_def set_fp_def set_reality_def
      clash_proxy.update_convs clash_proxy.select_convs, intro conjI; rule refl)


end
