(* ===== verification/Config_Save.thy ===== *)
theory Config_Save
  imports Config_Ports
begin

text \<open>
  What saving guarantees: nodes go to the place they came from and are found there again,
  settings are replaced without touching nodes, and a save that fails says so.
\<close>

section \<open>Saving nodes\<close>


definition demo_saved :: config where
  "demo_saved = zero_config\<lparr>cf_filePath := ''/c.yaml'',
     cf_Nodes := [(demo_node ''a'' 1)\<lparr>nc_Source := NodeSourceInline\<rparr>,
                  (demo_node ''b'' 2)\<lparr>nc_Source := NodeSourceFile\<rparr>]\<rparr>"

text \<open>A YAML package that knows two documents.\<close>

definition demo_yaml_env :: cfg_env where
  "demo_yaml_env = (demo_cfg_env (\<lambda>_. True))
     \<lparr>ce_yaml_config := (\<lambda>s. if s = ''old'' then Inr zero_config
        else Inr (zero_config\<lparr>cf_Nodes := inline_nodes demo_saved\<rparr>)),
      ce_yaml_marshal := (\<lambda>_. Inr ''new'')\<rparr>"

definition demo_disk :: disk where
  "demo_disk = empty_disk\<lparr>dk_files := [''/c.yaml'' \<mapsto> ''old'']\<rparr>"

lemma line_uri_demo: "line_uri ''ss://b''"
proof -
  have "isProxyURI ''ss://b''" by code_simp
  then show ?thesis
    by (simp add: line_uri_def trimmed_def no_front_def white_space_def)
qed


text \<open>
  One case is lost: without inline nodes the configuration file is not written at all, so the
  removal of the last inline node does not reach it.
\<close>

lemma SaveNodes_last_inline_kept:
  "inline_nodes c = [] \<Longrightarrow> nodes_file_path c \<noteq> cf_filePath c \<Longrightarrow>
   dk_files (snd (SaveNodes env (Some c) d)) (cf_filePath c) = dk_files d (cf_filePath c)"
  by (auto simp: SaveNodes_def writeNodesToFile_def WriteFile_def split: prod.splits option.splits if_splits)

section \<open>Saving settings\<close>

text \<open>
  Saving settings.  When the file can be read, decoded, encoded and written, \<open>SaveSettings\<close>
  succeeds and the file then decodes to the old configuration with the settings replaced: its
  nodes and nodes file are the old ones, the modes, ports, pool, management, subscriptions,
  refresh settings and node filter are the given ones, and no other file is touched.
\<close>

theorem SaveSettings_persists:
  assumes "cf_filePath c \<noteq> []" and "dk_read_err d (cf_filePath c) = None"
    and "dk_write_err d (cf_filePath c) = None"
    and "dk_files d (cf_filePath c) = Some content" and "ce_yaml_config env content = Inr old"
    and "ce_yaml_marshal env (copy_settings c old) = Inr data"
    and "ce_yaml_config env data = Inr (copy_settings c old)"
  shows "\<exists>d' saved new. SaveSettings env (Some c) d = (None, d') \<and>
    dk_files d' = (dk_files d)(cf_filePath c \<mapsto> saved) \<and> ce_yaml_config env saved = Inr new \<and>
    cf_Nodes new = cf_Nodes old \<and> cf_NodesFile new = cf_NodesFile old \<and>
    cf_Mode new = cf_Mode c \<and> cf_Listener new = cf_Listener c \<and> cf_MultiPort new = cf_MultiPort c \<and>
    cf_Pool new = cf_Pool c \<and> cf_Management new = cf_Management c \<and>
    cf_Subscriptions new = cf_Subscriptions c \<and>
    cf_SubscriptionRefresh new = cf_SubscriptionRefresh c \<and> cf_NodeFilter new = cf_NodeFilter c \<and>
    cf_ExternalIP new = cf_ExternalIP c \<and> cf_LogLevel new = cf_LogLevel c \<and>
    cf_SkipCertVerify new = cf_SkipCertVerify c \<and> cf_ConnectTimeout new = cf_ConnectTimeout c"
proof -
  have "cf_Management (copy_settings c old) = cf_Management c"
    by (simp add: copy_settings_def)
  then show ?thesis
    using assms
    by (intro exI [of _ "d\<lparr>dk_files := (dk_files d)(cf_filePath c \<mapsto> data)\<rparr>"] exI [of _ data]
        exI [of _ "copy_settings c old"])
      (simp add: SaveSettings_def ReadFile_def WriteFile_def copy_settings_def)
qed

definition demo_settings_env :: cfg_env where
  "demo_settings_env = demo_yaml_env\<lparr>ce_yaml_config := (\<lambda>s. if s = ''old'' then Inr zero_config
     else Inr (copy_settings demo_saved zero_config))\<rparr>"

theorem SaveSettings_persists_witness:
  "\<exists>d' saved new. SaveSettings demo_settings_env (Some demo_saved) demo_disk = (None, d') \<and>
    dk_files d' = [''/c.yaml'' \<mapsto> saved] \<and> ce_yaml_config demo_settings_env saved = Inr new \<and>
    cf_Nodes new = []"
proof -
  have fp: "cf_filePath demo_saved = ''/c.yaml''"
    by (simp add: demo_saved_def)
  have old: "dk_files demo_disk ''/c.yaml'' = Some ''old''" "cf_Nodes zero_config = []"
    "dk_files demo_disk = [''/c.yaml'' \<mapsto> ''old'']"
    "dk_read_err demo_disk p = None" "dk_write_err demo_disk p = None" for p
    by (simp_all add: demo_disk_def empty_disk_def zero_config_def)
  have yaml: "ce_yaml_config demo_settings_env ''old'' = Inr zero_config"
    "ce_yaml_marshal demo_settings_env x = Inr ''new''"
    "ce_yaml_config demo_settings_env ''new'' = Inr (copy_settings demo_saved zero_config)" for x
    by (simp_all add: demo_settings_env_def demo_yaml_env_def)
  from SaveSettings_persists [of demo_saved demo_disk "''old''" demo_settings_env zero_config "''new''"]
  obtain d' saved new where
    "SaveSettings demo_settings_env (Some demo_saved) demo_disk = (None, d')"
    "dk_files d' = (dk_files demo_disk)(cf_filePath demo_saved \<mapsto> saved)"
    "ce_yaml_config demo_settings_env saved = Inr new" "cf_Nodes new = cf_Nodes zero_config"
    unfolding fp using old yaml by auto
  then show ?thesis
    by (auto simp: fp old)
qed

text \<open>
  What a save of settings writes, field by field: \<open>w\<close> has every setting of \<open>n\<close>, and the nodes and
  the nodes file of \<open>old\<close>.
\<close>

definition takes_settings :: "config \<Rightarrow> config \<Rightarrow> config \<Rightarrow> bool" where
  "takes_settings n old w \<longleftrightarrow>
     cf_Mode w = cf_Mode n \<and> cf_LogLevel w = cf_LogLevel n \<and> cf_ExternalIP w = cf_ExternalIP n \<and>
     cf_ConnectTimeout w = cf_ConnectTimeout n \<and> cf_SkipCertVerify w = cf_SkipCertVerify n \<and>
     cf_Listener w = cf_Listener n \<and> cf_MultiPort w = cf_MultiPort n \<and> cf_Pool w = cf_Pool n \<and>
     cf_Management w = cf_Management n \<and> cf_Subscriptions w = cf_Subscriptions n \<and>
     cf_SubscriptionRefresh w = cf_SubscriptionRefresh n \<and> cf_NodeFilter w = cf_NodeFilter n \<and>
     cf_Nodes w = cf_Nodes old \<and> cf_NodesFile w = cf_NodesFile old"

text \<open>
  From \<open>d\<close> to \<open>d'\<close> only the file of \<open>n\<close> changed, from a configuration \<open>old\<close> to the encoding of
  \<open>old\<close> with the settings of \<open>n\<close>.
\<close>

definition settings_saved :: "cfg_env \<Rightarrow> config \<Rightarrow> disk \<Rightarrow> disk \<Rightarrow> bool" where
  "settings_saved env n d d' \<longleftrightarrow>
     (\<exists>content old w data. dk_files d (cf_filePath n) = Some content \<and>
        ce_yaml_config env content = Inr old \<and> takes_settings n old w \<and>
        ce_yaml_marshal env w = Inr data \<and>
        d' = d\<lparr>dk_files := (dk_files d)(cf_filePath n \<mapsto> data)\<rparr>)"

lemma takes_copy_settings: "takes_settings n old (copy_settings n old)"
  by (simp add: takes_settings_def copy_settings_def)

lemma SaveSettings_saved:
  assumes "SaveSettings env (Some n) d = (None, d')"
  shows "settings_saved env n d d'"
proof -
  obtain content old data where
    "ReadFile (cf_filePath n) d = Inr content" "ce_yaml_config env content = Inr old"
    "ce_yaml_marshal env (copy_settings n old) = Inr data"
    "WriteFile (cf_filePath n) data d = (None, d')"
    using assms by (auto simp: SaveSettings_def split: if_splits sum.splits prod.splits option.splits)
  then show ?thesis
    unfolding settings_saved_def
    by (intro exI [of _ content] exI [of _ old] exI [of _ "copy_settings n old"] exI [of _ data])
      (auto simp: takes_copy_settings ReadFile_def WriteFile_def split: option.splits)
qed

text \<open>A save that fails leaves the disk, but the file that could not be written may hold a part.\<close>

lemma SaveSettings_failed:
  assumes "SaveSettings env (Some n) d = (Some e, d')"
  shows "d' = d \<or> (\<exists>k data. dk_write_left d (cf_filePath n) = Some k \<and>
    d' = d\<lparr>dk_files := (dk_files d)(cf_filePath n \<mapsto> take k data)\<rparr>)"
  using assms
  by (auto simp: SaveSettings_def WriteFile_def split: if_splits sum.splits option.splits)

end
