(* ===== verification/Box_Nodes.thy ===== *)
theory Box_Nodes
  imports Box_Manager Config_Save
begin

text \<open>
  The nodes of the configuration under the web interface's operations: the choice of a port, the
  validation of a node, and what creating, updating and deleting keep.
\<close>

section \<open>The next free port\<close>

text \<open>The steps from one non-zero port to another, going round past 65535 to 1.\<close>

definition port_dist :: "port \<Rightarrow> port \<Rightarrow> nat" where
  "port_dist p r = (if p \<le> r then unat r - unat p else unat r + 65535 - unat p)"

definition port_succ :: "port \<Rightarrow> port" where
  "port_succ p = (let q = p + 1 in if q = 0 then 1 else q)"

lemma port_succ_nonzero [simp]: "port_succ p \<noteq> 0"
  by (simp add: port_succ_def Let_def)

lemma unat_port_succ:
  "unat (port_succ p) = (if unat p = 65535 then 1 else unat p + 1)"
proof (cases "unat p = 65535")
  case True
  then have "p + 1 = 0"
    by (simp add: word_unat_eq_iff unat_word_ariths)
  with True show ?thesis by (simp add: port_succ_def)
next
  case False
  with unat_port_le [of p] have "unat p + 1 < 65536" by linarith
  then have *: "unat (p + 1) = unat p + 1"
    by (simp add: unat_word_ariths)
  then have "p + 1 \<noteq> 0" by (metis add_is_0 one_neq_zero unat_0)
  with * False show ?thesis by (simp add: port_succ_def Let_def)
qed

lemma port_dist_nat:
  fixes a b :: nat
  assumes "a \<noteq> b" "a \<noteq> 0" "b \<noteq> 0" "a \<le> 65535" "b \<le> 65535"
  shows "Suc (if (if a = 65535 then 1 else a + 1) \<le> b then b - (if a = 65535 then 1 else a + 1)
              else b + 65535 - (if a = 65535 then 1 else a + 1)) =
         (if a \<le> b then b - a else b + 65535 - a)"
proof (cases "a = 65535")
  case True
  with assms show ?thesis by simp
next
  case False
  with assms show ?thesis by (cases "a \<le> b") (simp_all split: if_split)
qed

lemma port_dist_succ:
  assumes "p \<noteq> 0" "r \<noteq> 0" "p \<noteq> r"
  shows "Suc (port_dist (port_succ p) r) = port_dist p r"
  unfolding port_dist_def word_le_nat_alt unat_port_succ
proof (rule port_dist_nat)
  show "unat p \<noteq> unat r" using assms(3) by (metis word_unat_eq_iff)
  show "unat p \<noteq> 0" "unat r \<noteq> 0" using assms(1,2) by (simp_all add: unat_eq_zero)
qed simp_all

lemma next_port_step:
  "next_port (Suc k) used base p = (if p \<notin> used \<and> p \<noteq> 0 then p else next_port k used base (port_succ p))"
  by (simp add: port_succ_def Let_def)

lemma next_port_reaches:
  "p \<noteq> 0 \<Longrightarrow> r \<noteq> 0 \<Longrightarrow> r \<notin> used \<Longrightarrow> port_dist p r < k \<Longrightarrow>
   next_port k used base p \<notin> used \<and> next_port k used base p \<noteq> 0"
proof (induction k arbitrary: p)
  case (Suc k)
  show ?case
  proof (cases "p \<notin> used \<and> p \<noteq> 0")
    case True
    then show ?thesis by simp
  next
    case False
    with Suc.prems have "p \<noteq> r" by auto
    then have "port_dist (port_succ p) r < k"
      using port_dist_succ [of p r] Suc.prems by simp
    from Suc.IH [OF port_succ_nonzero Suc.prems(2,3) this] False show ?thesis
      unfolding next_port_step by (subst if_not_P) simp_all
  qed
qed simp

lemma next_port_free:
  assumes "p \<noteq> 0" "r \<noteq> 0" "r \<notin> used"
  shows "next_port (2 ^ 16) used base p \<notin> used \<and> next_port (2 ^ 16) used base p \<noteq> 0"
proof (rule next_port_reaches [OF assms])
  have "unat r \<le> 65535" "unat p \<le> 65535" by simp_all
  moreover have "p \<le> r \<or> unat r < unat p"
    unfolding word_le_nat_alt by linarith
  ultimately show "port_dist p r < 2 ^ 16"
    unfolding port_dist_def by (cases "p \<le> r") (simp_all del: unat_port_le)
qed

text \<open>Fewer nodes than ports leave a non-zero port that no node has.\<close>

lemma free_port_exists:
  assumes "length ns < 65535"
  shows "\<exists>r. r \<noteq> 0 \<and> r \<notin> nc_Port ` set ns"
proof (rule ccontr)
  assume "\<not> ?thesis"
  then have "UNIV - {0} \<subseteq> nc_Port ` set ns" by blast
  then have "card (UNIV - {0 :: port}) \<le> card (nc_Port ` set ns)"
    by (intro card_mono) simp_all
  also have "\<dots> \<le> length ns"
    using card_image_le [of "set ns" nc_Port] card_length [of ns] by simp
  finally show False
    using assms by (simp add: card_Diff_singleton card_word)
qed

lemma nextAvailablePort_fresh:
  assumes "length (cf_Nodes c) < 65535"
  shows "nextAvailablePort c \<noteq> 0 \<and> nextAvailablePort c \<notin> nc_Port ` set (cf_Nodes c)"
proof -
  let ?used = "nc_Port ` set (filter (\<lambda>n. 0 < nc_Port n) (cf_Nodes c))"
  let ?base = "if mpc_BasePort (cf_MultiPort c) = 0 then 24000 else mpc_BasePort (cf_MultiPort c)"
  obtain r where "r \<noteq> 0" "r \<notin> nc_Port ` set (cf_Nodes c)"
    using free_port_exists [OF assms] by blast
  then have "r \<notin> ?used" by auto
  from next_port_free [OF _ \<open>r \<noteq> 0\<close> this, of ?base ?base]
  have "nextAvailablePort c \<notin> ?used" "nextAvailablePort c \<noteq> 0"
    by (simp_all add: nextAvailablePort_def Let_def)
  then show ?thesis
    by (auto simp: word_gt_0)
qed

text \<open>
  The port for a new node.  With fewer than 65535 nodes the port it is given is not 0 and no
  node of the configuration has it, whatever the base port is.
\<close>

theorem new_node_port_unused:
  assumes "length (cf_Nodes c) < 65535"
  shows "nextAvailablePort c \<noteq> 0 \<and> list_all (\<lambda>n. nc_Port n \<noteq> nextAvailablePort c) (cf_Nodes c)"
  using nextAvailablePort_fresh [OF assms] by (auto simp: list_all_iff image_iff)

theorem new_node_port_unused_witness:
  "nextAvailablePort (demo_config ''multi-port'' [demo_node ''a'' 24000]) \<noteq> 24000"
  using new_node_port_unused [of "demo_config ''multi-port'' [demo_node ''a'' 24000]"]
  by (auto simp: demo_config_def demo_node_def)

section \<open>Looking up and checking a node\<close>

lemma nodeIndex_None: "nodeIndex name ns = None \<longleftrightarrow> name \<notin> nc_Name ` set ns"
  by (induction ns) auto

lemma nodeIndex_SomeD:
  "nodeIndex name ns = Some i \<Longrightarrow>
   i < length ns \<and> nc_Name (ns ! i) = name \<and> name \<notin> nc_Name ` set (take i ns)"
proof (induction ns arbitrary: i)
  case (Cons n ns)
  then show ?case
    by (cases i) (auto split: if_splits)
qed simp

lemma prepared_name_nonempty: "prepared_name c cur n \<noteq> []"
  by (simp add: prepared_name_def Let_def)

lemma portInUse_iff:
  "portInUse p cur ns \<longleftrightarrow> p \<noteq> 0 \<and> (\<exists>n \<in> set ns. nc_Name n \<noteq> cur \<and> nc_Port n = p)"
  by (auto simp: portInUse_def list_ex_iff)

lemma prepareNode_name:
  assumes "prepareNode c n cur = Inr m"
  shows "nc_Name m \<noteq> [] \<and> (nc_Name m \<in> nc_Name ` set (cf_Nodes c) \<longrightarrow> cur \<noteq> [] \<and> nc_Name m = cur)"
proof -
  let ?n1 = "trim_node n"
  have m: "nc_Name m = prepared_name c cur ?n1"
    using assms by (auto simp: prepareNode_def Let_def split: if_splits)
  have ok: "\<not> (case nodeIndex (nc_Name m) (cf_Nodes c) of None \<Rightarrow> False
               | Some i \<Rightarrow> cur = [] \<or> nc_Name (cf_Nodes c ! i) \<noteq> cur)"
    using assms unfolding m by (auto simp: prepareNode_def Let_def split: if_splits)
  have "cur \<noteq> [] \<and> nc_Name m = cur" if "nc_Name m \<in> nc_Name ` set (cf_Nodes c)"
  proof (cases "nodeIndex (nc_Name m) (cf_Nodes c)")
    case None
    with that show ?thesis by (simp add: nodeIndex_None)
  next
    case (Some i)
    with ok nodeIndex_SomeD [OF Some] show ?thesis by simp
  qed
  with m prepared_name_nonempty show ?thesis by metis
qed

lemma prepareNode_port:
  assumes "prepareNode c n cur = Inr m" "cf_Mode c = ''multi-port''" "length (cf_Nodes c) < 65535"
  shows "nc_Port m \<noteq> 0 \<and> (\<forall>k \<in> set (cf_Nodes c). nc_Name k \<noteq> cur \<longrightarrow> nc_Port k \<noteq> nc_Port m)"
proof -
  consider (given) "nc_Port n \<noteq> 0" "nc_Port m = nc_Port n" "\<not> portInUse (nc_Port n) cur (cf_Nodes c)"
    | (chosen) "nc_Port m = nextAvailablePort c"
    using assms(1,2) by (auto simp: prepareNode_def Let_def trim_node_def split: if_splits)
  then show ?thesis
  proof cases
    case given
    then show ?thesis by (auto simp: portInUse_iff)
  next
    case chosen
    with nextAvailablePort_fresh [OF assms(3)] show ?thesis by (auto simp: image_iff)
  qed
qed

section \<open>What the operations leave behind\<close>

text \<open>The configuration after an operation that was refused, or that saved \<open>c\<close>.\<close>

lemma save_nodes_cfg:
  "save_nodes env c s = (r, s') \<Longrightarrow>
   bm_cfg s' = (if r = None then Some c else bm_cfg s) \<and>
   (r, bm_disk s') = Save (be_cfg env) (Some c) (bm_disk s)"
  by (auto simp: save_nodes_def split: prod.splits option.splits)

lemma CreateNode_cases:
  "case CreateNode env ce n s of
     (Inl e, s') \<Rightarrow> bm_cfg s' = bm_cfg s
   | (Inr m, s') \<Rightarrow>
       (\<exists>c m0. bm_cfg s = Some c \<and> prepareNode c n [] = Inr m0 \<and>
          m = m0\<lparr>nc_Source :=
                (if cf_Subscriptions c = [] \<and> cf_NodesFile c \<noteq> []
                 then NodeSourceFile else NodeSourceInline)\<rparr> \<and>
          bm_cfg s' = Some (c\<lparr>cf_Nodes := cf_Nodes c @ [m]\<rparr>) \<and>
          Save (be_cfg env) (bm_cfg s') (bm_disk s) = (None, bm_disk s'))"
  by (auto simp: CreateNode_def Let_def dest!: save_nodes_cfg split: prod.splits option.splits sum.splits)

lemma UpdateNode_cases:
  "case UpdateNode env ce name n s of
     (Inl e, s') \<Rightarrow> bm_cfg s' = bm_cfg s
   | (Inr m, s') \<Rightarrow>
       (\<exists>c i m0. bm_cfg s = Some c \<and> nodeIndex (TrimSpace name) (cf_Nodes c) = Some i \<and>
          prepareNode c n (TrimSpace name) = Inr m0 \<and>
          m = m0\<lparr>nc_Source := nc_Source (cf_Nodes c ! i)\<rparr> \<and>
          bm_cfg s' = Some (c\<lparr>cf_Nodes := (cf_Nodes c)[i := m]\<rparr>) \<and>
          Save (be_cfg env) (bm_cfg s') (bm_disk s) = (None, bm_disk s'))"
  by (auto simp: UpdateNode_def Let_def dest!: save_nodes_cfg split: prod.splits option.splits sum.splits)

lemma DeleteNode_cases:
  "case DeleteNode env ce name s of
     (Some e, s') \<Rightarrow> bm_cfg s' = bm_cfg s
   | (None, s') \<Rightarrow>
       (\<exists>c i. bm_cfg s = Some c \<and> nodeIndex (TrimSpace name) (cf_Nodes c) = Some i \<and>
          bm_cfg s' = Some (c\<lparr>cf_Nodes := take i (cf_Nodes c) @ drop (Suc i) (cf_Nodes c)\<rparr>) \<and>
          Save (be_cfg env) (bm_cfg s') (bm_disk s) = (None, bm_disk s'))"
  by (auto simp: DeleteNode_def Let_def dest!: save_nodes_cfg split: prod.splits option.splits sum.splits)

section \<open>Requests on the nodes\<close>

text \<open>The invariant: names that are not empty and different; ports too in the multi-port mode.\<close>

definition nodes_ok :: "config \<Rightarrow> bool" where
  "nodes_ok c \<longleftrightarrow>
     distinct (map nc_Name (cf_Nodes c)) \<and> [] \<notin> nc_Name ` set (cf_Nodes c) \<and>
     (cf_Mode c = ''multi-port'' \<longrightarrow>
        distinct (map nc_Port (cf_Nodes c)) \<and> 0 \<notin> nc_Port ` set (cf_Nodes c))"

datatype node_request =
    CreateRequest "string option" node_config
  | UpdateRequest "string option" string node_config
  | DeleteRequest "string option" string

definition serve :: "bm_env \<Rightarrow> node_request \<Rightarrow> bm_state \<Rightarrow> bm_state" where
  "serve env r s =
     (case r of
        CreateRequest ce n \<Rightarrow> snd (CreateNode env ce n s)
      | UpdateRequest ce name n \<Rightarrow> snd (UpdateNode env ce name n s)
      | DeleteRequest ce name \<Rightarrow> snd (DeleteNode env ce name s))"

lemma distinct_map_update:
  assumes "distinct (map f xs)" "i < length xs" "\<forall>k \<in> set xs. f k \<noteq> f (xs ! i) \<longrightarrow> f k \<noteq> f m"
  shows "distinct (map f (xs[i := m]))"
proof -
  have "f m \<notin> set (map f xs) - {map f xs ! i}"
    using assms(2,3) by (auto simp: nth_map)
  then show ?thesis
    using assms(1) by (simp add: map_update distinct_list_update)
qed

lemma distinct_map_key:
  "distinct (map f xs) \<Longrightarrow> x \<in> set xs \<Longrightarrow> y \<in> set xs \<Longrightarrow> f x = f y \<Longrightarrow> x = y"
  by (auto simp: distinct_map inj_on_def)

lemma nodes_ok_append:
  assumes "nodes_ok c" "prepareNode c n [] = Inr m" "length (cf_Nodes c) < 65535"
  shows "nodes_ok (c\<lparr>cf_Nodes := cf_Nodes c @ [m\<lparr>nc_Source := src\<rparr>]\<rparr>)"
  using assms(1) prepareNode_name [OF assms(2)] prepareNode_port [OF assms(2) _ assms(3)]
  by (fastforce simp: nodes_ok_def image_iff)

lemma nodes_ok_update:
  assumes ok: "nodes_ok c" and i: "nodeIndex name (cf_Nodes c) = Some i"
    and m: "prepareNode c n name = Inr m" and len: "length (cf_Nodes c) < 65535"
  shows "nodes_ok (c\<lparr>cf_Nodes := (cf_Nodes c)[i := m\<lparr>nc_Source := src\<rparr>]\<rparr>)"
proof -
  let ?m = "m\<lparr>nc_Source := src\<rparr>"
  note ix = nodeIndex_SomeD [OF i]
  have other: "nc_Name k \<noteq> name" if "k \<in> set (cf_Nodes c)" "nc_Port k \<noteq> nc_Port (cf_Nodes c ! i)" for k
    using that ok ix distinct_map_key [of nc_Name "cf_Nodes c" k "cf_Nodes c ! i"]
    by (auto simp: nodes_ok_def)
  have names: "distinct (map nc_Name ((cf_Nodes c)[i := ?m]))"
    using ok ix prepareNode_name [OF m]
    by (intro distinct_map_update) (fastforce simp: nodes_ok_def image_iff)+
  have "distinct (map nc_Port ((cf_Nodes c)[i := ?m]))" if "cf_Mode c = ''multi-port''"
    using ok ix prepareNode_port [OF m that len] other that
    by (intro distinct_map_update) (auto simp: nodes_ok_def image_iff)
  with names show ?thesis
    using ok prepareNode_name [OF m] prepareNode_port [OF m _ len] set_update_subset_insert [of "cf_Nodes c" i ?m]
    by (auto simp: nodes_ok_def)
qed

lemma distinct_map_delete:
  "distinct (map f xs) \<Longrightarrow> distinct (map f (take i xs @ drop (Suc i) xs))"
proof (cases "i < length xs")
  case True
  assume "distinct (map f xs)"
  then have "distinct (map f (take i xs @ xs ! i # drop (Suc i) xs))"
    by (simp only: id_take_nth_drop [OF True, symmetric])
  then show ?thesis by auto
qed simp

lemma nodes_ok_delete:
  assumes "nodes_ok c"
  shows "nodes_ok (c\<lparr>cf_Nodes := take i (cf_Nodes c) @ drop (Suc i) (cf_Nodes c)\<rparr>)"
proof -
  let ?ns = "take i (cf_Nodes c) @ drop (Suc i) (cf_Nodes c)"
  have "set ?ns \<subseteq> set (cf_Nodes c)"
    using set_take_subset [of i "cf_Nodes c"] set_drop_subset [of "Suc i" "cf_Nodes c"] by simp
  then have sub: "f ` set ?ns \<subseteq> f ` set (cf_Nodes c)" for f :: "node_config \<Rightarrow> 'b"
    by (rule image_mono)
  have "distinct (map nc_Name ?ns)" "[] \<notin> nc_Name ` set ?ns"
    using assms distinct_map_delete sub [of nc_Name] unfolding nodes_ok_def by blast+
  moreover have "distinct (map nc_Port ?ns) \<and> 0 \<notin> nc_Port ` set ?ns" if "cf_Mode c = ''multi-port''"
    using assms that distinct_map_delete sub [of nc_Port] unfolding nodes_ok_def by blast
  ultimately show ?thesis
    by (simp only: nodes_ok_def config.simps) simp
qed

lemma serve_ok:
  assumes "bm_cfg s = Some c" "nodes_ok c" "length (cf_Nodes c) < 65535"
  shows "\<exists>c'. bm_cfg (serve env r s) = Some c' \<and> nodes_ok c' \<and> length (cf_Nodes c') \<le> Suc (length (cf_Nodes c))"
proof (cases r)
  case (CreateRequest ce n)
  obtain res s' where res: "CreateNode env ce n s = (res, s')" by fastforce
  then show ?thesis
    using CreateNode_cases [where env = env and ce = ce and n = n and s = s] assms CreateRequest
    by (cases res) (auto simp: serve_def intro!: nodes_ok_append)
next
  case (UpdateRequest ce name n)
  obtain res s' where res: "UpdateNode env ce name n s = (res, s')" by fastforce
  then show ?thesis
    using UpdateNode_cases [where env = env and ce = ce and name = name and n = n and s = s] assms UpdateRequest
    by (cases res) (auto simp: serve_def intro!: nodes_ok_update)
next
  case (DeleteRequest ce name)
  obtain res s' where res: "DeleteNode env ce name s = (res, s')" by fastforce
  then show ?thesis
    using DeleteNode_cases [where env = env and ce = ce and name = name and s = s] assms DeleteRequest
    by (cases res) (auto simp: serve_def intro!: nodes_ok_delete)
qed

lemma serve_all_ok:
  "bm_cfg s = Some c \<Longrightarrow> nodes_ok c \<Longrightarrow> length (cf_Nodes c) + length rs \<le> 65535 \<Longrightarrow>
   \<exists>c'. bm_cfg (fold (serve env) rs s) = Some c' \<and> nodes_ok c'"
proof (induction rs arbitrary: s c)
  case (Cons r rs)
  then have "length (cf_Nodes c) < 65535" by simp
  from serve_ok [OF Cons.prems(1,2) this, of env r] obtain c' where
    c': "bm_cfg (serve env r s) = Some c'" "nodes_ok c'" "length (cf_Nodes c') \<le> Suc (length (cf_Nodes c))"
    by blast
  with Cons.prems(3) have "length (cf_Nodes c') + length rs \<le> 65535" by simp
  from Cons.IH [OF c'(1,2) this] show ?case by simp
qed simp

text \<open>
  C20. The nodes stay well-formed.  From a configuration whose names are not empty and pairwise
  different (in the multi-port mode with pairwise different non-zero ports), every sequence of
  create, update and delete requests, successful or refused, leaves a configuration of that kind,
  as long as it stays within 65535 nodes.
\<close>

theorem requests_keep_nodes_ok:
  assumes "bm_cfg s = Some c" "nodes_ok c" "length (cf_Nodes c) + length rs \<le> 65535"
  shows "\<exists>c'. bm_cfg (fold (serve env) rs s) = Some c' \<and> nodes_ok c'"
  using serve_all_ok [OF assms] .

definition demo_bm_env :: bm_env where
  "demo_bm_env =
     \<lparr>be_cfg = demo_yaml_env, be_json_add = \<lambda>_. None, be_lookup = \<lambda>_. Inl [],
      be_build = \<lambda>_. None, be_new = \<lambda>_ _. None, be_start = \<lambda>_ _. None, be_close = \<lambda>_. None,
      be_world = \<lambda>_ _ w. w\<rparr>"

definition demo_monitor_config :: monitor_config where
  "demo_monitor_config =
     \<lparr>mc_Enabled = False, mc_Listen = [], mc_ProbeTarget = [], mc_Password = [],
      mc_ProxyUsername = [], mc_ProxyPassword = [], mc_ExternalIP = [], mc_SkipCertVerify = False\<rparr>"

definition demo_bm :: "string \<Rightarrow> bm_state" where
  "demo_bm mode =
     New (Some ((demo_config mode [demo_node ''a'' 24000])
            \<lparr>cf_filePath := ''/c.yaml'', cf_NodesFile := ''nodes.txt''\<rparr>))
       demo_monitor_config demo_world demo_disk"

lemma demo_bm_cfg:
  "bm_cfg (demo_bm mode) =
     Some ((demo_config mode [demo_node ''a'' 24000])
       \<lparr>cf_filePath := ''/c.yaml'', cf_NodesFile := ''nodes.txt''\<rparr>)"
  by (simp add: demo_bm_def New_def applyConfigSettings_def Let_def)

theorem requests_keep_nodes_ok_witness:
  "\<exists>c'. bm_cfg (fold (serve demo_bm_env)
      [CreateRequest None (demo_node ''b'' 24000), CreateRequest None (demo_node ''b'' 0),
       UpdateRequest None ''a'' (demo_node ''b'' 0), DeleteRequest None ''a'']
      (demo_bm ''multi-port'')) = Some c' \<and> nodes_ok c'"
  by (rule requests_keep_nodes_ok [OF demo_bm_cfg])
    (simp_all add: demo_config_def demo_node_def nodes_ok_def uri_node_def)

section \<open>All or nothing\<close>

lemma nodeIndex_split:
  assumes "nodeIndex name ns = Some i"
  shows "\<exists>before old after. ns = before @ old # after \<and> nc_Name old = name \<and>
           name \<notin> nc_Name ` set before \<and> ns ! i = old \<and>
           ns[i := m] = before @ m # after \<and> take i ns @ drop (Suc i) ns = before @ after"
proof (intro exI conjI)
  note ix = nodeIndex_SomeD [OF assms]
  show "ns = take i ns @ ns ! i # drop (Suc i) ns"
    using ix by (simp add: id_take_nth_drop [symmetric])
  show "ns[i := m] = take i ns @ m # drop (Suc i) ns"
    using ix by (simp add: upd_conv_take_nth_drop)
qed (use nodeIndex_SomeD [OF assms] in simp_all)

text \<open>
  C33. Node edits are all or nothing.  A create, update or delete that is refused leaves the
  configuration as it was.  One that succeeds changes only the list of nodes, and saved the new
  configuration: a create appends the node it returns; an update puts the node it returns in the
  place of the first node of that name, with the same source; a delete takes out the first node of
  that name and keeps the order of the others.
\<close>

theorem node_edits_all_or_nothing:
  "(case CreateNode env ce n s of
      (Inl e, s') \<Rightarrow> bm_cfg s' = bm_cfg s
    | (Inr m, s') \<Rightarrow>
        \<exists>c. bm_cfg s = Some c \<and> bm_cfg s' = Some (c\<lparr>cf_Nodes := cf_Nodes c @ [m]\<rparr>) \<and>
            Save (be_cfg env) (bm_cfg s') (bm_disk s) = (None, bm_disk s')) \<and>
   (case UpdateNode env ce name n s of
      (Inl e, s') \<Rightarrow> bm_cfg s' = bm_cfg s
    | (Inr m, s') \<Rightarrow>
        \<exists>c before old after. bm_cfg s = Some c \<and> cf_Nodes c = before @ old # after \<and>
            nc_Name old = TrimSpace name \<and> TrimSpace name \<notin> nc_Name ` set before \<and>
            nc_Source m = nc_Source old \<and>
            bm_cfg s' = Some (c\<lparr>cf_Nodes := before @ m # after\<rparr>) \<and>
            Save (be_cfg env) (bm_cfg s') (bm_disk s) = (None, bm_disk s')) \<and>
   (case DeleteNode env ce name s of
      (Some e, s') \<Rightarrow> bm_cfg s' = bm_cfg s
    | (None, s') \<Rightarrow>
        \<exists>c before old after. bm_cfg s = Some c \<and> cf_Nodes c = before @ old # after \<and>
            nc_Name old = TrimSpace name \<and> TrimSpace name \<notin> nc_Name ` set before \<and>
            bm_cfg s' = Some (c\<lparr>cf_Nodes := before @ after\<rparr>) \<and>
            Save (be_cfg env) (bm_cfg s') (bm_disk s) = (None, bm_disk s'))"
    (is "?create \<and> ?update \<and> ?delete")
proof (intro conjI)
  show ?create
    using CreateNode_cases [where env = env and ce = ce and n = n and s = s]
    by (auto split: prod.splits sum.splits)
  show ?update
  proof (cases "UpdateNode env ce name n s")
    case (Pair r s')
    show ?thesis
    proof (cases r)
      case (Inl e)
      with Pair UpdateNode_cases [where env = env and ce = ce and name = name and n = n and s = s]
      show ?thesis by simp
    next
      case (Inr m)
      with Pair UpdateNode_cases [where env = env and ce = ce and name = name and n = n and s = s]
      obtain c i where c: "bm_cfg s = Some c" "nodeIndex (TrimSpace name) (cf_Nodes c) = Some i"
        "nc_Source m = nc_Source (cf_Nodes c ! i)"
        "bm_cfg s' = Some (c\<lparr>cf_Nodes := (cf_Nodes c)[i := m]\<rparr>)"
        "Save (be_cfg env) (bm_cfg s') (bm_disk s) = (None, bm_disk s')"
        by auto
      obtain before old after where "cf_Nodes c = before @ old # after" "nc_Name old = TrimSpace name"
        "TrimSpace name \<notin> nc_Name ` set before" "cf_Nodes c ! i = old"
        "(cf_Nodes c)[i := m] = before @ m # after"
        using nodeIndex_split [OF c(2), of m] by blast
      with c Pair Inr show ?thesis
        by simp (rule exI [of _ before], rule exI [of _ old], rule exI [of _ after], simp)
    qed
  qed
  show ?delete
  proof (cases "DeleteNode env ce name s")
    case (Pair r s')
    show ?thesis
    proof (cases r)
      case None
      with Pair DeleteNode_cases [where env = env and ce = ce and name = name and s = s]
      obtain c i where c: "bm_cfg s = Some c" "nodeIndex (TrimSpace name) (cf_Nodes c) = Some i"
        "bm_cfg s' = Some (c\<lparr>cf_Nodes := take i (cf_Nodes c) @ drop (Suc i) (cf_Nodes c)\<rparr>)"
        "Save (be_cfg env) (bm_cfg s') (bm_disk s) = (None, bm_disk s')"
        by auto
      obtain before old after where "cf_Nodes c = before @ old # after" "nc_Name old = TrimSpace name"
        "TrimSpace name \<notin> nc_Name ` set before"
        "take i (cf_Nodes c) @ drop (Suc i) (cf_Nodes c) = before @ after"
        using nodeIndex_split [OF c(2)] by blast
      with c Pair None show ?thesis
        by simp (rule exI [of _ before], rule exI [of _ old], rule exI [of _ after], simp)
    next
      case (Some e)
      with Pair DeleteNode_cases [where env = env and ce = ce and name = name and s = s]
      show ?thesis by simp
    qed
  qed
qed

end
