(* ===== verification/Box_Reload.thy ===== *)
theory Box_Reload
  imports Box_Nodes
begin

text \<open>
  The life of the sing-box instance: the port found in a bind error, the retries of a start, what a
  reload commits or rolls back, and the instances that run at any moment.
\<close>

section \<open>The port of a bind error\<close>

text \<open>A text without borders that a text does not contain cannot begin inside it.\<close>

lemma borderless_only_there:
  assumes border: "\<forall>j. 0 < j \<and> j < length l \<longrightarrow> drop j l \<noteq> take (length l - j) l"
    and p: "p \<noteq> []" "\<not> HasPrefix p l"
  shows "\<not> HasPrefix (p @ l @ post) l"
proof
  assume pre: "HasPrefix (p @ l @ post) l"
  have len: "length p < length l"
    using pre p(2) by (cases "length p < length l") (auto simp: HasPrefix_def)
  from pre have "drop (length p) l = drop (length p) (take (length l) (p @ l @ post))"
    by (simp add: HasPrefix_def)
  also have "\<dots> = take (length l - length p) l"
    using len by (simp add: drop_take)
  finally show False
    using border len p(1) by auto
qed

lemma listen_tcp_border:
  "\<forall>j. 0 < j \<and> j < length bind_prefix \<longrightarrow>
     drop j bind_prefix \<noteq> take (length bind_prefix - j) bind_prefix"
proof -
  have "list_all (\<lambda>j. drop j bind_prefix \<noteq> take (10 - j) bind_prefix) [1, 2, 3, 4, 5, 6, 7, 8, 9]"
    by code_simp
  moreover have "length bind_prefix = 10" by (simp add: bind_prefix_def)
  then have all: "drop j bind_prefix \<noteq> take (10 - j) bind_prefix" if "0 < j \<and> j < 10" for j
  proof -
    from that have "j \<in> set [1, 2, 3, 4, 5, 6, 7, 8, 9]" by auto
    with \<open>list_all _ _\<close> show ?thesis unfolding list_all_iff by blast
  qed
  have "length bind_prefix = 10" by (simp add: bind_prefix_def)
  with all show ?thesis by simp
qed

lemma find_bind_skip:
  "\<not> Contains p bind_prefix \<Longrightarrow> find_bind (p @ bind_prefix @ post) = find_bind (bind_prefix @ post)"
proof (induction p)
  case (Cons c cs)
  then have no: "\<not> HasPrefix (c # cs) bind_prefix" "\<not> Contains cs bind_prefix"
    by (auto simp: Contains_def split: if_splits)
  have "\<not> HasPrefix ((c # cs) @ bind_prefix @ post) bind_prefix"
    by (rule borderless_only_there [OF listen_tcp_border _ no(1)]) simp
  then have "match_bind (c # cs @ bind_prefix @ post) = None"
    by (simp add: match_bind_def)
  with Cons.IH [OF no(2)] show ?case by simp
qed simp

lemma takeWhile_stop: "\<forall>x \<in> set xs. P x \<Longrightarrow> \<not> P y \<Longrightarrow> takeWhile P (xs @ y # ys) = xs"
  by (induction xs) auto

lemma bind_suffix_Cons: "\<exists>r. bind_suffix = CHR '':'' # r"
  by (simp add: bind_suffix_def)

lemma match_bind_hit:
  assumes fam: "fam \<in> {[], ''4'', ''6''}" and host: "host \<noteq> []" "CHR '':'' \<notin> set host"
    and ds: "list_all is_digit ds" "ds \<noteq> []"
  shows "match_bind (bind_prefix @ fam @ '' '' @ host @ '':'' @ ds @ bind_suffix @ post) = Some ds"
proof -
  obtain r where r: "bind_suffix = CHR '':'' # r" using bind_suffix_Cons by blast
  have 1: "takeWhile (\<lambda>c. c \<noteq> CHR '':'') (host @ CHR '':'' # x) = host" for x
    by (rule takeWhile_stop) (use host(2) in auto)
  have 2: "takeWhile is_digit (ds @ bind_suffix @ x) = ds" for x
    unfolding r append_Cons
    by (rule takeWhile_stop) (use ds(1) in \<open>auto simp: list_all_iff is_digit_def less_eq_char_def\<close>)
  define tail where "tail = CHR '':'' # ds @ bind_suffix @ post"
  have tail: "takeWhile is_digit (tl tail) = ds" "drop (length ds) (tl tail) = bind_suffix @ post"
    "takeWhile (\<lambda>c. c \<noteq> CHR '':'') (host @ tail) = host" "tail \<noteq> []"
    by (simp_all add: tail_def 1 2)
  have fam_r2: "(if HasPrefix (fam @ CHR '' '' # x) ''4'' \<or> HasPrefix (fam @ CHR '' '' # x) ''6''
      then tl (fam @ CHR '' '' # x) else fam @ CHR '' '' # x) = CHR '' '' # x" for x
    using fam by auto
  have "match_bind (bind_prefix @ fam @ CHR '' '' # host @ tail) = Some ds"
    unfolding match_bind_def Let_def append_eq_conv_conj drop_append diff_self_eq_0 drop0 drop_all [OF order.refl] append_Nil fam_r2
    using host(1) ds(2) by (simp add: tail)
  then show ?thesis by (simp add: tail_def)
qed

lemma bind_error_port_found:
  assumes "fam \<in> {[], ''4'', ''6''}" "host \<noteq> []" "CHR '':'' \<notin> set host"
    and "\<not> Contains before bind_prefix"
  shows "extractPortFromBindError
     (before @ bind_prefix @ fam @ '' '' @ host @ '':'' @ Itoa (uint p) @ bind_suffix @ after) = p"
proof -
  have p: "0 \<le> uint p" "uint p < 65536" using uint_lt2p [of p] by simp_all
  note ds = Itoa_digits [OF p(1)]
  define m where "m = fam @ '' '' @ host @ '':'' @ Itoa (uint p) @ bind_suffix @ after"
  obtain c cs where c: "bind_prefix @ m = c # cs" by (auto simp: bind_prefix_def)
  have "match_bind (bind_prefix @ m) = Some (Itoa (uint p))"
    unfolding m_def using ds by (intro match_bind_hit [OF assms(1-3)]) simp_all
  then have "find_bind (bind_prefix @ m) = Some (Itoa (uint p))"
    unfolding c by simp
  then have "find_bind (before @ bind_prefix @ m) = Some (Itoa (uint p))"
    by (simp only: find_bind_skip [OF assms(4)])
  moreover have "Atoi (Itoa (uint p)) = Some (uint p)"
    using p by (intro Atoi_Itoa) simp_all
  ultimately have "extractPortFromBindError (before @ bind_prefix @ m) =
      (if 0 < uint p \<and> uint p \<le> 65535 then p else 0)"
    by (simp add: extractPortFromBindError_def)
  also have "\<dots> = p"
  proof -
    have "uint p = 0 \<or> 0 < uint p" using p(1) by linarith
    with p show ?thesis by (auto simp: uint_0_iff)
  qed
  finally show ?thesis by (simp only: m_def)
qed

text \<open>
  The port of a bind error.  An error text that holds the operating system's message for an
  address in use yields the port that this message names, whatever stands before it, as long as
  that does not hold the words the message begins with, and whatever follows; for each of the
  networks \<open>tcp\<close>, \<open>tcp4\<close> and \<open>tcp6\<close>.
\<close>

theorem bind_error_port:
  assumes "fam \<in> {[], ''4'', ''6''}" "host \<noteq> []" "CHR '':'' \<notin> set host"
    and "\<not> Contains before bind_prefix"
  shows "extractPortFromBindError
     (before @ bind_prefix @ fam @ '' '' @ host @ '':'' @ Itoa (uint p) @ bind_suffix @ after) = p"
  by (rule bind_error_port_found [OF assms])

theorem bind_error_port_witness:
  "extractPortFromBindError
     ''start inbound/http[n]: listen tcp4 0.0.0.0:24282: bind: address already in use'' = 24282"
proof -
  have "Itoa (uint (24282 :: port)) = ''24282''"
    by (simp add: Itoa_def Itoa_nat.simps digit_char_def) code_simp
  then have msg: "''start inbound/http[n]: listen tcp4 0.0.0.0:24282: bind: address already in use'' =
      ''start inbound/http[n]: '' @ bind_prefix @ ''4'' @ '' '' @ ''0.0.0.0'' @ '':'' @
      Itoa (uint (24282 :: port)) @ bind_suffix @ []"
    by (simp add: bind_prefix_def bind_suffix_def)
  have "\<not> Contains ''start inbound/http[n]: '' bind_prefix" by code_simp
  then show ?thesis
    unfolding msg by (intro bind_error_port) simp_all
qed

section \<open>Starting with retries\<close>

text \<open>What creating an instance leaves alone.\<close>

lemma createBox_frame:
  assumes "createBox env co s = (r, s1)"
  shows "bm_running s1 = bm_running s \<and> bm_currentBox s1 = bm_currentBox s \<and> bm_cfg s1 = bm_cfg s \<and>
    bm_monitorMgr s1 = bm_monitorMgr s \<and> bm_disk s1 = bm_disk s \<and>
    (case r of Inl e \<Rightarrow> bm_nextBox s \<le> bm_nextBox s1
     | Inr b \<Rightarrow> b = bm_nextBox s \<and> bm_nextBox s1 = Suc b \<and> co \<noteq> None)"
  using assms
  by (auto simp: createBox_def Let_def split: option.splits if_splits build_error.splits)

text \<open>Reassigning ports changes nothing but ports.\<close>

definition ports_changed :: "config \<Rightarrow> config \<Rightarrow> bool" where
  "ports_changed c c' \<longleftrightarrow>
     c' = c\<lparr>cf_Nodes := cf_Nodes c'\<rparr> \<and>
     list_all2 (\<lambda>n n'. n' = n\<lparr>nc_Port := nc_Port n'\<rparr>) (cf_Nodes c) (cf_Nodes c')"

lemma ports_changed_refl [simp]: "ports_changed c c"
  by (simp add: ports_changed_def list_all2_same)

lemma ports_changed_trans:
  assumes "ports_changed a b" "ports_changed b c"
  shows "ports_changed a c"
proof -
  have "c = a\<lparr>cf_Nodes := cf_Nodes c\<rparr>"
  proof -
    obtain x y where "b = a\<lparr>cf_Nodes := x\<rparr>" "c = b\<lparr>cf_Nodes := y\<rparr>"
      using assms unfolding ports_changed_def by blast
    then show ?thesis by simp
  qed
  moreover have "list_all2 (\<lambda>n n'. n' = n\<lparr>nc_Port := nc_Port n'\<rparr>) (cf_Nodes a) (cf_Nodes c)"
  proof (rule list_all2_trans)
    show "list_all2 (\<lambda>n n'. n' = n\<lparr>nc_Port := nc_Port n'\<rparr>) (cf_Nodes a) (cf_Nodes b)"
      "list_all2 (\<lambda>n n'. n' = n\<lparr>nc_Port := nc_Port n'\<rparr>) (cf_Nodes b) (cf_Nodes c)"
      using assms by (simp_all add: ports_changed_def)
  qed (metis node_config.surjective node_config.update_convs(3))
  ultimately show ?thesis by (simp add: ports_changed_def)
qed

lemma move_first_changes:
  "list_all2 (\<lambda>n n'. n' = n\<lparr>nc_Port := nc_Port n'\<rparr>) ns (move_first p q ns)"
  by (induction ns) (auto simp: list_all2_same)

lemma reassignConflictingPort_changes:
  "reassignConflictingPort free p c = Some (moved, c') \<Longrightarrow> ports_changed c c'"
  by (auto simp: reassignConflictingPort_def Let_def ports_changed_def list_all2_same
      move_first_changes split: if_splits option.splits sum.splits)

text \<open>
  The retries: they end with a fresh running instance, with an error and nothing started, or with
  the rounds used up.
\<close>

lemma boot_loop_frame:
  assumes "boot_loop env k lastBox (Some c) s = Some (r, co, s1)"
  shows "bm_currentBox s1 = bm_currentBox s \<and> bm_cfg s1 = bm_cfg s \<and> bm_monitorMgr s1 = bm_monitorMgr s \<and>
    bm_disk s1 = bm_disk s \<and> bm_nextBox s \<le> bm_nextBox s1 \<and> (\<exists>c'. co = Some c' \<and> ports_changed c c') \<and>
    (bm_running s1 = bm_running s \<or>
     (\<exists>b. r = Booted (Some b) \<and> bm_running s1 = insert b (bm_running s)))  \<and>
    (\<forall>b. r = Booted (Some b) \<longrightarrow> lastBox = Some b \<or> bm_nextBox s \<le> b \<and> b < bm_nextBox s1)"
  using assms
proof (induction k arbitrary: lastBox c s)
  case (Suc k)
  obtain r0 s0 where new: "createBox env (Some c) s = (r0, s0)" by fastforce
  note frame = createBox_frame [OF new]
  show ?case
  proof (cases r0)
    case (Inl e)
    with Suc.prems new frame show ?thesis by auto
  next
    case (Inr b)
    show ?thesis
    proof (cases "be_start env b c")
      case None
      with Suc.prems new Inr frame show ?thesis by auto
    next
      case (Some err)
      let ?p = "extractPortFromBindError err"
      show ?thesis
      proof (cases "0 < ?p")
        case False
        with Suc.prems new Inr Some frame show ?thesis by auto
      next
        case True
        then obtain moved c1 where re: "reassignConflictingPort (ce_free (be_cfg env)) ?p c = Some (moved, c1)"
          using Suc.prems new Inr Some by (auto split: option.splits)
        note ch = reassignConflictingPort_changes [OF re]
        show ?thesis
        proof (cases moved)
          case False
          with Suc.prems new Inr Some True re frame ch show ?thesis by auto
        next
          case moved: True
          let ?s = "s0\<lparr>bm_world := ResetSharedStateStore (bm_world s0)\<rparr>"
          have "boot_loop env k (Some b) (Some c1) ?s = Some (r, co, s1)"
            using Suc.prems new Inr Some True re moved by simp
          from Suc.IH [OF this] frame Inr ch show ?thesis
            by (auto intro: ports_changed_trans)
        qed
      qed
    qed
  qed
qed auto

section \<open>The instances that run\<close>

text \<open>
  One operation of the manager at a time: what the process and the web interface can ask for.  An
  operation whose port search does not return leads nowhere.
\<close>

inductive box_step :: "bm_env \<Rightarrow> bm_state \<Rightarrow> bm_state \<Rightarrow> bool" for env where
  step_start: "bm_Start env s = Some (r, s') \<Longrightarrow> box_step env s s'"
| step_reload: "Reload env c s = Some (r, s') \<Longrightarrow> box_step env s s'"
| step_reload_ports: "ReloadWithPortMap env c pm s = Some (r, s') \<Longrightarrow> box_step env s s'"
| step_trigger: "TriggerReload env ce s = Some (r, s') \<Longrightarrow> box_step env s s'"
| step_node: "box_step env s (serve env q s)"
| step_close: "bm_Close env s = (r, s') \<Longrightarrow> box_step env s s'"

definition box_reachable :: "bm_env \<Rightarrow> bm_state \<Rightarrow> bool" where
  "box_reachable env s \<longleftrightarrow> (\<exists>co mc w d. (box_step env)\<^sup>*\<^sup>* (New co mc w d) s)"

definition one_box :: "bm_state \<Rightarrow> bool" where
  "one_box s \<longleftrightarrow>
     bm_running s \<subseteq> set_option (bm_currentBox s) \<and>
     (\<forall>b \<in> set_option (bm_currentBox s). b < bm_nextBox s)"

lemma one_box_cong:
  "bm_running s' = bm_running s \<Longrightarrow> bm_currentBox s' = bm_currentBox s \<Longrightarrow>
   bm_nextBox s' = bm_nextBox s \<Longrightarrow> one_box s' \<longleftrightarrow> one_box s"
  by (simp add: one_box_def)

lemma applyConfigSettings_frame [simp]:
  "bm_running (applyConfigSettings co s) = bm_running s"
  "bm_currentBox (applyConfigSettings co s) = bm_currentBox s"
  "bm_nextBox (applyConfigSettings co s) = bm_nextBox s"
  "bm_cfg (applyConfigSettings co s) = bm_cfg s"
  by (simp_all add: applyConfigSettings_def Let_def split: option.split)

lemma ensureMonitor_frame [simp]:
  "bm_running (ensureMonitor s) = bm_running s" "bm_currentBox (ensureMonitor s) = bm_currentBox s"
  "bm_nextBox (ensureMonitor s) = bm_nextBox s" "bm_cfg (ensureMonitor s) = bm_cfg s"
  by (simp_all add: ensureMonitor_def)

lemma start_health_frame [simp]:
  "bm_running (start_health s) = bm_running s" "bm_currentBox (start_health s) = bm_currentBox s"
  "bm_nextBox (start_health s) = bm_nextBox s" "bm_cfg (start_health s) = bm_cfg s"
  by (simp_all add: start_health_def)

lemma reload_begin_frame:
  "bm_currentBox (reload_begin s) = None \<and> bm_nextBox (reload_begin s) = bm_nextBox s \<and>
   bm_cfg (reload_begin s) = bm_cfg s \<and>
   bm_running (reload_begin s) = bm_running s - set_option (bm_currentBox s)"
  by (auto simp: reload_begin_def close_box_def Let_def split: option.split)

lemma reload_commit_frame [simp]:
  "bm_running (reload_commit bo c s) = bm_running s" "bm_currentBox (reload_commit bo c s) = bo"
  "bm_nextBox (reload_commit bo c s) = bm_nextBox s"
  by (simp_all add: reload_commit_def)

lemma rollback_one_box:
  assumes "bm_running s = {}" "bm_currentBox s = None"
  shows "one_box (rollbackToOldConfig env co s) \<and> bm_cfg (rollbackToOldConfig env co s) = bm_cfg s"
proof (cases "createBox env co s")
  case (Pair r s1)
  from createBox_frame [OF Pair] assms Pair show ?thesis
    by (auto simp: rollbackToOldConfig_def one_box_def split: sum.splits option.splits)
qed

lemma boot_one_box:
  assumes "boot_loop env k None (Some c) s = Some (Booted bo, co, s1)" "bm_running s = {}"
  shows "bm_running s1 \<subseteq> set_option bo \<and> (\<forall>b \<in> set_option bo. b < bm_nextBox s1)"
  using boot_loop_frame [OF assms(1)] assms(2) by auto

lemma not_booted_running:
  assumes "boot_loop env k None (Some c) s = Some (r, co, s1)" "\<forall>bo. r \<noteq> Booted bo"
  shows "bm_running s1 = bm_running s"
  using boot_loop_frame [OF assms(1)] assms(2) by auto

lemma Reload_cases:
  assumes "Reload env (Some c0) s = Some (err, s')"
  obtains (booted) bo c s1 where "boot_loop env maxRetries None (Some c0) (reload_begin s) = Some (Booted bo, Some c, s1)"
      "err = None" "s' = reload_commit bo c s1" "ports_changed c0 c"
  | (rolled_back) r co s1 where "boot_loop env maxRetries None (Some c0) (reload_begin s) = Some (r, co, s1)"
      "\<forall>bo. r \<noteq> Booted bo" "err \<noteq> None" "s' = rollbackToOldConfig env (bm_cfg s) s1"
proof -
  obtain r co s1 where boot: "boot_loop env maxRetries None (Some c0) (reload_begin s) = Some (r, co, s1)"
    using assms by (auto simp: Reload_def split: option.splits)
  obtain c where "co = Some c" "ports_changed c0 c"
    using boot_loop_frame [OF boot] by blast
  with boot assms that show thesis
    by (cases r) (auto simp: Reload_def)
qed

lemma Reload_one_box:
  assumes "Reload env co s = Some (err, s')" "one_box s"
  shows "one_box s'"
proof (cases co)
  case None
  with assms show ?thesis by (simp add: Reload_def)
next
  case (Some c0)
  note closed = reload_begin_frame [of s]
  have none: "bm_running (reload_begin s) = {}"
    using closed assms(2) by (auto simp: one_box_def)
  from assms(1) [unfolded Some] show ?thesis
  proof (cases rule: Reload_cases)
    case (booted bo c s1)
    from boot_one_box [OF booted(1) none] booted(3) show ?thesis by (simp add: one_box_def)
  next
    case (rolled_back r co' s1)
    with boot_loop_frame [OF rolled_back(1)] none closed not_booted_running
    have "bm_running s1 = {}" "bm_currentBox s1 = None" by auto
    from rollback_one_box [OF this] rolled_back(4) show ?thesis by simp
  qed
qed

lemma ReloadWithPortMap_one_box:
  "ReloadWithPortMap env co pm s = Some (err, s') \<Longrightarrow> one_box s \<Longrightarrow> one_box s'"
  by (auto simp: ReloadWithPortMap_def intro: Reload_one_box
      split: option.splits sum.splits if_splits)

lemma Start_one_box:
  assumes "bm_Start env s = Some (err, s')" "one_box s"
  shows "one_box s'"
proof (cases "bm_cfg s = None \<or> bm_currentBox s \<noteq> None")
  case True
  with assms show ?thesis
    by (auto simp: bm_Start_def Let_def one_box_def split: option.splits)
next
  case False
  then obtain c where c: "bm_cfg s = Some c" "bm_currentBox s = None" by auto
  let ?s = "(applyConfigSettings (Some c) (ensureMonitor s))\<lparr>bm_baseCtx := True\<rparr>"
  obtain r co s1 where boot: "boot_loop env maxRetries None (Some c) ?s = Some (r, co, s1)"
    using assms(1) c by (auto simp: bm_Start_def Let_def split: option.splits)
  have none: "bm_running ?s = {}" "bm_currentBox ?s = None"
    using assms(2) c by (simp_all add: one_box_def)
  show ?thesis
  proof (cases r)
    case (Booted bo)
    with assms(1) c boot boot_one_box [OF boot [unfolded Booted] none(1)] show ?thesis
      by (auto simp: bm_Start_def Let_def one_box_def)
  next
    case (NotCreated e)
    with assms(1) c boot boot_loop_frame [OF boot] none show ?thesis
      by (cases e) (auto simp: bm_Start_def Let_def one_box_def)
  next
    case (NotStarted e)
    with assms(1) c boot boot_loop_frame [OF boot] none show ?thesis
      by (auto simp: bm_Start_def Let_def one_box_def)
  qed
qed

lemma save_nodes_frame:
  "bm_running (snd (save_nodes env c s)) = bm_running s \<and>
   bm_currentBox (snd (save_nodes env c s)) = bm_currentBox s \<and>
   bm_nextBox (snd (save_nodes env c s)) = bm_nextBox s"
  by (simp add: save_nodes_def split: prod.split option.split)

lemma save_nodes_one_box: "save_nodes env c s = (r, s') \<Longrightarrow> one_box s' \<longleftrightarrow> one_box s"
  using save_nodes_frame [of env c s] by (simp add: one_box_def)

lemma serve_one_box: "one_box (serve env q s) \<longleftrightarrow> one_box s"
  by (auto simp: serve_def CreateNode_def UpdateNode_def DeleteNode_def Let_def
      split: node_request.split option.splits sum.splits prod.splits dest: save_nodes_one_box)

lemma box_step_one_box: "box_step env s s' \<Longrightarrow> one_box s \<Longrightarrow> one_box s'"
proof (induction rule: box_step.induct)
  case (step_start s r s')
  then show ?case by (rule Start_one_box)
next
  case (step_reload c s r s')
  then show ?case by (rule Reload_one_box)
next
  case (step_reload_ports c pm s r s')
  then show ?case by (rule ReloadWithPortMap_one_box)
next
  case (step_node q s)
  then show ?case by (simp add: serve_one_box)
next
  case (step_trigger ce s r s')
  then show ?case
    by (auto simp: TriggerReload_def intro: ReloadWithPortMap_one_box split: option.splits)
next
  case (step_close s r s')
  then show ?case
    by (auto simp: bm_Close_def close_box_def one_box_def split: option.splits)
qed

lemma box_reachable_one_box:
  assumes "box_reachable env s"
  shows "one_box s"
proof -
  obtain co mc w d where "(box_step env)\<^sup>*\<^sup>* (New co mc w d) s"
    using assms by (auto simp: box_reachable_def)
  then show ?thesis
  proof (induction rule: rtranclp_induct)
    case base
    show ?case by (simp add: New_def one_box_def Let_def)
  next
    case (step s s')
    then show ?case by (blast intro: box_step_one_box)
  qed
qed

section \<open>Outcomes\<close>

text \<open>
  C4. One instance at a time.  Whatever operations the manager has performed, one after the other,
  the only instance that can be running is the current one: an instance that was replaced, rolled
  back or failed to start has been closed.
\<close>

theorem one_running_instance:
  assumes "box_reachable env s"
  shows "bm_running s \<subseteq> set_option (bm_currentBox s)"
  using box_reachable_one_box [OF assms] by (simp add: one_box_def)

lemma demo_bm_frame:
  "bm_running (demo_bm m) = {}" "bm_currentBox (demo_bm m) = None" "bm_nextBox (demo_bm m) = 0"
  by (simp_all add: demo_bm_def New_def Let_def)

text \<open>An instance that starts at once.\<close>

lemma boot_at_once:
  assumes "be_build env = (\<lambda>_. None)" "be_new env = (\<lambda>_ _. None)" "be_start env = (\<lambda>_ _. None)"
    and "bm_monitorMgr s" "0 < k"
  shows "boot_loop env k lastBox (Some c) s =
    Some (Booted (Some (bm_nextBox s)), Some c,
      s\<lparr>bm_nextBox := Suc (bm_nextBox s), bm_running := insert (bm_nextBox s) (bm_running s),
        bm_world := be_world env (bm_nextBox s) (cfg_for_build env c) (bm_world s)\<rparr>)"
  using assms by (cases k) (simp_all add: createBox_def Let_def)

lemma boot_demo:
  assumes "bm_monitorMgr s" "0 < k"
  shows "boot_loop demo_bm_env k lastBox (Some c) s =
    Some (Booted (Some (bm_nextBox s)), Some c,
      s\<lparr>bm_nextBox := Suc (bm_nextBox s), bm_running := insert (bm_nextBox s) (bm_running s)\<rparr>)"
proof -
  have env: "be_build demo_bm_env = (\<lambda>_. None)" "be_new demo_bm_env = (\<lambda>_ _. None)"
    "be_start demo_bm_env = (\<lambda>_ _. None)" "be_world demo_bm_env = (\<lambda>_ _ w. w)"
    by (simp_all add: demo_bm_env_def)
  show ?thesis
    using boot_at_once [OF env(1-3) assms, of lastBox c] by (simp add: env(4))
qed

lemma demo_start:
  "\<exists>s. bm_Start demo_bm_env (demo_bm m) = Some (None, s) \<and> bm_running s = {0} \<and>
     bm_currentBox s = Some 0 \<and> bm_nextBox s = 1 \<and> bm_monitorMgr s \<and> bm_cfg s = bm_cfg (demo_bm m)"
proof -
  have "bm_monitorMgr (ensureMonitor (demo_bm m))" by (simp add: ensureMonitor_def)
  then have "bm_monitorMgr ((applyConfigSettings co (ensureMonitor (demo_bm m)))\<lparr>bm_baseCtx := True\<rparr>)" for co
    by (simp add: applyConfigSettings_def Let_def split: option.split)
  from boot_demo [OF this, of maxRetries] show ?thesis
    by (simp add: bm_Start_def Let_def demo_bm_frame demo_bm_cfg maxRetries_def)
      (simp add: start_health_def ensureMonitor_def applyConfigSettings_def Let_def demo_bm_frame)
qed

theorem one_running_instance_witness:
  "\<exists>s. bm_Start demo_bm_env (demo_bm ''pool'') = Some (None, s) \<and> 0 \<in> bm_running s \<and>
     bm_running s \<subseteq> set_option (bm_currentBox s)"
proof -
  obtain s where s: "bm_Start demo_bm_env (demo_bm ''pool'') = Some (None, s)" "bm_running s = {0}"
    using demo_start by blast
  have "box_reachable demo_bm_env s"
    unfolding box_reachable_def demo_bm_def [symmetric]
    using step_start [OF s(1)] demo_bm_def by (metis r_into_rtranclp)
  with s one_running_instance [of demo_bm_env s] show ?thesis by auto
qed

lemma reload_commit_cfg:
  "bm_cfg (reload_commit bo c s) =
     Some (case bm_cfg s of None \<Rightarrow> c
           | Some old \<Rightarrow> if cf_filePath c = [] then c\<lparr>cf_filePath := cf_filePath old\<rparr> else c)"
  by (auto simp: reload_commit_def start_health_def split: option.split)

lemma rollback_boxes:
  assumes "bm_running s = {}" "bm_currentBox s = None"
  shows "bm_running (rollbackToOldConfig env co s) = set_option (bm_currentBox (rollbackToOldConfig env co s)) \<and>
    (\<forall>b \<in> bm_running (rollbackToOldConfig env co s). bm_nextBox s \<le> b) \<and>
    bm_cfg (rollbackToOldConfig env co s) = bm_cfg s"
proof (cases "createBox env co s")
  case (Pair r s1)
  from createBox_frame [OF Pair] assms Pair show ?thesis
    by (auto simp: rollbackToOldConfig_def split: sum.splits option.splits)
qed

text \<open>
  When the rollback brings the old configuration back with instance \<open>b\<close>: there is one and a monitor,
  and building, creating and starting succeed for it.
\<close>

definition rollback_works :: "bm_env \<Rightarrow> nat \<Rightarrow> bm_state \<Rightarrow> bool" where
  "rollback_works env b s \<longleftrightarrow> bm_monitorMgr s \<and>
     (\<exists>old. bm_cfg s = Some old \<and> be_build env (cfg_for_build env old) = None \<and>
        be_new env b (cfg_for_build env old) = None \<and> be_start env b old = None)"

lemma rollback_result:
  assumes "bm_running s = {}" and "bm_currentBox s = None"
  shows "if rollback_works env (bm_nextBox s) s
    then bm_currentBox (rollbackToOldConfig env (bm_cfg s) s) = Some (bm_nextBox s) \<and>
      bm_running (rollbackToOldConfig env (bm_cfg s) s) = {bm_nextBox s}
    else bm_currentBox (rollbackToOldConfig env (bm_cfg s) s) = None \<and>
      bm_running (rollbackToOldConfig env (bm_cfg s) s) = {}"
proof (cases "bm_cfg s")
  case (Some old)
  with assms show ?thesis
    by (cases "bm_monitorMgr s"; cases "be_build env (cfg_for_build env old)";
        cases "be_new env (bm_nextBox s) (cfg_for_build env old)"; cases "be_start env (bm_nextBox s) old")
      (auto simp: rollbackToOldConfig_def createBox_def rollback_works_def Let_def split: build_error.split)
qed (use assms in \<open>simp add: rollbackToOldConfig_def rollback_works_def\<close>)

text \<open>
  C7. What a reload leaves.  When it reports success the configuration in force is the new one, with
  nothing but ports changed by the repair of port conflicts, and with the old file path if the new
  one had none.  When it reports an error the configuration in force is the old one, and the reload
  has tried to bring it back: with a fresh instance \<open>b\<close>, which is the current one and runs alone if
  building, creating and starting it succeed; otherwise nothing runs and there is no current
  instance.  In no case does the instance of before still run.
\<close>

theorem reload_outcome:
  assumes "box_reachable env s" and "Reload env (Some c0) s = Some (err, s')"
  shows "(case err of
      None \<Rightarrow> \<exists>c. ports_changed c0 c \<and>
        bm_cfg s' = Some (case bm_cfg s of None \<Rightarrow> c
          | Some old \<Rightarrow> if cf_filePath c = [] then c\<lparr>cf_filePath := cf_filePath old\<rparr> else c)
    | Some e \<Rightarrow> bm_cfg s' = bm_cfg s \<and>
        (\<exists>b \<ge> bm_nextBox s.
           if rollback_works env b s then bm_currentBox s' = Some b \<and> bm_running s' = {b}
           else bm_currentBox s' = None \<and> bm_running s' = {})) \<and>
    bm_running s' \<inter> set_option (bm_currentBox s) = {}"
proof -
  note one = box_reachable_one_box [OF assms(1)]
  note closed = reload_begin_frame [of s]
  have none: "bm_running (reload_begin s) = {}" "bm_currentBox (reload_begin s) = None"
    using closed one by (auto simp: one_box_def)
  from assms(2) show ?thesis
  proof (cases rule: Reload_cases)
    case (booted bo c s1)
    have "bm_running s1 \<inter> set_option (bm_currentBox s) = {}" "bm_cfg s1 = bm_cfg s"
      using boot_loop_frame [OF booted(1)] closed none one by (auto simp: one_box_def)
    with booted show ?thesis by (auto simp: reload_commit_cfg)
  next
    case (rolled_back r co s1)
    have "bm_monitorMgr (reload_begin s) = bm_monitorMgr s"
      by (simp add: reload_begin_def close_box_def Let_def split: option.split)
    then have s1: "bm_running s1 = {}" "bm_currentBox s1 = None" "bm_cfg s1 = bm_cfg s"
      "bm_nextBox s \<le> bm_nextBox s1" "bm_monitorMgr s1 = bm_monitorMgr s"
      using boot_loop_frame [OF rolled_back(1)] not_booted_running [OF rolled_back(1,2)] closed none by auto
    then have "rollback_works env b s1 = rollback_works env b s" for b
      by (simp add: rollback_works_def)
    then have again: "if rollback_works env (bm_nextBox s1) s
      then bm_currentBox s' = Some (bm_nextBox s1) \<and> bm_running s' = {bm_nextBox s1}
      else bm_currentBox s' = None \<and> bm_running s' = {}"
      using rollback_result [OF s1(1,2), of env, unfolded s1(3)] unfolding rolled_back(4) by metis
    moreover have "bm_cfg s' = bm_cfg s"
      using rollback_boxes [OF s1(1,2), of env "bm_cfg s"] rolled_back(4) s1(3) by simp
    moreover have "bm_running s' \<inter> set_option (bm_currentBox s) = {}"
      using again one s1(4) by (auto simp: one_box_def split: if_splits)
    moreover obtain e where "err = Some e" using rolled_back(3) by blast
    ultimately show ?thesis
      using s1(4) by (auto intro!: exI [of _ "bm_nextBox s1"])
  qed
qed

theorem reload_outcome_witness:
  "\<exists>s s' c. bm_Start demo_bm_env (demo_bm ''pool'') = Some (None, s) \<and>
     Reload demo_bm_env (Some zero_config) s = Some (None, s') \<and> ports_changed zero_config c \<and>
     bm_cfg s' = Some (c\<lparr>cf_filePath := ''/c.yaml''\<rparr>) \<and> 0 \<notin> bm_running s'"
proof -
  obtain s where s: "bm_Start demo_bm_env (demo_bm ''pool'') = Some (None, s)" "bm_running s = {0}"
    "bm_currentBox s = Some 0" "bm_monitorMgr s" "bm_cfg s = bm_cfg (demo_bm ''pool'')"
    using demo_start by blast
  have reach: "box_reachable demo_bm_env s"
    unfolding box_reachable_def demo_bm_def [symmetric]
    using step_start [OF s(1)] demo_bm_def by (metis r_into_rtranclp)
  have "bm_monitorMgr (reload_begin s)"
    using s(4) by (simp add: reload_begin_def close_box_def Let_def split: option.split)
  from boot_demo [OF this, of maxRetries] obtain s' where
    s': "Reload demo_bm_env (Some zero_config) s = Some (None, s')"
    by (simp add: Reload_def maxRetries_def)
  from reload_outcome [OF reach s'] obtain c where c: "ports_changed zero_config c"
    "bm_cfg s' = Some (if cf_filePath c = [] then c\<lparr>cf_filePath := ''/c.yaml''\<rparr> else c)" "0 \<notin> bm_running s'"
    using s(3,5) by (auto simp: demo_bm_cfg)
  obtain x where "c = zero_config\<lparr>cf_Nodes := x\<rparr>"
    using c(1) unfolding ports_changed_def by blast
  then have "cf_filePath c = []"
    by (simp add: zero_config_def)
  with c s(1) s' show ?thesis by auto
qed

section \<open>Waiting for healthy nodes\<close>

definition enough :: "int \<Rightarrow> snapshot list \<Rightarrow> bool" where
  "enough k snaps \<longleftrightarrow> k \<le> int (length (filter (\<lambda>x. sn_InitialCheckDone x \<and> sn_Available x) snaps))"

lemma poll_loop_Cons:
  "poll_loop k d (r # rs) =
     (if enough k (fst r) then Some None
      else if d < snd r then
        Some (Some (''timeout: '' @ Itoa (fst (availableNodeCount True (fst r))) @ ''/'' @
          Itoa (int (length (fst r))) @ '' nodes available (need >= '' @ Itoa k @ '')''))
      else poll_loop k d rs)"
  by (cases r) (simp add: availableNodeCount_def enough_def Let_def)

declare poll_loop.simps(2) [simp del]

lemma poll_loop_waits:
  "poll_loop k d rs = None \<longleftrightarrow> (\<forall>r \<in> set rs. \<not> enough k (fst r) \<and> snd r \<le> d)"
  by (induction rs) (auto simp: poll_loop_Cons not_less)

lemma poll_loop_ok:
  "poll_loop k d rs = Some None \<longleftrightarrow>
     (\<exists>i < length rs. enough k (fst (rs ! i)) \<and> (\<forall>j < i. snd (rs ! j) \<le> d))"
proof (induction rs)
  case (Cons r rs)
  have "(\<exists>i < length (r # rs). enough k (fst ((r # rs) ! i)) \<and> (\<forall>j < i. snd ((r # rs) ! j) \<le> d)) \<longleftrightarrow>
      enough k (fst r) \<or> snd r \<le> d \<and> (\<exists>i < length rs. enough k (fst (rs ! i)) \<and> (\<forall>j < i. snd (rs ! j) \<le> d))"
    by (auto simp: Ex_less_Suc2 All_less_Suc2)
  with Cons show ?case by (auto simp: poll_loop_Cons)
qed simp

definition wait_limit :: "duration \<Rightarrow> duration" where
  "wait_limit timeout = (if timeout \<le> 0 then defaultHealthCheckTimeout else timeout)"

text \<open>
  Waiting for healthy nodes.  When rounds come at least the polling interval apart, the wait is
  over once the rounds cover the timeout, whatever the nodes do.  It reports success exactly when
  it has nothing to wait for or some round saw enough nodes available while all rounds before it
  were within the timeout.
\<close>

theorem health_wait_verdict:
  assumes "\<forall>i < length rounds. start + int i * healthCheckPollInterval \<le> snd (rounds ! i)"
    and "wait_limit timeout < int (length rounds - 1) * healthCheckPollInterval"
  shows "waitForHealthCheck s timeout start rounds \<noteq> None \<and>
    (waitForHealthCheck s timeout start rounds = Some None \<longleftrightarrow>
       \<not> bm_monitorMgr s \<or> bm_minAvailableNodes s \<le> 0 \<or>
       (\<exists>i < length rounds. enough (bm_minAvailableNodes s) (fst (rounds ! i)) \<and>
          (\<forall>j < i. snd (rounds ! j) \<le> start + wait_limit timeout)))"
proof -
  have "0 < wait_limit timeout"
    by (simp add: wait_limit_def defaultHealthCheckTimeout_def second_def)
  with assms(2) have pos: "0 < length rounds - 1"
    by (cases "length rounds - 1") simp_all
  let ?last = "rounds ! (length rounds - 1)"
  have "start + wait_limit timeout < snd ?last"
  proof -
    have "length rounds - 1 < length rounds" using pos by linarith
    from assms(1) [rule_format, OF this] assms(2) show ?thesis by linarith
  qed
  moreover have "?last \<in> set rounds"
    using pos by (intro nth_mem) simp
  ultimately have "poll_loop (bm_minAvailableNodes s) (start + wait_limit timeout) rounds \<noteq> None"
    unfolding poll_loop_waits by force
  then show ?thesis
    by (auto simp: waitForHealthCheck_def wait_limit_def poll_loop_ok)
qed

definition demo_rounds :: "(snapshot list \<times> time) list" where
  "demo_rounds = [([], 0), ([], 500000000), ([], 1000000000), ([], 1500000000)]"

theorem health_wait_verdict_witness:
  "waitForHealthCheck ((demo_bm ''pool'')\<lparr>bm_monitorMgr := True, bm_minAvailableNodes := 1\<rparr>)
     (1 * second) 0 demo_rounds \<notin> {None, Some None}"
proof -
  have "\<forall>i < length demo_rounds. 0 + int i * healthCheckPollInterval \<le> snd (demo_rounds ! i)"
    by (simp add: demo_rounds_def All_less_Suc2 healthCheckPollInterval_def numeral_eq_Suc)
  moreover have "wait_limit (1 * second) < int (length demo_rounds - 1) * healthCheckPollInterval"
    by (simp add: demo_rounds_def wait_limit_def healthCheckPollInterval_def second_def)
  moreover have "\<not> enough 1 (fst (demo_rounds ! i))" if "i < length demo_rounds" for i
  proof -
    have "fst ` set demo_rounds = {[]}" by (simp add: demo_rounds_def)
    with that have "fst (demo_rounds ! i) = []" by (metis image_eqI nth_mem singletonD)
    then show ?thesis by (simp add: enough_def)
  qed
  ultimately show ?thesis
    using health_wait_verdict [of demo_rounds 0 "1 * second"
        "(demo_bm ''pool'')\<lparr>bm_monitorMgr := True, bm_minAvailableNodes := 1\<rparr>"] by auto
qed

section \<open>Ports of a triggered reload\<close>

lemma fold_port_map:
  "distinct (map nc_URI ns) \<Longrightarrow>
   fold (\<lambda>n m. if 0 < nc_Port n then m(NodeKey n \<mapsto> nc_Port n) else m) ns m k =
     (case find (\<lambda>n. nc_URI n = k \<and> 0 < nc_Port n) ns of None \<Rightarrow> m k | Some n \<Rightarrow> Some (nc_Port n))"
proof (induction ns arbitrary: m)
  case (Cons n ns)
  then have "find (\<lambda>x. nc_URI x = nc_URI n \<and> 0 < nc_Port x) ns = None"
    by (auto simp: find_None_iff image_iff)
  with Cons show ?case by (auto simp: NodeKey_def split: option.split)
qed simp

lemma BuildPortMap_node:
  assumes "distinct (map nc_URI (cf_Nodes c))" "n \<in> set (cf_Nodes c)" "nc_Port n \<noteq> 0"
  shows "BuildPortMap c (nc_URI n) = Some (nc_Port n)"
proof -
  have "0 < nc_Port n" using assms(3) by (simp add: word_gt_0)
  then have "find (\<lambda>m. nc_URI m = nc_URI n \<and> 0 < nc_Port m) (cf_Nodes c) \<noteq> None"
    using assms(2) by (auto simp: find_None_iff)
  then obtain m where m: "find (\<lambda>m. nc_URI m = nc_URI n \<and> 0 < nc_Port m) (cf_Nodes c) = Some m" by blast
  then have "m \<in> set (cf_Nodes c)" "nc_URI m = nc_URI n"
    by (auto simp: find_Some_iff)
  then have "m = n" using distinct_map_key assms(1,2) by metis
  with m show ?thesis by (simp add: BuildPortMap_def fold_port_map [OF assms(1)])
qed

lemma multi_mode_normal: "multi_mode m \<Longrightarrow> normal_mode m = m"
  by (auto simp: multi_mode_def normal_mode_def Let_def)

lemma NormalizeWithPortMap_mode:
  "NormalizeWithPortMap env pm c0 = Some (Inr c) \<Longrightarrow> cf_Mode c = normal_mode (cf_Mode c0)"
  by (auto simp: NormalizeWithPortMap_def dest!: apply_defaults_fields split: sum.splits option.splits)

lemma normalize_own_map:
  assumes "NormalizeWithPortMap env (BuildPortMap c) c = Some (Inr c1)" "multi_mode (cf_Mode c)"
    and "distinct (map nc_URI (cf_Nodes c))"
    and "\<forall>n \<in> set (cf_Nodes c). nc_Port n \<noteq> 0 \<and> TrimSpace (nc_URI n) = nc_URI n"
  shows "map nc_URI (cf_Nodes c1) = map nc_URI (cf_Nodes c) \<and>
    map nc_Port (cf_Nodes c1) = map nc_Port (cf_Nodes c)"
proof -
  have "multi_mode (cf_Mode c1)"
    using assms(1,2) by (simp add: NormalizeWithPortMap_mode multi_mode_normal)
  from reload_ports_spec [OF assms(1) this] have nodes:
    "list_all2 (\<lambda>n n'. nc_URI n' = TrimSpace (nc_URI n) \<and> nc_Name n' \<noteq> [] \<and>
        nc_Port n' = (case kept_port (BuildPortMap c) n of
            Some p \<Rightarrow> p
          | None \<Rightarrow> if nc_Port n = 0 then nc_Port n' else nc_Port n)) (cf_Nodes c) (cf_Nodes c1)"
    by blast
  have "kept_port (BuildPortMap c) n = Some (nc_Port n)" if "n \<in> set (cf_Nodes c)" for n
    using that assms(4) BuildPortMap_node [OF assms(3) that]
    by (auto simp: kept_port_def word_gt_0)
  with nodes assms(4) have
    "list_all2 (\<lambda>n n'. nc_URI n = nc_URI n' \<and> nc_Port n = nc_Port n') (cf_Nodes c) (cf_Nodes c1)"
    by (auto elim!: list.rel_mono_strong)
  then show ?thesis
    by (simp add: list_all2_conv_all_nth list_eq_iff_nth_eq)
qed

text \<open>
  A triggered reload keeps the ports.  In multi-port or hybrid mode, with nodes of different
  URIs that all have a port, a reload on request that succeeds leaves every node its URI and its
  port, provided no port was taken away in between, so that no start fails.
\<close>

theorem trigger_reload_keeps_ports:
  assumes "TriggerReload env None s = Some (None, s')" and "bm_cfg s = Some c"
    and "multi_mode (cf_Mode c)" and "distinct (map nc_URI (cf_Nodes c))"
    and "\<forall>n \<in> set (cf_Nodes c). nc_Port n \<noteq> 0 \<and> TrimSpace (nc_URI n) = nc_URI n"
    and "\<forall>b c. be_start env b c = None"
  shows "\<exists>c'. bm_cfg s' = Some c' \<and> map nc_URI (cf_Nodes c') = map nc_URI (cf_Nodes c) \<and>
    map nc_Port (cf_Nodes c') = map nc_Port (cf_Nodes c)"
proof -
  have copy: "copyConfig s = Some c"
    using assms(2) by (simp add: copyConfig_def cloneNodes_def)
  obtain c1 where reload: "Reload env (Some c1) s = Some (None, s')"
    and nodes: "map nc_URI (cf_Nodes c1) = map nc_URI (cf_Nodes c)"
      "map nc_Port (cf_Nodes c1) = map nc_Port (cf_Nodes c)"
  proof (cases "BuildPortMap c = Map.empty")
    case True
    with assms(1,2) copy that [of c] show thesis
      by (simp add: TriggerReload_def ReloadWithPortMap_def)
  next
    case False
    then obtain c1 where "NormalizeWithPortMap (be_cfg env) (BuildPortMap c) c = Some (Inr c1)"
      "Reload env (Some c1) s = Some (None, s')"
      using assms(1,2) copy
      by (auto simp: TriggerReload_def ReloadWithPortMap_def split: option.splits sum.splits)
    with that [of c1] normalize_own_map [OF this(1) assms(3-5)] show thesis by blast
  qed
  have boot: "boot_loop env (Suc k) lb (Some x) t = Some (Booted bo, Some y, t1) \<Longrightarrow> y = x" for k lb x t bo y t1
    using assms(6) by (auto split: prod.splits sum.splits)
  from reload show ?thesis
  proof (cases rule: Reload_cases)
    case (booted bo c2 s1)
    then have "c2 = c1"
      using boot [of "maxRetries - 1"] by (simp add: maxRetries_def)
    with booted(3) nodes show ?thesis
      by (auto simp: reload_commit_cfg split: option.split)
  qed simp
qed
theorem trigger_reload_keeps_ports_witness:
  "\<exists>s s' c'. bm_Start demo_bm_env (demo_bm ''multi-port'') = Some (None, s) \<and>
     TriggerReload demo_bm_env None s = Some (None, s') \<and>
     bm_cfg s' = Some c' \<and> map nc_Port (cf_Nodes c') = [24000]"
proof -
  obtain s where s: "bm_Start demo_bm_env (demo_bm ''multi-port'') = Some (None, s)"
    "bm_monitorMgr s" "bm_cfg s = bm_cfg (demo_bm ''multi-port'')"
    using demo_start by blast
  define c where "c = (demo_config ''multi-port'' [demo_node ''a'' 24000])
      \<lparr>cf_filePath := ''/c.yaml'', cf_NodesFile := ''nodes.txt''\<rparr>"
  have cfg: "bm_cfg s = Some c" by (simp add: s(3) demo_bm_cfg c_def)
  have nodes: "cf_Nodes c = [demo_node ''a'' 24000]" "cf_Mode c = ''multi-port''"
    by (simp_all add: c_def demo_config_def)
  have uri: "TrimSpace ''ss://a'' = ''ss://a''" by code_simp
  have pm: "BuildPortMap c = [''ss://a'' \<mapsto> 24000]"
    by (simp add: BuildPortMap_def nodes NodeKey_def demo_node_def uri_node_def)
  obtain c1 where defs: "apply_defaults c = Inr c1"
    by (simp add: apply_defaults_def nodes normal_mode_def Let_def)
  have c1: "cf_Nodes c1 = [demo_node ''a'' 24000]" "multi_mode (cf_Mode c1)" "cf_Mode c1 = ''multi-port''"
    using apply_defaults_fields [OF defs] by (simp_all add: nodes normal_mode_def multi_mode_def Let_def)
  obtain c2 where norm: "NormalizeWithPortMap demo_yaml_env (BuildPortMap c) c = Some (Inr c2)"
    using c1 by (simp add: NormalizeWithPortMap_def defs Let_def pm demo_node_def uri_node_def
        trim_node_def uri short_name_def NodeKey_def)
  have m: "bm_monitorMgr (reload_begin s)"
    using s(2) by (simp add: reload_begin_def close_box_def Let_def split: option.split)
  have "be_cfg demo_bm_env = demo_yaml_env" by (simp add: demo_bm_env_def)
  then obtain s' where s': "TriggerReload demo_bm_env None s = Some (None, s')"
    using boot_demo [OF m, of maxRetries None c2] norm
    by (simp add: TriggerReload_def ReloadWithPortMap_def cfg pm copyConfig_def cloneNodes_def
        Reload_def maxRetries_def)
  have "\<forall>b c. be_start demo_bm_env b c = None" by (simp add: demo_bm_env_def)
  from trigger_reload_keeps_ports [OF s' cfg _ _ _ this] s(1) s' show ?thesis
    by (auto simp: nodes multi_mode_def demo_node_def uri_node_def uri)
qed
section \<open>Where the manager goes wrong\<close>

text \<open>
  Two reloads at the same time, from the web interface and the subscription refresh, leave the
  instance of the first one running with nobody left to close it.
\<close>

lemma concurrent_reloads_leak:
  assumes "one_box s" "bm_monitorMgr s"
  shows "\<exists>a b s1 s2. boot_loop demo_bm_env maxRetries None (Some c) (reload_begin (reload_begin s)) =
       Some (Booted (Some a), Some c, s1) \<and>
     boot_loop demo_bm_env maxRetries None (Some d) s1 = Some (Booted (Some b), Some d, s2) \<and>
     bm_currentBox (reload_commit (Some b) d (reload_commit (Some a) c s2)) = Some b \<and>
     a \<in> bm_running (reload_commit (Some b) d (reload_commit (Some a) c s2)) \<and> a \<noteq> b"
proof -
  let ?s = "reload_begin (reload_begin s)"
  have m: "bm_monitorMgr ?s"
    using assms(2) by (simp add: reload_begin_def close_box_def Let_def split: option.split)
  show ?thesis
    using boot_demo [OF m, of maxRetries None c]
      boot_demo [of "?s\<lparr>bm_nextBox := Suc (bm_nextBox ?s), bm_running := insert (bm_nextBox ?s) (bm_running ?s)\<rparr>"
        maxRetries None d] m
    by (auto simp: maxRetries_def)
qed

text \<open>
  When every round meets a port conflict that it can repair, the rounds run out, and the loop ends
  as after a success, although nothing runs.
\<close>

definition conflict_error :: "nat \<Rightarrow> config \<Rightarrow> string option" where
  "conflict_error b c =
     Some ([] @ bind_prefix @ ''4'' @ '' '' @ ''0.0.0.0'' @ '':'' @
       Itoa (uint (nc_Port (hd (cf_Nodes c)))) @ bind_suffix @ [])"

lemma boot_loop_exhausted:
  assumes "bm_monitorMgr s" "cf_Nodes c = [n]" "nc_Port n \<noteq> 0" "cf_Mode c = ''multi-port''"
    and env: "be_build env = (\<lambda>_. None)" "be_new env = (\<lambda>_ _. None)" "be_start env = conflict_error"
      "ce_free (be_cfg env) = (\<lambda>_ p. p \<noteq> 0)"
  shows "\<exists>b c' s'. boot_loop env k lastBox (Some c) s =
      Some (Booted (if k = 0 then lastBox else Some b), Some c', s') \<and> bm_running s' = bm_running s"
  using assms(1-4)
proof (induction k arbitrary: lastBox c n s)
  case (Suc k)
  let ?b = "bm_nextBox s" and ?p = "nc_Port n"
  obtain s1 where s1: "createBox env (Some c) s = (Inr ?b, s1)" "bm_running s1 = bm_running s"
    "bm_monitorMgr s1"
    using Suc.prems(1) by (simp add: createBox_def env Let_def)
  have err: "be_start env ?b c = Some ([] @ bind_prefix @ ''4'' @ '' '' @ ''0.0.0.0'' @ '':'' @
      Itoa (uint ?p) @ bind_suffix @ [])"
    by (simp only: env conflict_error_def Suc.prems(2) list.sel)
  have port: "extractPortFromBindError ([] @ bind_prefix @ ''4'' @ '' '' @ ''0.0.0.0'' @ '':'' @
      Itoa (uint ?p) @ bind_suffix @ []) = ?p"
    by (rule bind_error_port_found) (simp_all add: Contains_def bind_prefix_def)
  let ?busy = "\<lambda>q. q \<in> bm_used_ports c \<or> \<not> q \<noteq> (0 :: port)"
  have used: "bm_used_ports c = {?p}"
    using Suc.prems by (simp add: bm_used_ports_def)
  have "\<not> ?busy (if ?p = 1 then 2 else 1)" by (simp add: used)
  from port_scan_exists [where busy = ?busy and err = "''no port''" and p = "?p + 1", OF this] obtain q where
    q: "port_scan ?busy ''no port'' (?p + 1) = Some (Inr q)" "q \<noteq> 0" by blast
  let ?c = "c\<lparr>cf_Nodes := [n\<lparr>nc_Port := q\<rparr>]\<rparr>"
  have re: "reassignConflictingPort (ce_free (be_cfg env)) ?p c = Some (True, ?c)"
    using q(1) Suc.prems(2) by (simp add: reassignConflictingPort_def env)
  let ?s = "s1\<lparr>bm_world := ResetSharedStateStore (bm_world s1)\<rparr>"
  have "\<exists>b c' s'. boot_loop env k (Some ?b) (Some ?c) ?s =
      Some (Booted (if k = 0 then Some ?b else Some b), Some c', s') \<and> bm_running s' = bm_running ?s"
    by (rule Suc.IH [of ?s ?c "n\<lparr>nc_Port := q\<rparr>"]) (use s1(3) q(2) Suc.prems(4) in simp_all)
  moreover have "0 < ?p" using Suc.prems(3) by (simp add: word_gt_0)
  then have "boot_loop env (Suc k) lastBox (Some c) s = boot_loop env k (Some ?b) (Some ?c) ?s"
    unfolding boot_loop.simps s1(1) prod.case sum.case option.sel err option.case port Let_def
    by (simp add: re)
  ultimately show ?case
    using s1(2) by (auto split: if_splits)
qed auto

lemma retries_exhausted_reported_as_success:
  assumes "one_box s" "bm_monitorMgr s" "cf_Nodes c = [n]" "nc_Port n \<noteq> 0" "cf_Mode c = ''multi-port''"
    and env: "be_build env = (\<lambda>_. None)" "be_new env = (\<lambda>_ _. None)" "be_start env = conflict_error"
      "ce_free (be_cfg env) = (\<lambda>_ p. p \<noteq> 0)"
  shows "\<exists>s'. Reload env (Some c) s = Some (None, s') \<and> bm_currentBox s' \<noteq> None \<and> bm_running s' = {}"
proof -
  have s: "bm_monitorMgr (reload_begin s)" "bm_running (reload_begin s) = {}"
    using assms(1,2) reload_begin_frame [of s]
    by (auto simp: reload_begin_def close_box_def Let_def one_box_def split: option.splits)
  from boot_loop_exhausted [OF s(1) assms(3-) , of maxRetries None] obtain b c' s1 where
    "boot_loop env maxRetries None (Some c) (reload_begin s) = Some (Booted (Some b), Some c', s1)"
    "bm_running s1 = bm_running (reload_begin s)"
    by (auto simp: maxRetries_def)
  with s(2) show ?thesis
    by (simp add: Reload_def)
qed

text \<open>A node created while a reload runs is gone when the reload commits.\<close>

lemma reload_loses_created_node:
  assumes "bm_cfg (serve env q s) = Some x"
  shows "\<exists>f. bm_cfg (reload_commit bo c (serve env q s)) = Some (c\<lparr>cf_filePath := f\<rparr>)"
proof (cases "cf_filePath c = []")
  case True
  with assms show ?thesis by (auto simp: reload_commit_cfg)
next
  case False
  with assms have "bm_cfg (reload_commit bo c (serve env q s)) = Some (c\<lparr>cf_filePath := cf_filePath c\<rparr>)"
    by (simp add: reload_commit_cfg)
  then show ?thesis ..
qed

text \<open>A reload on request without a configuration goes through a nil pointer.\<close>

lemma trigger_without_config:
  "bm_cfg s = None \<Longrightarrow> TriggerReload env None s = Some (Some NilPanic, s)"
  by (simp add: TriggerReload_def)

end
