(* ===== verification/Go_Sha256.thy ===== *)
theory Go_Sha256
  imports "HOL-Library.Word"
begin

text \<open>
  SHA-256 (\<open>crypto/sha256\<close>) and \<open>hex.EncodeToString\<close>, which the subscription manager uses to notice
  changes of the nodes file.
\<close>

unbundle bit_operations_syntax

text \<open>
  The constants as the standard defines them: the first 32 bits of the fractions of the square
  roots of the first 8 primes and of the cube roots of the first 64 primes.  \<open>root_bits\<close> finds the
  root bit by bit, from the bit below \<open>b\<close> down.
\<close>

fun root_bits :: "nat \<Rightarrow> nat \<Rightarrow> int \<Rightarrow> int \<Rightarrow> int" where
  "root_bits k 0 r x = r"
| "root_bits k (Suc b) r x =
     root_bits k b (if (r + 2 ^ b) ^ k \<le> x then r + 2 ^ b else r) x"

definition small_primes :: "int list" where
  "small_primes = filter (\<lambda>p. list_all (\<lambda>d. p mod d \<noteq> 0) [2..p - 1]) [2..311]"

definition sha_init :: "32 word list" where
  "sha_init = map (\<lambda>p. word_of_int (root_bits 2 40 0 (p * 2 ^ 64))) [2, 3, 5, 7, 11, 13, 17, 19]"

definition sha_k :: "32 word list" where
  "sha_k = map (\<lambda>p. word_of_int (root_bits 3 40 0 (p * 2 ^ 96))) small_primes"

definition rotr :: "nat \<Rightarrow> 32 word \<Rightarrow> 32 word" where
  "rotr k w = drop_bit k w OR push_bit (32 - k) w"

text \<open>The schedule, kept in reverse: each new word from the last sixteen.\<close>

definition next_word :: "32 word list \<Rightarrow> 32 word" where
  "next_word rs =
     (let w2 = rs ! 1; w7 = rs ! 6; w15 = rs ! 14; w16 = rs ! 15;
          s0 = (rotr 7 w15 XOR rotr 18 w15) XOR drop_bit 3 w15;
          s1 = (rotr 17 w2 XOR rotr 19 w2) XOR drop_bit 10 w2
      in w16 + s0 + w7 + s1)"

definition schedule :: "32 word list \<Rightarrow> 32 word list" where
  "schedule block = rev (((\<lambda>rs. next_word rs # rs) ^^ 48) (rev block))"

fun sha_round :: "32 word \<times> 32 word \<Rightarrow> 32 word list \<Rightarrow> 32 word list" where
  "sha_round (k, w) [a, b, c, d, e, f, g, h] =
     (let s1 = (rotr 6 e XOR rotr 11 e) XOR rotr 25 e;
          ch = (e AND f) XOR (NOT e AND g);
          t1 = h + s1 + ch + k + w;
          s0 = (rotr 2 a XOR rotr 13 a) XOR rotr 22 a;
          maj = ((a AND b) XOR (a AND c)) XOR (b AND c)
      in [t1 + s0 + maj, a, b, c, d + t1, e, f, g])"
| "sha_round kw hs = hs"

definition compress :: "32 word list \<Rightarrow> 32 word list \<Rightarrow> 32 word list" where
  "compress block hs = map2 (+) hs (fold sha_round (zip sha_k (schedule block)) hs)"

text \<open>Padding: a one bit, zeros, and the length in bits as 64-bit big-endian number.\<close>

definition big_endian :: "nat \<Rightarrow> nat \<Rightarrow> nat list" where
  "big_endian k n = map (\<lambda>i. n div 256 ^ (k - 1 - i) mod 256) [0..<k]"

definition pad :: "nat list \<Rightarrow> nat list" where
  "pad bs =
     (let n = length bs in
      bs @ [0x80] @ replicate ((119 - n mod 64) mod 64) 0 @ big_endian 8 (8 * n mod 2 ^ 64))"

fun words_of :: "nat list \<Rightarrow> 32 word list" where
  "words_of (a # b # c # d # r) = of_nat (((a * 256 + b) * 256 + c) * 256 + d) # words_of r"
| "words_of r = []"

fun blocks :: "nat \<Rightarrow> 32 word list \<Rightarrow> 32 word list list" where
  "blocks 0 ws = []"
| "blocks (Suc k) ws = take 16 ws # blocks k (drop 16 ws)"

definition Sum256 :: "string \<Rightarrow> nat list" where
  "Sum256 s =
     (let ws = words_of (pad (map of_char s)) in
      concat (map (\<lambda>w. big_endian 4 (unat w)) (fold compress (blocks (length ws div 16) ws) sha_init)))"

definition hex_digit :: "nat \<Rightarrow> char" where
  "hex_digit d = char_of (if d < 10 then 48 + d else 87 + d)"

text \<open>\<open>hex.EncodeToString\<close>.\<close>

definition EncodeToString :: "nat list \<Rightarrow> string" where
  "EncodeToString bs = concat (map (\<lambda>b. [hex_digit (b div 16), hex_digit (b mod 16)]) bs)"

lemma length_sha_round: "length (sha_round kw hs) = length hs"
  by (induction kw hs rule: sha_round.induct) (simp_all add: Let_def)

lemma length_fold_sha_round: "length (fold sha_round kws hs) = length hs"
  by (induction kws arbitrary: hs) (simp_all add: length_sha_round)

lemma length_fold_compress: "length (fold compress bs hs) = length hs"
  by (induction bs arbitrary: hs) (simp_all add: compress_def length_fold_sha_round)

lemma length_concat_const: "\<forall>x \<in> set xs. length (f x) = k \<Longrightarrow> length (concat (map f xs)) = k * length xs"
  by (induction xs) auto

text \<open>A checksum has 32 bytes, its text 64 characters.\<close>

lemma length_sha_init: "length sha_init = 8"
  by (simp add: sha_init_def)

lemma length_Sum256: "length (Sum256 s) = 32"
  by (simp add: Sum256_def Let_def length_fold_compress big_endian_def length_sha_init
      length_concat_const [where k = 4])

lemma length_EncodeToString: "length (EncodeToString bs) = 2 * length bs"
  by (simp add: EncodeToString_def length_concat_const [where k = 2])

end
