(* ===== verification/Subscription.thy ===== *)
theory Subscription
  imports Box_Reload Go_Sha256
begin

text \<open>
  The subscription manager (\<open>internal/subscription/manager.go\<close>): fetching the subscriptions,
  refreshing the nodes (nodes file, new configuration, reload of the box manager), noticing edits
  of the nodes file, the settings it takes at run time, and its loop.

  Its base configuration is the object that the box manager works on, so it is read from the box
  manager's state.  \<open>ss_mtime\<close> is the modification time of a path; the buffered channels of one
  element are flags.  A refresh whose reload does not return, or that runs into a nil
  configuration, has no result.  Requests go through the HTTP parameter of the configuration;
  logging is left out.
\<close>

section \<open>State\<close>

record sub_status =
  st_LastRefresh :: time
  st_NextRefresh :: time
  st_NodeCount :: int
  st_LastError :: string
  st_RefreshCount :: int
  st_IsRefreshing :: bool
  st_NodesModified :: bool

record sub_state =
  ss_box :: bm_state
  ss_mtime :: "string \<Rightarrow> time"
  ss_status :: sub_status
  ss_refreshMu :: bool
  ss_manualRefresh :: bool
  ss_configChanged :: bool
  ss_started :: bool
  ss_subscriptions :: "string list"
  ss_refreshCfg :: refresh_config
  ss_lastSubHash :: string
  ss_lastNodesModTime :: time

record sub_env =
  se_bm :: bm_env
  se_is_dir :: "string \<Rightarrow> bool"

definition zero_status :: sub_status where
  "zero_status =
     \<lparr>st_LastRefresh = 0, st_NextRefresh = 0, st_NodeCount = 0, st_LastError = [],
      st_RefreshCount = 0, st_IsRefreshing = False, st_NodesModified = False\<rparr>"

definition Stat :: "sub_env \<Rightarrow> string \<Rightarrow> sub_state \<Rightarrow> time option" where
  "Stat env path s =
     (if se_is_dir env path \<or> dk_files (bm_disk (ss_box s)) path \<noteq> None
      then Some (ss_mtime s path) else None)"

section \<open>The nodes file\<close>

definition sub_schemes :: "string list" where
  "sub_schemes =
     [''vmess://'', ''vless://'', ''trojan://'', ''ss://'', ''ssr://'', ''hysteria://'',
      ''hysteria2://'', ''hy2://'']"

definition sub_isProxyURI :: "string \<Rightarrow> bool" where
  "sub_isProxyURI t \<longleftrightarrow> list_ex (HasPrefix (ToLower t)) sub_schemes"

fun file_lines :: "string list \<Rightarrow> node_config list" where
  "file_lines [] = []"
| "file_lines (l # ls) =
     (let t = TrimSpace l in
      if t = [] \<or> HasPrefix t ''#'' then file_lines ls
      else if sub_isProxyURI t then uri_node t # file_lines ls
      else file_lines ls)"

definition nodes_of_content :: "string \<Rightarrow> node_config list" where
  "nodes_of_content content = file_lines (Split content (CHR 0x0A))"

definition computeNodesHash :: "node_config list \<Rightarrow> string" where
  "computeNodesHash ns = EncodeToString (Sum256 (Join (map nc_URI ns) [CHR 0x0A]))"

definition initNodesStateFromFile :: "sub_env \<Rightarrow> sub_state \<Rightarrow> sub_state" where
  "initNodesStateFromFile env s =
     (case bm_cfg (ss_box s) of
        None \<Rightarrow> s
      | Some c \<Rightarrow>
          (let path = nodes_file_path c in
           if path = [] then s
           else
             (case Stat env path s of
                None \<Rightarrow> s
              | Some t \<Rightarrow>
                  (case ReadFile path (bm_disk (ss_box s)) of
                     Inl _ \<Rightarrow> s
                   | Inr content \<Rightarrow>
                       (let ns = nodes_of_content content;
                            st = ss_status s;
                            st1 = (if ns \<noteq> []
                                   then st\<lparr>st_NodeCount := int (length ns), st_LastRefresh := t\<rparr>
                                   else st)
                        in s\<lparr>ss_lastSubHash := computeNodesHash ns, ss_lastNodesModTime := t,
                             ss_status := st1\<lparr>st_NodesModified := False\<rparr>\<rparr>)))))"

definition zero_refresh :: refresh_config where
  "zero_refresh = cf_SubscriptionRefresh zero_config"

definition sub_New :: "sub_env \<Rightarrow> bm_state \<Rightarrow> (string \<Rightarrow> time) \<Rightarrow> sub_state" where
  "sub_New env box mtime =
     initNodesStateFromFile env
       \<lparr>ss_box = box, ss_mtime = mtime, ss_status = zero_status, ss_refreshMu = False,
        ss_manualRefresh = False, ss_configChanged = False, ss_started = False,
        ss_subscriptions = (case bm_cfg box of None \<Rightarrow> [] | Some c \<Rightarrow> cf_Subscriptions c),
        ss_refreshCfg =
          (case bm_cfg box of None \<Rightarrow> zero_refresh | Some c \<Rightarrow> cf_SubscriptionRefresh c),
        ss_lastSubHash = [], ss_lastNodesModTime = 0\<rparr>"

text \<open>Whether the file was edited: first by its time, then by the hash of its URIs.\<close>

definition CheckNodesModified :: "sub_env \<Rightarrow> sub_state \<Rightarrow> bool \<times> sub_state" where
  "CheckNodesModified env s =
     (if ss_lastSubHash s = [] then (False, s)
      else
        (case bm_cfg (ss_box s) of
           None \<Rightarrow> (False, s)
         | Some c \<Rightarrow>
             (let path = nodes_file_path c in
              case Stat env path s of
                None \<Rightarrow> (False, s)
              | Some t \<Rightarrow>
                  if t \<le> ss_lastNodesModTime s then (False, s)
                  else
                    (case ReadFile path (bm_disk (ss_box s)) of
                       Inl _ \<Rightarrow> (False, s)
                     | Inr content \<Rightarrow>
                         (computeNodesHash (nodes_of_content content) \<noteq> ss_lastSubHash s,
                          s\<lparr>ss_lastNodesModTime := t\<rparr>)))))"

definition MarkNodesModified :: "sub_state \<Rightarrow> sub_state" where
  "MarkNodesModified s = s\<lparr>ss_status := (ss_status s)\<lparr>st_NodesModified := True\<rparr>\<rparr>"

definition Status :: "sub_env \<Rightarrow> sub_state \<Rightarrow> sub_status \<times> sub_state" where
  "Status env s =
     (case CheckNodesModified env s of
        (b, s') \<Rightarrow> ((ss_status s)\<lparr>st_NodesModified := b\<rparr>, s'))"

section \<open>Fetching\<close>

fun fetch_agents ::
  "cfg_env \<Rightarrow> string \<Rightarrow> string list \<Rightarrow> string option \<Rightarrow> string + node_config list" where
  "fetch_agents env subURL [] lastErr = (case lastErr of Some e \<Rightarrow> Inl e | None \<Rightarrow> Inr [])"
| "fetch_agents env subURL (ua # uas) lastErr =
     (case ce_http env subURL ua of
        RequestError e \<Rightarrow> Inl (''create request: '' @ e)
      | DoError e \<Rightarrow> fetch_agents env subURL uas (Some (''fetch: '' @ e))
      | BodyError e \<Rightarrow> fetch_agents env subURL uas (Some (''read body: '' @ e))
      | Response status body \<Rightarrow>
          if status \<noteq> 200 then
            fetch_agents env subURL uas (Some (''status '' @ Itoa (int status)))
          else
            (case ParseSubscriptionContent (ce_yaml_clash env) body of
               Inl e \<Rightarrow> fetch_agents env subURL uas (Some e)
             | Inr ns \<Rightarrow>
                 if ns = [] then
                   fetch_agents env subURL uas (Some ''no proxy nodes found in subscription response'')
                 else Inr ns))"

definition fetchSubscription :: "cfg_env \<Rightarrow> string \<Rightarrow> string + node_config list" where
  "fetchSubscription env raw =
     (let subURL = NormalizeSubscriptionURL raw in
      if subURL = [] then Inl ''empty subscription url'' else fetch_agents env subURL userAgents None)"

fun fetch_loop ::
  "cfg_env \<Rightarrow> string list \<Rightarrow> node_config list \<Rightarrow> string option \<Rightarrow> string + node_config list" where
  "fetch_loop env [] allNodes lastErr =
     (case lastErr of
        Some e \<Rightarrow> if allNodes = [] then Inl e else Inr allNodes
      | None \<Rightarrow> Inr allNodes)"
| "fetch_loop env (u # us) allNodes lastErr =
     (case fetchSubscription env u of
        Inl e \<Rightarrow> fetch_loop env us allNodes (Some e)
      | Inr ns \<Rightarrow> fetch_loop env us (allNodes @ ns) lastErr)"

definition fetchAllSubscriptions :: "cfg_env \<Rightarrow> string list \<Rightarrow> string + node_config list" where
  "fetchAllSubscriptions env us = fetch_loop env us [] None"

section \<open>Refreshing\<close>

text \<open>In multi-port mode the nodes are numbered from the base port; then they are named.\<close>

fun number_nodes :: "config \<Rightarrow> port \<Rightarrow> node_config list \<Rightarrow> node_config list" where
  "number_nodes c cursor [] = []"
| "number_nodes c cursor (n # ns) =
     (let n1 = n\<lparr>nc_Port := cursor\<rparr> in
      (if nc_Username n1 = []
       then n1\<lparr>nc_Username := mpc_Username (cf_MultiPort c), nc_Password := mpc_Password (cf_MultiPort c)\<rparr>
       else n1) # number_nodes c (cursor + 1) ns)"

fun name_nodes :: "cfg_env \<Rightarrow> nat \<Rightarrow> node_config list \<Rightarrow> node_config list" where
  "name_nodes env i [] = []"
| "name_nodes env i (n # ns) =
     (let n1 = trim_node n in n1\<lparr>nc_Name := node_name env i n1\<rparr> # name_nodes env (Suc i) ns)"

definition createNewConfig :: "cfg_env \<Rightarrow> node_config list \<Rightarrow> config \<Rightarrow> config" where
  "createNewConfig env ns c =
     c\<lparr>cf_Nodes :=
         name_nodes env 0
           (if cf_Mode c = ''multi-port'' then number_nodes c (mpc_BasePort (cf_MultiPort c)) ns
            else ns)\<rparr>"

definition refresh_failed :: "string \<Rightarrow> time \<Rightarrow> sub_state \<Rightarrow> sub_state" where
  "refresh_failed e now s =
     s\<lparr>ss_status := (ss_status s)\<lparr>st_LastError := e, st_LastRefresh := now\<rparr>\<rparr>"

definition dir_hint :: string where
  "dir_hint = '' (nodes.txt is a directory; if using Docker bind mount, ensure host nodes.txt exists as a file)''"

text \<open>A reload reports its errors as texts.\<close>

definition bm_error_text :: "bm_error \<Rightarrow> string" where
  "bm_error_text e = (case e of Failed t \<Rightarrow> t | ErrContext t \<Rightarrow> t | _ \<Rightarrow> [])"

text \<open>
  The nodes file is rewritten first; \<open>clk 0\<close> is the time of the write.  The result is the text of
  the write error, empty after a success.  A write that fails after the file was opened changes
  the file and its modification time too.
\<close>

definition refresh_write ::
  "sub_env \<Rightarrow> (nat \<Rightarrow> time) \<Rightarrow> string \<Rightarrow> node_config list \<Rightarrow> sub_state \<Rightarrow> string \<times> sub_state" where
  "refresh_write env clk path ns s =
     (case writeNodesToFile path ns (bm_disk (ss_box s)) of
        (Some e, d) \<Rightarrow>
          (''write nodes.txt failed: '' @ e @ (if se_is_dir env path then dir_hint else []),
           s\<lparr>ss_box := (ss_box s)\<lparr>bm_disk := d\<rparr>,
             ss_mtime := (if dk_write_left (bm_disk (ss_box s)) path = None then ss_mtime s
                          else (ss_mtime s)(path := clk 0))\<rparr>)
      | (None, d) \<Rightarrow>
          ([], s\<lparr>ss_box := (ss_box s)\<lparr>bm_disk := d\<rparr>, ss_mtime := (ss_mtime s)(path := clk 0),
                 ss_lastSubHash := computeNodesHash ns, ss_lastNodesModTime := clk 0,
                 ss_status := (ss_status s)\<lparr>st_NodesModified := False\<rparr>\<rparr>))"

definition refresh_work :: "sub_env \<Rightarrow> (nat \<Rightarrow> time) \<Rightarrow> sub_state \<Rightarrow> sub_state option" where
  "refresh_work env clk s =
     (if ss_subscriptions s = [] then
        Some (refresh_failed ''no subscriptions configured'' (clk 1) s)
      else
        (case fetchAllSubscriptions (be_cfg (se_bm env)) (ss_subscriptions s) of
           Inl e \<Rightarrow> Some (refresh_failed e (clk 1) s)
         | Inr ns \<Rightarrow>
             if ns = [] then Some (refresh_failed ''no nodes fetched'' (clk 1) s)
             else
               (case bm_cfg (ss_box s) of
                  None \<Rightarrow> None
                | Some c \<Rightarrow>
                    (case refresh_write env clk (nodes_file_path c) ns s of
                       (writeErr, s1) \<Rightarrow>
                         (case ReloadWithPortMap (se_bm env)
                                 (Some (createNewConfig (be_cfg (se_bm env)) ns c))
                                 (BuildPortMap c) (ss_box s1) of
                            None \<Rightarrow> None
                          | Some (Some e, b) \<Rightarrow>
                              Some (refresh_failed
                                (if writeErr \<noteq> [] then writeErr @ ''; '' @ bm_error_text e
                                 else bm_error_text e)
                                (clk 1) (s1\<lparr>ss_box := b\<rparr>))
                          | Some (None, b) \<Rightarrow>
                              Some (s1\<lparr>ss_box := b,
                                ss_status := (ss_status s1)
                                  \<lparr>st_LastRefresh := clk 1, st_NodeCount := int (length ns),
                                   st_LastError := writeErr\<rparr>\<rparr>))))))"

definition doRefresh :: "sub_env \<Rightarrow> (nat \<Rightarrow> time) \<Rightarrow> sub_state \<Rightarrow> sub_state option" where
  "doRefresh env clk s =
     (if ss_refreshMu s then Some s
      else
        map_option
          (\<lambda>s1. s1\<lparr>ss_refreshMu := False,
                   ss_status := (ss_status s1)
                     \<lparr>st_IsRefreshing := False, st_RefreshCount := st_RefreshCount (ss_status s1) + 1\<rparr>\<rparr>)
          (refresh_work env clk
             (s\<lparr>ss_refreshMu := True, ss_status := (ss_status s)\<lparr>st_IsRefreshing := True\<rparr>\<rparr>)))"

section \<open>Settings and requests\<close>

text \<open>A send on a full channel is dropped.\<close>

definition UpdateSettings :: "string list \<Rightarrow> refresh_config \<Rightarrow> sub_state \<Rightarrow> sub_state" where
  "UpdateSettings subs rc s =
     (let subsChanged = (ss_subscriptions s \<noteq> subs);
          turnedOn = (\<not> rc_Enabled (ss_refreshCfg s) \<and> rc_Enabled rc);
          s1 = s\<lparr>ss_subscriptions := subs, ss_refreshCfg := rc\<rparr>;
          s2 = (if (subsChanged \<or> turnedOn) \<and> subs \<noteq> [] then s1\<lparr>ss_manualRefresh := True\<rparr> else s1)
      in s2\<lparr>ss_configChanged := True\<rparr>)"

text \<open>
  \<open>RefreshNow\<close>: the request and the count it starts from, then the polling of the status, where
  \<open>None\<close> is the end of its waiting time.  \<open>None\<close> as a result means that it still waits.
\<close>

definition refresh_request :: "sub_env \<Rightarrow> sub_state \<Rightarrow> int \<times> sub_state" where
  "refresh_request env s =
     (case Status env (s\<lparr>ss_manualRefresh := True\<rparr>) of (st, s') \<Rightarrow> (st_RefreshCount st, s'))"

fun refresh_poll :: "int \<Rightarrow> sub_status option list \<Rightarrow> string option option" where
  "refresh_poll startCount [] = None"
| "refresh_poll startCount (None # rounds) = Some (Some ''refresh timeout'')"
| "refresh_poll startCount (Some st # rounds) =
     (if startCount < st_RefreshCount st then
        Some (if st_LastError st \<noteq> [] then Some (''refresh failed: '' @ st_LastError st) else None)
      else refresh_poll startCount rounds)"

section \<open>The loop\<close>

datatype loop_at = Recheck | Waiting | Ticking duration | Stopped

definition set_next :: "time \<Rightarrow> sub_state \<Rightarrow> sub_state" where
  "set_next t s = s\<lparr>ss_status := (ss_status s)\<lparr>st_NextRefresh := t\<rparr>\<rparr>"

definition loop_enter :: "time \<Rightarrow> sub_state \<Rightarrow> loop_at \<times> sub_state" where
  "loop_enter now s =
     (let interval = (if rc_Interval (ss_refreshCfg s) \<le> 0 then 1 * hour else rc_Interval (ss_refreshCfg s))
      in if rc_Enabled (ss_refreshCfg s) \<and> ss_subscriptions s \<noteq> []
         then (Ticking interval, set_next (now + interval) s)
         else (Waiting, set_next 0 s))"

text \<open>One step of the loop, with the channel it serves.\<close>

inductive loop_step :: "sub_env \<Rightarrow> loop_at \<times> sub_state \<Rightarrow> loop_at \<times> sub_state \<Rightarrow> bool" for env where
  loop_recheck: "loop_step env (Recheck, s) (loop_enter now s)"
| loop_stop: "m \<noteq> Recheck \<Longrightarrow> m \<noteq> Stopped \<Longrightarrow> loop_step env (m, s) (Stopped, s)"
| loop_wait_manual:
    "ss_manualRefresh s \<Longrightarrow> doRefresh env clk (s\<lparr>ss_manualRefresh := False\<rparr>) = Some s' \<Longrightarrow>
     loop_step env (Waiting, s) (Recheck, s')"
| loop_wait_changed:
    "ss_configChanged s \<Longrightarrow> loop_step env (Waiting, s) (Recheck, s\<lparr>ss_configChanged := False\<rparr>)"
| loop_tick:
    "doRefresh env clk s = Some s' \<Longrightarrow>
     loop_step env (Ticking i, s) (Ticking i, set_next (clk 2 + i) s')"
| loop_tick_manual:
    "ss_manualRefresh s \<Longrightarrow> doRefresh env clk (s\<lparr>ss_manualRefresh := False\<rparr>) = Some s' \<Longrightarrow>
     loop_step env (Ticking i, s) (Ticking i, set_next (clk 2 + i) s')"
| loop_tick_changed:
    "ss_configChanged s \<Longrightarrow> loop_step env (Ticking i, s) (Recheck, s\<lparr>ss_configChanged := False\<rparr>)"

text \<open>What others do meanwhile: the settings page, status requests, edits of the nodes file.\<close>

definition edit_file :: "string \<Rightarrow> string \<Rightarrow> time \<Rightarrow> sub_state \<Rightarrow> sub_state" where
  "edit_file path content t s =
     s\<lparr>ss_box := (ss_box s)\<lparr>bm_disk := (bm_disk (ss_box s))
           \<lparr>dk_files := (dk_files (bm_disk (ss_box s)))(path \<mapsto> content)\<rparr>\<rparr>,
       ss_mtime := (ss_mtime s)(path := t)\<rparr>"

inductive sub_step :: "sub_env \<Rightarrow> loop_at \<times> sub_state \<Rightarrow> loop_at \<times> sub_state \<Rightarrow> bool" for env where
  sub_loop: "loop_step env x y \<Longrightarrow> sub_step env x y"
| sub_settings: "sub_step env (m, s) (m, UpdateSettings subs rc s)"
| sub_request: "sub_step env (m, s) (m, snd (refresh_request env s))"
| sub_status: "sub_step env (m, s) (m, snd (Status env s))"
| sub_mark: "sub_step env (m, s) (m, MarkNodesModified s)"
| sub_edit: "sub_step env (m, s) (m, edit_file path content t s)"
| sub_box: "box_step (se_bm env) (ss_box s) b \<Longrightarrow> sub_step env (m, s) (m, s\<lparr>ss_box := b\<rparr>)"

definition sub_Start :: "sub_state \<Rightarrow> bool \<times> sub_state" where
  "sub_Start s = (if ss_started s then (False, s) else (True, s\<lparr>ss_started := True\<rparr>))"

definition sub_reachable :: "sub_env \<Rightarrow> loop_at \<times> sub_state \<Rightarrow> bool" where
  "sub_reachable env x \<longleftrightarrow>
     (\<exists>box mtime. box_reachable (se_bm env) box \<and>
        (sub_step env)\<^sup>*\<^sup>* (Recheck, snd (sub_Start (sub_New env box mtime))) x)"

inductive_cases loop_stepE: "loop_step env x y"
inductive_cases sub_stepE: "sub_step env x y"

end
