(* ===== verification/Sub_Refresh.thy ===== *)
theory Sub_Refresh
  imports Subscription
begin

text \<open>
  What the subscription manager's operations achieve: what is fetched, the outcome of a refresh,
  which edits of the nodes file are noticed, and that every request for a refresh is served.
\<close>

section \<open>Fetching\<close>

definition fetched :: "cfg_env \<Rightarrow> string \<Rightarrow> node_config list" where
  "fetched env u = (case fetchSubscription env u of Inl _ \<Rightarrow> [] | Inr ns \<Rightarrow> ns)"

definition fetch_errors :: "cfg_env \<Rightarrow> string list \<Rightarrow> string list" where
  "fetch_errors env us =
     concat (map (\<lambda>u. case fetchSubscription env u of Inl e \<Rightarrow> [e] | Inr _ \<Rightarrow> []) us)"

lemma fetch_loop_eq:
  "fetch_loop env us acc le =
     (let all = acc @ concat (map (fetched env) us);
          errs = (case le of None \<Rightarrow> [] | Some e \<Rightarrow> [e]) @ fetch_errors env us
      in if all = [] \<and> errs \<noteq> [] then Inl (last errs) else Inr all)"
proof (induction us arbitrary: acc le)
  case Nil
  show ?case by (simp add: fetch_errors_def Let_def split: option.split)
next
  case (Cons u us)
  show ?case
    by (cases "fetchSubscription env u")
      (auto simp: Cons.IH fetched_def fetch_errors_def Let_def split: option.split)
qed

text \<open>What an answer is worth, and the nodes of the first user agent whose answer has some.\<close>

definition answer_nodes :: "cfg_env \<Rightarrow> http_result \<Rightarrow> node_config list" where
  "answer_nodes env r =
     (case r of
        Response st body \<Rightarrow>
          if st = 200 then
            (case ParseSubscriptionContent (ce_yaml_clash env) body of Inl _ \<Rightarrow> [] | Inr ns \<Rightarrow> ns)
          else []
      | _ \<Rightarrow> [])"

lemma fetch_agents_nodes:
  "fetch_agents env u uas le = Inr ns \<Longrightarrow> le \<noteq> None \<or> uas \<noteq> [] \<Longrightarrow>
   ns \<noteq> [] \<and> (\<exists>ua \<in> set uas. answer_nodes env (ce_http env u ua) = ns)"
proof (induction uas arbitrary: le)
  case (Cons ua uas)
  show ?case
  proof (cases "\<exists>e. fetch_agents env u uas (Some e) = Inr ns")
    case True
    then obtain e where "fetch_agents env u uas (Some e) = Inr ns" by blast
    from Cons.IH [OF this] show ?thesis by auto
  next
    case False
    then have no: "fetch_agents env u uas (Some e) \<noteq> Inr ns" for e by blast
    from Cons.prems(1) have "ns \<noteq> [] \<and> answer_nodes env (ce_http env u ua) = ns"
      by (cases "ce_http env u ua")
        (simp_all add: answer_nodes_def no split: if_splits sum.splits)
    then show ?thesis by auto
  qed
qed (auto split: option.splits)

lemma fetched_answer:
  "fetched env u = [] \<or>
   (\<exists>ua \<in> set userAgents. fetched env u = answer_nodes env (ce_http env (NormalizeSubscriptionURL u) ua))"
proof (cases "fetchSubscription env u")
  case (Inr ns)
  then have "fetch_agents env (NormalizeSubscriptionURL u) userAgents None = Inr ns"
    by (auto simp: fetchSubscription_def Let_def split: if_splits)
  from fetch_agents_nodes [OF this] Inr show ?thesis
    by (auto simp: fetched_def userAgents_def)
qed (simp add: fetched_def)

text \<open>
  Partial fetches.  The nodes fetched are those of all subscriptions that could be read, in
  the order of the settings; the failure of one does not lose the others.  Those of one subscription
  are the whole answer to one of the user agents.  There is an error only when none gave a node,
  and it is the last one that occurred.
\<close>

theorem fetch_all_partial:
  "fetchAllSubscriptions env us =
     (if concat (map (fetched env) us) = [] \<and> fetch_errors env us \<noteq> []
      then Inl (last (fetch_errors env us))
      else Inr (concat (map (fetched env) us))) \<and>
   (fetched env u = [] \<or>
    (\<exists>ua \<in> set userAgents. fetched env u = answer_nodes env (ce_http env (NormalizeSubscriptionURL u) ua)))"
  using fetched_answer [of env u] by (simp add: fetchAllSubscriptions_def fetch_loop_eq Let_def)

section \<open>Error texts\<close>

lemma ParseSubscriptionContent_error: "ParseSubscriptionContent yc t = Inl e \<Longrightarrow> e \<noteq> []"
  by (auto simp: ParseSubscriptionContent_def parseClashYAML_def html_error_def Let_def
      split: if_splits option.splits sum.splits)

lemma fetch_agents_error:
  "fetch_agents env u uas le = Inl e \<Longrightarrow> le \<noteq> Some [] \<Longrightarrow> e \<noteq> []"
proof (induction uas arbitrary: le)
  case (Cons ua uas)
  then show ?case
    by (auto split: http_result.splits if_splits sum.splits dest: ParseSubscriptionContent_error)
qed (auto split: option.splits)

lemma fetchAll_error: "fetchAllSubscriptions env us = Inl e \<Longrightarrow> e \<noteq> []"
proof -
  assume "fetchAllSubscriptions env us = Inl e"
  then have "e = last (fetch_errors env us)" "fetch_errors env us \<noteq> []"
    by (auto simp: fetchAllSubscriptions_def fetch_loop_eq Let_def split: if_splits)
  then have "e \<in> set (fetch_errors env us)" by simp
  then obtain u where "fetchSubscription env u = Inl e"
    by (auto simp: fetch_errors_def split: sum.splits)
  then show ?thesis
    using fetch_agents_error [of env _ userAgents None e]
    by (auto simp: fetchSubscription_def Let_def split: if_splits)
qed

lemma Reload_error: "Reload env co s = Some (Some e, s') \<Longrightarrow> \<exists>t. e = Failed t \<and> t \<noteq> []"
  by (auto simp: Reload_def split: option.splits prod.splits boot_result.splits)

lemma ReloadWithPortMap_error:
  "ReloadWithPortMap env co pm s = Some (Some e, s') \<Longrightarrow> bm_error_text e \<noteq> []"
  by (auto simp: ReloadWithPortMap_def bm_error_text_def dest: Reload_error
      split: option.splits sum.splits if_splits)

section \<open>The nodes of a refreshed configuration\<close>

lemma preserve_ports_uris:
  "preserve_ports c pm idx used ns = Inr (ns', used') \<Longrightarrow>
   map nc_URI ns' = map (\<lambda>n. TrimSpace (nc_URI n)) ns"
  by (induction ns arbitrary: idx used ns' used')
    (auto simp: Let_def trim_node_def split: if_splits sum.splits option.splits)

lemma fill_ports_uris:
  "fill_ports env c cursor used ns = Some (Inr ns') \<Longrightarrow> map nc_URI ns' = map nc_URI ns"
  by (induction ns arbitrary: cursor used ns')
    (auto simp: default_creds_def split: if_splits sum.splits option.splits)

lemma NormalizeWithPortMap_uris:
  assumes "NormalizeWithPortMap env pm c0 = Some (Inr c)"
  shows "map nc_URI (cf_Nodes c) = map (\<lambda>n. TrimSpace (nc_URI n)) (cf_Nodes c0)"
  using assms
  by (auto simp: NormalizeWithPortMap_def dest!: apply_defaults_fields preserve_ports_uris fill_ports_uris
      split: sum.splits option.splits)

lemma name_nodes_uris:
  "map nc_URI (name_nodes env i ns) = map (\<lambda>n. TrimSpace (nc_URI n)) ns"
  by (induction ns arbitrary: i) (simp_all add: trim_node_def Let_def)

lemma number_nodes_uris: "map nc_URI (number_nodes c p ns) = map nc_URI ns"
  by (induction ns arbitrary: p) (simp_all add: Let_def)

lemma createNewConfig_uris:
  "map nc_URI (cf_Nodes (createNewConfig env ns c)) = map (\<lambda>n. TrimSpace (nc_URI n)) ns"
proof -
  have "map (\<lambda>n. TrimSpace (nc_URI n)) (number_nodes c p ns) = map (\<lambda>n. TrimSpace (nc_URI n)) ns" for p
    by (induction ns arbitrary: p) (simp_all add: Let_def)
  then show ?thesis by (simp add: createNewConfig_def name_nodes_uris)
qed

lemma ports_changed_uris:
  assumes "ports_changed c c'"
  shows "map nc_URI (cf_Nodes c') = map nc_URI (cf_Nodes c)"
proof -
  have "list_all2 (\<lambda>n n'. nc_URI n' = nc_URI n) (cf_Nodes c) (cf_Nodes c')"
  proof (rule list.rel_mono_strong)
    show "list_all2 (\<lambda>n n'. n' = n\<lparr>nc_Port := nc_Port n'\<rparr>) (cf_Nodes c) (cf_Nodes c')"
      using assms by (simp add: ports_changed_def)
  next
    fix n n' :: node_config
    assume "n' = n\<lparr>nc_Port := nc_Port n'\<rparr>"
    then obtain p where "n' = n\<lparr>nc_Port := p\<rparr>" by blast
    then show "nc_URI n' = nc_URI n" by simp
  qed
  then show ?thesis
    by (induction rule: list_all2_induct) simp_all
qed

section \<open>The outcome of a refresh\<close>

lemma reload_uris:
  assumes "ReloadWithPortMap env (Some c0) pm s = Some (None, s')"
    and "map (\<lambda>n. TrimSpace (nc_URI n)) (cf_Nodes c0) = map nc_URI (cf_Nodes c0)"
  shows "\<exists>c. bm_cfg s' = Some c \<and> map nc_URI (cf_Nodes c) = map nc_URI (cf_Nodes c0)"
proof -
  obtain c1 where c1: "Reload env (Some c1) s = Some (None, s')"
    "map nc_URI (cf_Nodes c1) = map nc_URI (cf_Nodes c0)"
    using assms by (auto simp: ReloadWithPortMap_def dest: NormalizeWithPortMap_uris
        split: option.splits sum.splits if_splits)
  from c1(1) show ?thesis
  proof (cases rule: Reload_cases)
    case (booted bo c s1)
    from ports_changed_uris [OF booted(4)] booted(3) c1(2) show ?thesis
      by (auto simp: reload_commit_cfg split: option.split)
  qed simp
qed

lemma ReloadWithPortMap_fails:
  assumes "ReloadWithPortMap env co pm s = Some (Some e, s')"
  shows "bm_cfg s' = bm_cfg s"
proof -
  have "bm_cfg s' = bm_cfg s" if "Reload env (Some c) s = Some (Some e, s')" for c
    using that
  proof (cases rule: Reload_cases)
    case (rolled_back r co s1)
    have "bm_cfg (rollbackToOldConfig env (bm_cfg s) s1) = bm_cfg s1"
      by (cases "createBox env (bm_cfg s) s1")
        (auto simp: rollbackToOldConfig_def dest: createBox_frame split: sum.splits option.splits)
    with boot_loop_frame [OF rolled_back(1)] reload_begin_frame [of s] rolled_back(4) show ?thesis by simp
  qed simp
  with assms show ?thesis
    by (auto simp: ReloadWithPortMap_def split: option.splits sum.splits if_splits)
qed

lemma createBox_disk: "createBox env co s = (r, s1) \<Longrightarrow> bm_disk s1 = bm_disk s"
  using createBox_frame by blast

lemma rollback_disk: "bm_disk (rollbackToOldConfig env co s) = bm_disk s"
  by (cases "createBox env co s")
    (auto simp: rollbackToOldConfig_def dest: createBox_disk split: sum.splits option.splits)

lemma reload_commit_disk: "bm_disk (reload_commit bo c s) = bm_disk s"
  by (simp add: reload_commit_def start_health_def applyConfigSettings_def Let_def)

lemma Reload_disk:
  assumes "Reload env co s = Some (e, s')"
  shows "bm_disk s' = bm_disk s"
proof (cases co)
  case (Some c)
  have opened: "bm_disk (reload_begin s) = bm_disk s"
    by (simp add: reload_begin_def close_box_def Let_def split: option.split)
  from assms [unfolded Some] show ?thesis
  proof (cases rule: Reload_cases)
    case (booted bo c' s1)
    with boot_loop_frame [OF booted(1)] opened show ?thesis by (simp add: reload_commit_disk)
  next
    case (rolled_back r co s1)
    with boot_loop_frame [OF rolled_back(1)] opened show ?thesis by (simp add: rollback_disk)
  qed
qed (use assms in \<open>simp add: Reload_def\<close>)

lemma ReloadWithPortMap_disk:
  "ReloadWithPortMap env co pm s = Some (e, s') \<Longrightarrow> bm_disk s' = bm_disk s"
  by (auto simp: ReloadWithPortMap_def dest: Reload_disk split: option.splits sum.splits if_splits)

lemma refresh_write_cases:
  assumes "refresh_write env clk path ns s = (werr, s1)"
  shows "bm_cfg (ss_box s1) = bm_cfg (ss_box s) \<and>
    st_RefreshCount (ss_status s1) = st_RefreshCount (ss_status s) \<and>
    (if werr = [] then dk_files (bm_disk (ss_box s1)) path = Some (nodes_text ns)
     else HasPrefix werr ''write nodes.txt failed: '' \<and>
       ss_box s1 = (ss_box s)\<lparr>bm_disk := bm_disk (ss_box s1)\<rparr>)"
  using assms
  by (auto simp: refresh_write_def writeNodesToFile_def WriteFile_def split: option.splits)

text \<open>What is there to be known after a refresh that did its work.\<close>

definition refreshed :: "sub_env \<Rightarrow> sub_state \<Rightarrow> sub_state \<Rightarrow> bool" where
  "refreshed env s s' \<longleftrightarrow>
     (\<exists>ns c c'. fetchAllSubscriptions (be_cfg (se_bm env)) (ss_subscriptions s) = Inr ns \<and> ns \<noteq> [] \<and>
        st_NodeCount (ss_status s') = int (length ns) \<and>
        bm_cfg (ss_box s) = Some c \<and> bm_cfg (ss_box s') = Some c' \<and>
        map nc_URI (cf_Nodes c') = map (\<lambda>n. TrimSpace (nc_URI n)) ns \<and>
        (st_LastError (ss_status s') = [] \<longrightarrow>
           dk_files (bm_disk (ss_box s')) (nodes_file_path c) = Some (nodes_text ns)))"

lemma TrimSpace_uris:
  "map (\<lambda>n. TrimSpace (nc_URI n)) (cf_Nodes (createNewConfig env ns c)) =
   map nc_URI (cf_Nodes (createNewConfig env ns c))"
proof -
  have "map TrimSpace (map nc_URI (cf_Nodes (createNewConfig env ns c))) =
      map nc_URI (cf_Nodes (createNewConfig env ns c))"
    unfolding createNewConfig_uris by simp
  then show ?thesis by (simp add: comp_def)
qed

text \<open>The ways a refresh can go.\<close>

lemma refresh_work_cases:
  assumes "refresh_work env clk s = Some s'"
  obtains (failed) e where "s' = refresh_failed e (clk 1) s" "e \<noteq> []"
    | (worked) ns c werr s1 r b where
      "fetchAllSubscriptions (be_cfg (se_bm env)) (ss_subscriptions s) = Inr ns" "ns \<noteq> []"
      "bm_cfg (ss_box s) = Some c" "refresh_write env clk (nodes_file_path c) ns s = (werr, s1)"
      "ReloadWithPortMap (se_bm env) (Some (createNewConfig (be_cfg (se_bm env)) ns c)) (BuildPortMap c)
         (ss_box s1) = Some (r, b)"
      "s' = (case r of
         Some e \<Rightarrow> refresh_failed (if werr \<noteq> [] then werr @ ''; '' @ bm_error_text e else bm_error_text e)
             (clk 1) (s1\<lparr>ss_box := b\<rparr>)
       | None \<Rightarrow> s1\<lparr>ss_box := b, ss_status := (ss_status s1)\<lparr>st_LastRefresh := clk 1,
             st_NodeCount := int (length ns), st_LastError := werr\<rparr>\<rparr>)"
proof (cases "ss_subscriptions s = []")
  case True
  with assms have "s' = refresh_failed ''no subscriptions configured'' (clk 1) s"
    by (simp add: refresh_work_def)
  then show thesis by (rule failed) simp
next
  case subs: False
  show thesis
  proof (cases "fetchAllSubscriptions (be_cfg (se_bm env)) (ss_subscriptions s)")
    case (Inl e)
    with assms subs have "s' = refresh_failed e (clk 1) s" by (simp add: refresh_work_def)
    then show thesis by (rule failed) (rule fetchAll_error [OF Inl])
  next
    case (Inr ns)
    show thesis
    proof (cases "ns = []")
      case True
      with assms subs Inr have "s' = refresh_failed ''no nodes fetched'' (clk 1) s"
        by (simp add: refresh_work_def)
      then show thesis by (rule failed) simp
    next
      case False
      with assms subs Inr obtain c where c: "bm_cfg (ss_box s) = Some c"
        by (auto simp: refresh_work_def split: option.splits)
      obtain werr s1 where w: "refresh_write env clk (nodes_file_path c) ns s = (werr, s1)"
        by fastforce
      obtain r b where rel: "ReloadWithPortMap (se_bm env)
          (Some (createNewConfig (be_cfg (se_bm env)) ns c)) (BuildPortMap c) (ss_box s1) = Some (r, b)"
        using assms subs Inr False c w by (auto simp: refresh_work_def split: option.splits)
      show thesis
        by (rule worked [OF Inr False c w rel])
          (use assms subs Inr False c w rel in \<open>auto simp: refresh_work_def split: option.splits\<close>)
    qed
  qed
qed

lemma refresh_work_outcome:
  assumes "refresh_work env clk s = Some s'"
  shows "st_LastRefresh (ss_status s') = clk 1 \<and>
    st_RefreshCount (ss_status s') = st_RefreshCount (ss_status s) \<and>
    (refreshed env s s' \<and>
       (st_LastError (ss_status s') = [] \<or> HasPrefix (st_LastError (ss_status s')) ''write nodes.txt failed: '') \<or>
     st_LastError (ss_status s') \<noteq> [] \<and> bm_cfg (ss_box s') = bm_cfg (ss_box s))"
proof -
  from assms show ?thesis
  proof (cases rule: refresh_work_cases)
    case (failed e)
    then show ?thesis by (simp add: refresh_failed_def)
  next
    case (worked ns c werr s1 r b)
    note w = refresh_write_cases [OF worked(4)]
    show ?thesis
    proof (cases r)
      case (Some e)
      note rel = worked(5) [unfolded Some]
      have "bm_cfg b = bm_cfg (ss_box s)"
        using ReloadWithPortMap_fails [OF rel] w by simp
      moreover have "bm_error_text e \<noteq> []" by (rule ReloadWithPortMap_error [OF rel])
      ultimately show ?thesis
        using worked(6) Some w by (simp add: refresh_failed_def)
    next
      case None
      obtain c' where c': "bm_cfg b = Some c'"
        "map nc_URI (cf_Nodes c') = map (\<lambda>n. TrimSpace (nc_URI n)) ns"
        using reload_uris [OF worked(5) [unfolded None] TrimSpace_uris] createNewConfig_uris by metis
      have "refreshed env s s'"
        using worked None w c' ReloadWithPortMap_disk [OF worked(5)]
        by (auto simp: refreshed_def split: if_splits)
      with worked None w show ?thesis by (auto split: if_splits)
    qed
  qed
qed

lemma refresh_work_begin:
  "refreshed env (s\<lparr>ss_refreshMu := x, ss_status := y\<rparr>) s' \<longleftrightarrow> refreshed env s s'"
  by (simp add: refreshed_def)

text \<open>
  C34. The outcome of a refresh.  A refresh that returns has counted itself, is over and carries its
  time.  Either it did its work: the nodes of the running configuration are exactly the fetched
  ones, in order, their number is reported, and, when no error is reported, the nodes file holds
  them; the one error possible then is that the file could not be written.  Or it reports an error
  and the configuration is the one of before.
\<close>

theorem refresh_outcome:
  assumes "doRefresh env clk s = Some s'" and "\<not> ss_refreshMu s"
  shows "st_RefreshCount (ss_status s') = st_RefreshCount (ss_status s) + 1 \<and>
    \<not> st_IsRefreshing (ss_status s') \<and> \<not> ss_refreshMu s' \<and> st_LastRefresh (ss_status s') = clk 1 \<and>
    (refreshed env s s' \<and>
       (st_LastError (ss_status s') = [] \<or> HasPrefix (st_LastError (ss_status s')) ''write nodes.txt failed: '') \<or>
     st_LastError (ss_status s') \<noteq> [] \<and> bm_cfg (ss_box s') = bm_cfg (ss_box s))"
proof -
  let ?s = "s\<lparr>ss_refreshMu := True, ss_status := (ss_status s)\<lparr>st_IsRefreshing := True\<rparr>\<rparr>"
  obtain s1 where s1: "refresh_work env clk ?s = Some s1"
    "s' = s1\<lparr>ss_refreshMu := False, ss_status := (ss_status s1)
        \<lparr>st_IsRefreshing := False, st_RefreshCount := st_RefreshCount (ss_status s1) + 1\<rparr>\<rparr>"
    using assms by (auto simp: doRefresh_def)
  from refresh_work_outcome [OF s1(1)] show ?thesis
    by (auto simp: s1(2) refreshed_def)
qed

definition demo_sub_env :: "string \<Rightarrow> sub_env" where
  "demo_sub_env body =
     \<lparr>se_bm = demo_bm_env\<lparr>be_cfg := demo_yaml_env\<lparr>ce_http := \<lambda>u ua. Response 200 body\<rparr>\<rparr>,
      se_is_dir = \<lambda>_. False\<rparr>"

definition demo_sub :: "string list \<Rightarrow> sub_state" where
  "demo_sub subs =
     (sub_New (demo_sub_env []) (ensureMonitor (demo_bm ''pool'')) (\<lambda>_. 0))
       \<lparr>ss_subscriptions := subs\<rparr>"

lemma demo_sub_frame:
  "\<not> ss_refreshMu (demo_sub subs)" "ss_subscriptions (demo_sub subs) = subs"
  "st_RefreshCount (ss_status (demo_sub subs)) = 0"
  "ss_box (demo_sub subs) = ensureMonitor (demo_bm ''pool'')"
  by (simp_all add: demo_sub_def sub_New_def initNodesStateFromFile_def zero_status_def Let_def
      split: option.split sum.split)

theorem refresh_outcome_witness:
  "\<exists>s'. doRefresh (demo_sub_env ''<html>'') (\<lambda>_. 7) (demo_sub [''http://s'']) = Some s' \<and>
     st_RefreshCount (ss_status s') = 1 \<and> st_LastRefresh (ss_status s') = 7 \<and>
     st_LastError (ss_status s') \<noteq> []"
proof -
  have "fetchAllSubscriptions (be_cfg (se_bm (demo_sub_env ''<html>''))) [''http://s''] = Inl html_error"
    by code_simp
  then obtain s' where s': "doRefresh (demo_sub_env ''<html>'') (\<lambda>_. 7) (demo_sub [''http://s'']) = Some s'"
    "st_LastError (ss_status s') \<noteq> []"
    by (auto simp: doRefresh_def demo_sub_frame refresh_work_def refresh_failed_def html_error_def)
  from refresh_outcome [OF s'(1)] s' show ?thesis
    by (auto simp: demo_sub_frame)
qed

section \<open>Edits of the nodes file\<close>

text \<open>The URIs that the check sees in a text.\<close>

definition content_uris :: "string \<Rightarrow> string list" where
  "content_uris content = map nc_URI (nodes_of_content content)"

definition uris_sum :: "string list \<Rightarrow> nat list" where
  "uris_sum us = Sum256 (Join us [CHR 0x0A])"

lemma hex_digit_inj: "a < 16 \<Longrightarrow> b < 16 \<Longrightarrow> hex_digit a = hex_digit b \<Longrightarrow> a = b"
proof -
  have "distinct (map hex_digit [0, 1, 2, 3, 4, 5, 6, 7, 8, 9, 10, 11, 12, 13, 14, 15])" by code_simp
  then have inj: "inj_on hex_digit (set [0, 1, 2, 3, 4, 5, 6, 7, 8, 9, 10, 11, 12, 13, 14, 15])"
    by (simp only: distinct_map)
  have "{..<16} = set ([0, 1, 2, 3, 4, 5, 6, 7, 8, 9, 10, 11, 12, 13, 14, 15] :: nat list)"
    by (simp add: numeral_eq_Suc lessThan_Suc insert_commute)
  with inj have "inj_on hex_digit {..<16}" by simp
  moreover assume "a < 16" "b < 16" "hex_digit a = hex_digit b"
  ultimately show "a = b" by (simp add: inj_on_def)
qed

lemma EncodeToString_inj:
  "EncodeToString as = EncodeToString bs \<Longrightarrow> \<forall>x \<in> set as. x < 256 \<Longrightarrow> \<forall>x \<in> set bs. x < 256 \<Longrightarrow> as = bs"
proof (induction as arbitrary: bs)
  case (Cons a as)
  then obtain b bs' where bs: "bs = b # bs'"
    by (cases bs) (auto simp: EncodeToString_def)
  with Cons.prems have "hex_digit (a div 16) = hex_digit (b div 16)" "hex_digit (a mod 16) = hex_digit (b mod 16)"
    "EncodeToString as = EncodeToString bs'" "a < 256" "b < 256"
    by (auto simp: EncodeToString_def)
  moreover from this have "a div 16 = b div 16" "a mod 16 = b mod 16"
    by (auto intro: hex_digit_inj)
  then have "a = b" by (metis div_mult_mod_eq)
  ultimately show ?case using Cons.IH [of bs'] Cons.prems bs by simp
qed (auto simp: EncodeToString_def)

lemma Sum256_bytes: "x \<in> set (Sum256 s) \<Longrightarrow> x < 256"
  by (auto simp: Sum256_def Let_def big_endian_def)

lemma computeNodesHash_eq:
  "computeNodesHash ms = computeNodesHash ns \<longleftrightarrow> uris_sum (map nc_URI ms) = uris_sum (map nc_URI ns)"
  by (auto simp: computeNodesHash_def uris_sum_def dest: EncodeToString_inj Sum256_bytes
      intro!: arg_cong [where f = EncodeToString] EncodeToString_inj)

lemma computeNodesHash_nonempty: "computeNodesHash ns \<noteq> []"
proof -
  have "length (computeNodesHash ns) = 64"
    by (simp add: computeNodesHash_def length_EncodeToString length_Sum256)
  then show ?thesis by auto
qed

lemma NormalizeWithPortMap_path:
  "NormalizeWithPortMap env pm c0 = Some (Inr c) \<Longrightarrow>
   cf_NodesFile c = cf_NodesFile c0 \<and> cf_filePath c = cf_filePath c0"
  by (auto simp: NormalizeWithPortMap_def apply_defaults_def Let_def split: sum.splits option.splits if_splits)

lemma ports_changed_path:
  assumes "ports_changed c c'"
  shows "cf_NodesFile c' = cf_NodesFile c \<and> cf_filePath c' = cf_filePath c"
proof -
  obtain x where "c' = c\<lparr>cf_Nodes := x\<rparr>"
    using assms unfolding ports_changed_def by blast
  then show ?thesis by simp
qed

lemma reload_path:
  assumes "ReloadWithPortMap env (Some c0) pm s = Some (None, s')" "bm_cfg s = Some old"
    and "cf_filePath c0 = cf_filePath old" "bm_cfg s' = Some c'"
  shows "nodes_file_path c' = nodes_file_path c0"
proof -
  obtain c1 where c1: "Reload env (Some c1) s = Some (None, s')"
    "cf_NodesFile c1 = cf_NodesFile c0" "cf_filePath c1 = cf_filePath c0"
    using assms(1) by (auto simp: ReloadWithPortMap_def dest: NormalizeWithPortMap_path
        split: option.splits sum.splits if_splits)
  from c1(1) show ?thesis
  proof (cases rule: Reload_cases)
    case (booted bo c s1)
    have "bm_cfg s1 = Some old"
      using boot_loop_frame [OF booted(1)] reload_begin_frame [of s] assms(2) by simp
    with ports_changed_path [OF booted(4)] booted(3) c1 assms(3,4) show ?thesis
      by (auto simp: reload_commit_cfg nodes_file_path_def split: if_splits)
  qed simp
qed

text \<open>What a refresh without errors remembers of the file it wrote.\<close>

lemma refresh_remembers:
  assumes "doRefresh env clk s = Some s'" "\<not> ss_refreshMu s" "st_LastError (ss_status s') = []"
  shows "\<exists>ns c'. fetchAllSubscriptions (be_cfg (se_bm env)) (ss_subscriptions s) = Inr ns \<and>
    bm_cfg (ss_box s') = Some c' \<and> ss_lastSubHash s' = computeNodesHash ns \<and>
    ss_lastNodesModTime s' = clk 0 \<and> ss_mtime s' (nodes_file_path c') = clk 0 \<and>
    dk_write_err (bm_disk (ss_box s')) = dk_write_err (bm_disk (ss_box s)) \<and>
    dk_read_err (bm_disk (ss_box s')) = dk_read_err (bm_disk (ss_box s))"
proof -
  let ?s = "s\<lparr>ss_refreshMu := True, ss_status := (ss_status s)\<lparr>st_IsRefreshing := True\<rparr>\<rparr>"
  obtain t where t: "refresh_work env clk ?s = Some t"
    "s' = t\<lparr>ss_refreshMu := False, ss_status := (ss_status t)
        \<lparr>st_IsRefreshing := False, st_RefreshCount := st_RefreshCount (ss_status t) + 1\<rparr>\<rparr>"
    using assms(1,2) by (auto simp: doRefresh_def)
  have err: "st_LastError (ss_status t) = []" using assms(3) by (simp add: t(2))
  obtain ns c s1 b where ns: "fetchAllSubscriptions (be_cfg (se_bm env)) (ss_subscriptions s) = Inr ns"
    and c: "bm_cfg (ss_box s) = Some c"
    and w: "refresh_write env clk (nodes_file_path c) ns ?s = ([], s1)"
    and rel: "ReloadWithPortMap (se_bm env) (Some (createNewConfig (be_cfg (se_bm env)) ns c))
      (BuildPortMap c) (ss_box s1) = Some (None, b)"
    and t': "ss_box t = b" "ss_lastSubHash t = ss_lastSubHash s1" "ss_mtime t = ss_mtime s1"
      "ss_lastNodesModTime t = ss_lastNodesModTime s1"
    using t(1)
  proof (cases rule: refresh_work_cases)
    case (failed e)
    with err show thesis by (simp add: refresh_failed_def)
  next
    case (worked ns c werr s1 r b)
    have "r = None \<and> werr = []"
      using worked(5,6) err ReloadWithPortMap_error
      by (cases r) (auto simp: refresh_failed_def split: if_splits)
    with worked that show thesis by simp
  qed
  obtain d where d: "WriteFile (nodes_file_path c) (nodes_text ns) (bm_disk (ss_box s)) = (None, d)"
    and s1: "s1 = ?s\<lparr>ss_box := (ss_box s)\<lparr>bm_disk := d\<rparr>, ss_mtime := (ss_mtime s)(nodes_file_path c := clk 0),
        ss_lastSubHash := computeNodesHash ns, ss_lastNodesModTime := clk 0,
        ss_status := (ss_status ?s)\<lparr>st_NodesModified := False\<rparr>\<rparr>"
    using w by (auto simp: refresh_write_def writeNodesToFile_def split: prod.splits option.splits)
  have cfg1: "bm_cfg (ss_box s1) = Some c" by (simp add: s1 c)
  obtain c' where c': "bm_cfg b = Some c'"
    using reload_uris [OF rel TrimSpace_uris] by blast
  have "nodes_file_path c' = nodes_file_path (createNewConfig (be_cfg (se_bm env)) ns c)"
    by (rule reload_path [OF rel cfg1 _ c']) (simp add: createNewConfig_def)
  then have path: "nodes_file_path c' = nodes_file_path c"
    by (simp add: createNewConfig_def nodes_file_path_def)
  have "dk_write_err d = dk_write_err (bm_disk (ss_box s)) \<and> dk_read_err d = dk_read_err (bm_disk (ss_box s))"
    using d by (auto simp: WriteFile_def split: option.splits)
  then show ?thesis
    using ns c' path ReloadWithPortMap_disk [OF rel]
    by (auto simp: t(2) t' s1)
qed

lemma CheckNodesModified_edit:
  assumes "bm_cfg (ss_box s) = Some c" "ss_lastSubHash s = computeNodesHash ns"
    "ss_lastNodesModTime s < t" "dk_read_err (bm_disk (ss_box s)) (nodes_file_path c) = None"
  shows "CheckNodesModified env (edit_file (nodes_file_path c) content t s) =
    (uris_sum (content_uris content) \<noteq> uris_sum (map nc_URI ns),
     (edit_file (nodes_file_path c) content t s)\<lparr>ss_lastNodesModTime := t\<rparr>)"
  using assms
  by (simp add: CheckNodesModified_def edit_file_def Stat_def ReadFile_def computeNodesHash_nonempty
      computeNodesHash_eq content_uris_def Let_def)

lemma CheckNodesModified_old:
  assumes "bm_cfg (ss_box s) = Some c" "ss_mtime s (nodes_file_path c) \<le> ss_lastNodesModTime s"
  shows "CheckNodesModified env s = (False, s)"
  using assms by (simp add: CheckNodesModified_def Stat_def Let_def)

text \<open>
  Edits of the nodes file.  After a refresh without errors the file does not count as modified.
  Once somebody writes it later, it counts as modified exactly when the checksum of the URIs that
  are recognised in it is not that of the URIs that were fetched; so a change of comments or blank
  lines is none.
\<close>

theorem edits_noticed:
  assumes "doRefresh env clk s0 = Some s" "\<not> ss_refreshMu s0" "st_LastError (ss_status s) = []"
    and "fetchAllSubscriptions (be_cfg (se_bm env)) (ss_subscriptions s0) = Inr ns"
    and "bm_cfg (ss_box s) = Some c" "dk_read_err (bm_disk (ss_box s0)) (nodes_file_path c) = None"
    and "clk 0 < t"
  shows "\<not> fst (CheckNodesModified env s) \<and>
    (fst (CheckNodesModified env (edit_file (nodes_file_path c) content t s)) \<longleftrightarrow>
       uris_sum (content_uris content) \<noteq> uris_sum (map nc_URI ns))"
proof -
  from refresh_remembers [OF assms(1-3)] assms(4-6) have
    "ss_lastSubHash s = computeNodesHash ns" "ss_lastNodesModTime s = clk 0"
    "ss_mtime s (nodes_file_path c) = clk 0" "dk_read_err (bm_disk (ss_box s)) (nodes_file_path c) = None"
    by auto
  with CheckNodesModified_edit [OF assms(5) this(1), of t env content] CheckNodesModified_old [OF assms(5)] assms(7)
  show ?thesis by simp
qed

text \<open>
  The answer is given once: the check remembers the new time, so the next one finds nothing, and
  the status page loses the warning at its second look.
\<close>

lemma modification_reported_once:
  assumes "bm_cfg (ss_box s) = Some c" "ss_lastSubHash s = computeNodesHash ns"
    "ss_lastNodesModTime s < t" "dk_read_err (bm_disk (ss_box s)) (nodes_file_path c) = None"
  shows "\<not> st_NodesModified (fst (Status env (snd (Status env (edit_file (nodes_file_path c) content t s)))))"
proof -
  have "bm_cfg (ss_box (edit_file p x t s)) = bm_cfg (ss_box s)" for p x
    by (simp add: edit_file_def)
  then show ?thesis
    using CheckNodesModified_edit [OF assms, of env content]
      CheckNodesModified_old [where env = env and c = c and
        s = "(edit_file (nodes_file_path c) content t s)\<lparr>ss_lastNodesModTime := t\<rparr>"] assms(1)
    by (simp add: Status_def edit_file_def)
qed

text \<open>
  Fetched SOCKS nodes count for the checksum but are not recognised in the file: writing the very
  text of the refresh again is taken for an edit.
\<close>

lemma socks_nodes_seem_modified:
  "content_uris (nodes_text [uri_node ''socks5://h:1'']) = []"
  by code_simp

text \<open>A refresh of the demonstration that works.\<close>

definition demo_base :: config where
  "demo_base = (demo_config ''pool'' [demo_node ''a'' 24000])
     \<lparr>cf_filePath := ''/c.yaml'', cf_NodesFile := ''nodes.txt''\<rparr>"

lemma demo_refresh:
  "\<exists>s c. doRefresh (demo_sub_env ''ss://b'') (\<lambda>_. 7) (demo_sub [''http://s'']) = Some s \<and>
     st_LastError (ss_status s) = [] \<and> bm_cfg (ss_box s) = Some c \<and>
     dk_read_err (bm_disk (ss_box (demo_sub [''http://s'']))) = Map.empty"
proof -
  let ?env = "demo_sub_env ''ss://b''" and ?s = "demo_sub [''http://s'']"
  let ?t = "?s\<lparr>ss_refreshMu := True, ss_status := (ss_status ?s)\<lparr>st_IsRefreshing := True\<rparr>\<rparr>"
  have cfg: "bm_cfg (ss_box ?s) = Some demo_base"
    by (simp add: demo_sub_frame demo_bm_cfg demo_base_def)
  have disk: "bm_disk (ss_box ?s) = demo_disk"
    by (simp add: demo_sub_frame ensureMonitor_def demo_bm_def New_def applyConfigSettings_def Let_def)
  have path: "nodes_file_path demo_base = ''nodes.txt''" by (simp add: nodes_file_path_def demo_base_def)
  have ns: "fetchAllSubscriptions (be_cfg (se_bm ?env)) [''http://s''] = Inr [uri_node ''ss://b'']"
    by code_simp
  obtain s1 where s1: "refresh_write ?env (\<lambda>_. 7) ''nodes.txt'' [uri_node ''ss://b''] ?t = ([], s1)"
    "bm_monitorMgr (ss_box s1)" "bm_cfg (ss_box s1) = Some demo_base"
    by (simp add: refresh_write_def writeNodesToFile_def WriteFile_def disk demo_disk_def empty_disk_def cfg)
      (simp add: demo_sub_frame ensureMonitor_def)
  let ?c0 = "createNewConfig (be_cfg (se_bm ?env)) [uri_node ''ss://b''] demo_base"
  have map_ne: "BuildPortMap demo_base \<noteq> Map.empty"
    by (simp add: BuildPortMap_def demo_base_def demo_config_def demo_node_def uri_node_def)
  have c0: "cf_Nodes ?c0 = [(uri_node ''ss://b'')\<lparr>nc_Name := ''node-0''\<rparr>]" "cf_Mode ?c0 = ''pool''"
    by code_simp+
  obtain c1 where defs: "apply_defaults ?c0 = Inr c1"
    using c0(2) by (simp add: apply_defaults_def normal_mode_def Let_def)
  have c1: "cf_Nodes c1 = [(uri_node ''ss://b'')\<lparr>nc_Name := ''node-0''\<rparr>]" "cf_Mode c1 = ''pool''"
    using apply_defaults_fields [OF defs] c0 by (simp_all add: normal_mode_def Let_def)
  have trims: "TrimSpace ''ss://b'' = ''ss://b''" "TrimSpace ''node-0'' = ''node-0''" by code_simp+
  have fields: "nc_URI (uri_node u) = u" "nc_Port (uri_node u) = 0" for u
    by (simp_all add: uri_node_def)
  obtain c2 where norm: "NormalizeWithPortMap (be_cfg (se_bm ?env)) (BuildPortMap demo_base) ?c0 = Some (Inr c2)"
    by (simp add: NormalizeWithPortMap_def defs c1 trim_node_def fields trims Let_def
        multi_mode_def short_name_def)
  have env: "be_build (se_bm ?env) = (\<lambda>_. None)" "be_new (se_bm ?env) = (\<lambda>_ _. None)"
    "be_start (se_bm ?env) = (\<lambda>_ _. None)"
    by (simp_all add: demo_sub_env_def demo_bm_env_def)
  have m: "bm_monitorMgr (reload_begin (ss_box s1))"
    using s1(2) by (simp add: reload_begin_def close_box_def Let_def split: option.split)
  obtain b where rel: "ReloadWithPortMap (se_bm ?env) (Some ?c0) (BuildPortMap demo_base) (ss_box s1) = Some (None, b)"
    using boot_at_once [OF env m, of maxRetries None c2] norm map_ne
    by (simp add: ReloadWithPortMap_def Reload_def maxRetries_def)
  obtain c' where c': "bm_cfg b = Some c'"
    using reload_uris [OF rel TrimSpace_uris] by blast
  show ?thesis
    using ns cfg s1(1) rel c' path disk
    by (simp add: doRefresh_def demo_sub_frame refresh_work_def demo_disk_def empty_disk_def)
qed

theorem edits_noticed_witness:
  "\<exists>s c. bm_cfg (ss_box s) = Some c \<and> \<not> fst (CheckNodesModified (demo_sub_env ''ss://b'') s) \<and>
     \<not> fst (CheckNodesModified (demo_sub_env ''ss://b'')
        (edit_file (nodes_file_path c) (''# mine'' @ [CHR 0x0A] @ ''ss://b'') 8 s))"
proof -
  obtain s c where s: "doRefresh (demo_sub_env ''ss://b'') (\<lambda>_. 7) (demo_sub [''http://s'']) = Some s"
    "st_LastError (ss_status s) = []" "bm_cfg (ss_box s) = Some c"
    "dk_read_err (bm_disk (ss_box (demo_sub [''http://s'']))) = Map.empty"
    using demo_refresh by blast
  have "fetchAllSubscriptions (be_cfg (se_bm (demo_sub_env ''ss://b''))) (ss_subscriptions (demo_sub [''http://s'']))
      = Inr [uri_node ''ss://b'']"
    unfolding demo_sub_frame by code_simp
  moreover have "content_uris (''# mine'' @ [CHR 0x0A] @ ''ss://b'') = map nc_URI [uri_node ''ss://b'']"
    by code_simp
  ultimately show ?thesis
    using edits_noticed [OF s(1) demo_sub_frame(1) s(2) _ s(3), of "[uri_node ''ss://b'']" 8
        "''# mine'' @ [CHR 0x0A] @ ''ss://b''"] s(3,4)
    by auto
qed

section \<open>Requests and the loop\<close>

text \<open>What holds between the steps of the loop.\<close>

fun loop_ok :: "loop_at \<times> sub_state \<Rightarrow> bool" where
  "loop_ok (m, s) \<longleftrightarrow>
     \<not> ss_refreshMu s \<and> \<not> st_IsRefreshing (ss_status s) \<and> 0 \<le> st_RefreshCount (ss_status s) \<and>
     (m = Waiting \<longrightarrow> st_NextRefresh (ss_status s) = 0) \<and> (\<forall>i. m = Ticking i \<longrightarrow> 0 < i)"

lemma refresh_work_next:
  assumes "refresh_work env clk s = Some s'"
  shows "st_NextRefresh (ss_status s') = st_NextRefresh (ss_status s) \<and>
    ss_manualRefresh s' = ss_manualRefresh s \<and> ss_subscriptions s' = ss_subscriptions s \<and>
    ss_refreshCfg s' = ss_refreshCfg s \<and> ss_configChanged s' = ss_configChanged s"
  using assms
proof (cases rule: refresh_work_cases)
  case (failed e)
  then show ?thesis by (simp add: refresh_failed_def)
next
  case (worked ns c werr s1 r b)
  have "st_NextRefresh (ss_status s1) = st_NextRefresh (ss_status s) \<and>
    ss_manualRefresh s1 = ss_manualRefresh s \<and> ss_subscriptions s1 = ss_subscriptions s \<and>
    ss_refreshCfg s1 = ss_refreshCfg s \<and> ss_configChanged s1 = ss_configChanged s"
    using worked(4) by (auto simp: refresh_write_def split: prod.splits option.splits)
  with worked(6) show ?thesis
    by (cases r) (simp_all add: refresh_failed_def)
qed

lemma doRefresh_frame:
  assumes "doRefresh env clk s = Some s'" "\<not> ss_refreshMu s"
  shows "st_NextRefresh (ss_status s') = st_NextRefresh (ss_status s) \<and>
    ss_manualRefresh s' = ss_manualRefresh s \<and> ss_subscriptions s' = ss_subscriptions s \<and>
    \<not> ss_refreshMu s' \<and> \<not> st_IsRefreshing (ss_status s') \<and>
    st_RefreshCount (ss_status s') = st_RefreshCount (ss_status s) + 1"
proof -
  let ?s = "s\<lparr>ss_refreshMu := True, ss_status := (ss_status s)\<lparr>st_IsRefreshing := True\<rparr>\<rparr>"
  obtain t where t: "refresh_work env clk ?s = Some t"
    "s' = t\<lparr>ss_refreshMu := False, ss_status := (ss_status t)
        \<lparr>st_IsRefreshing := False, st_RefreshCount := st_RefreshCount (ss_status t) + 1\<rparr>\<rparr>"
    using assms by (auto simp: doRefresh_def)
  from refresh_work_next [OF t(1)] refresh_work_outcome [OF t(1)] show ?thesis
    by (simp add: t(2))
qed

lemma CheckNodesModified_frame:
  "CheckNodesModified env s = (b, s') \<Longrightarrow>
   ss_status s' = ss_status s \<and> ss_refreshMu s' = ss_refreshMu s \<and>
   ss_manualRefresh s' = ss_manualRefresh s \<and> ss_box s' = ss_box s"
  by (auto simp: CheckNodesModified_def Let_def split: if_splits option.splits sum.splits)

lemma Status_frame:
  "ss_status (snd (Status env s)) = ss_status s \<and> ss_refreshMu (snd (Status env s)) = ss_refreshMu s"
proof (cases "CheckNodesModified env s")
  case (Pair b s')
  with CheckNodesModified_frame [OF Pair] show ?thesis by (simp add: Status_def)
qed

lemma loop_ok_refresh:
  assumes "loop_ok (m, s)" "doRefresh env clk (s\<lparr>ss_manualRefresh := f\<rparr>) = Some s'"
  shows "loop_ok (Recheck, s') \<and> (0 < i \<longrightarrow> loop_ok (Ticking i, set_next t s'))"
proof -
  have s: "\<not> ss_refreshMu s" "0 \<le> st_RefreshCount (ss_status s)"
    using assms(1) by simp_all
  have "\<not> ss_refreshMu s' \<and> \<not> st_IsRefreshing (ss_status s') \<and> 0 \<le> st_RefreshCount (ss_status s')"
    using doRefresh_frame [OF assms(2)] s by simp
  then show ?thesis by (simp add: set_next_def)
qed

lemma loop_step_ok: "loop_step env x y \<Longrightarrow> loop_ok x \<Longrightarrow> loop_ok y"
proof (induction rule: loop_step.induct)
  case (loop_recheck s now)
  then show ?case by (simp add: loop_enter_def set_next_def hour_def second_def Let_def)
next
  case (loop_wait_manual s clk s')
  from loop_ok_refresh [OF loop_wait_manual(3,2)] show ?case by blast
next
  case (loop_tick clk s s' i)
  then have "0 < i" "doRefresh env clk (s\<lparr>ss_manualRefresh := ss_manualRefresh s\<rparr>) = Some s'" by simp_all
  with loop_ok_refresh [OF loop_tick(2) this(2)] show ?case by blast
next
  case (loop_tick_manual s clk s' i)
  then have "0 < i" by simp
  with loop_ok_refresh [OF loop_tick_manual(3,2)] show ?case by blast
qed auto

lemma sub_step_ok: "sub_step env x y \<Longrightarrow> loop_ok x \<Longrightarrow> loop_ok y"
proof (induction rule: sub_step.induct)
  case (sub_loop x y)
  then show ?case by (rule loop_step_ok)
next
  case (sub_request m s)
  then show ?case
    using Status_frame [of env "s\<lparr>ss_manualRefresh := True\<rparr>"]
    by (cases "Status env (s\<lparr>ss_manualRefresh := True\<rparr>)"; cases m) (simp_all add: refresh_request_def)
next
  case (sub_status m s)
  then show ?case using Status_frame [of env s] by (cases m) simp_all
qed (simp_all add: UpdateSettings_def MarkNodesModified_def edit_file_def Let_def)

lemma sub_reachable_ok:
  assumes "sub_reachable env x"
  shows "loop_ok x"
proof -
  obtain box mtime where start: "(sub_step env)\<^sup>*\<^sup>* (Recheck, snd (sub_Start (sub_New env box mtime))) x"
    using assms by (auto simp: sub_reachable_def)
  have "loop_ok (Recheck, snd (sub_Start (sub_New env box mtime)))"
    by (simp add: sub_Start_def sub_New_def initNodesStateFromFile_def zero_status_def Let_def
        split: option.split sum.split)
  with start show ?thesis
    by (induction rule: rtranclp_induct) (auto intro: sub_step_ok)
qed

text \<open>
  Requests for a refresh are served.  Between its steps the loop never holds the refresh lock.
  So while it waits or ticks, whenever settings with new sources, or automatic refreshing turned
  on, have been stored, and the reload returns, it can take the request at once: the step that
  takes it runs a refresh with the new sources, counts it, and leaves no request behind.
\<close>

theorem settings_refresh_served:
  assumes "sub_reachable env (m, s0)" and "m = Waiting \<or> (\<exists>i. m = Ticking i)"
    and "subs \<noteq> []" "subs \<noteq> ss_subscriptions s0 \<or> \<not> rc_Enabled (ss_refreshCfg s0) \<and> rc_Enabled rc"
    and "doRefresh env clk ((UpdateSettings subs rc s0)\<lparr>ss_manualRefresh := False\<rparr>) = Some s'"
  shows "ss_manualRefresh (UpdateSettings subs rc s0) \<and>
    (\<exists>m' s''. loop_step env (m, UpdateSettings subs rc s0) (m', s'') \<and> \<not> ss_manualRefresh s'' \<and>
       ss_subscriptions s'' = subs \<and>
       st_RefreshCount (ss_status s'') = st_RefreshCount (ss_status s0) + 1 \<and> ss_box s'' = ss_box s')"
proof -
  let ?s = "UpdateSettings subs rc s0"
  have pending: "ss_manualRefresh ?s" "ss_subscriptions ?s = subs"
    "ss_status ?s = ss_status s0" "\<not> ss_refreshMu ?s"
    using assms(3,4) sub_reachable_ok [OF assms(1)]
    by (auto simp: UpdateSettings_def Let_def)
  have after: "\<not> ss_manualRefresh s'" "ss_subscriptions s' = subs"
    "st_RefreshCount (ss_status s') = st_RefreshCount (ss_status s0) + 1"
    using doRefresh_frame [OF assms(5)] pending by auto
  from assms(2) show ?thesis
  proof
    assume "m = Waiting"
    with loop_wait_manual [OF pending(1) assms(5)] after pending(1) show ?thesis by auto
  next
    assume "\<exists>i. m = Ticking i"
    then obtain i where "m = Ticking i" ..
    moreover have "\<not> ss_manualRefresh (set_next t s')" "ss_subscriptions (set_next t s') = subs"
      "st_RefreshCount (ss_status (set_next t s')) = st_RefreshCount (ss_status s0) + 1"
      "ss_box (set_next t s') = ss_box s'" for t
      using after by (simp_all add: set_next_def)
    ultimately show ?thesis
      using loop_tick_manual [OF pending(1) assms(5), of i] pending(1) by blast
  qed
qed

theorem settings_refresh_served_witness:
  "\<exists>s0 m' s''. sub_reachable (demo_sub_env ''<html>'') (Waiting, s0) \<and>
     loop_step (demo_sub_env ''<html>'') (Waiting, UpdateSettings [''http://s''] zero_refresh s0) (m', s'') \<and>
     ss_subscriptions s'' = [''http://s''] \<and>
     st_RefreshCount (ss_status s'') = st_RefreshCount (ss_status s0) + 1"
proof -
  let ?env = "demo_sub_env ''<html>''"
  let ?s = "snd (sub_Start (sub_New ?env (demo_bm ''pool'') (\<lambda>_. 0)))"
  have subs: "ss_subscriptions ?s = []"
    by (simp add: sub_Start_def sub_New_def initNodesStateFromFile_def demo_bm_cfg demo_config_def
        zero_config_def Let_def split: option.split sum.split)
  have enter: "loop_enter 0 ?s = (Waiting, set_next 0 ?s)"
    by (simp only: loop_enter_def subs) (simp add: Let_def)
  have "box_reachable (se_bm ?env) (demo_bm ''pool'')"
    unfolding box_reachable_def demo_bm_def by blast
  moreover have "sub_step ?env (Recheck, ?s) (loop_enter 0 ?s)"
    by (intro sub_loop loop_recheck)
  ultimately have "sub_reachable ?env (Waiting, set_next 0 ?s)"
    unfolding sub_reachable_def enter by blast
  moreover have "ss_subscriptions (set_next 0 ?s) = []"
    using subs by (simp add: set_next_def)
  ultimately obtain s0 where reach: "sub_reachable ?env (Waiting, s0)" and none: "ss_subscriptions s0 = []"
    by blast
  have free: "\<not> ss_refreshMu s0"
    using sub_reachable_ok [OF reach] by simp
  have fetch: "fetchAllSubscriptions (be_cfg (se_bm ?env)) [''http://s''] = Inl html_error"
    by code_simp
  obtain s' where s': "doRefresh ?env (\<lambda>_. 7)
      ((UpdateSettings [''http://s''] zero_refresh s0)\<lparr>ss_manualRefresh := False\<rparr>) = Some s'"
    using free fetch none by (simp add: doRefresh_def UpdateSettings_def refresh_work_def Let_def)
  from settings_refresh_served [OF reach _ _ _ s'] none reach show ?thesis
    by auto
qed

section \<open>Where a refresh goes wrong\<close>

text \<open>
  In multi-port mode new nodes are numbered from the base port before the known ports are
  restored, so a new node can end up on the port of an old one.
\<close>

lemma refresh_port_collision:
  "let c = demo_config ''multi-port'' [demo_node ''a'' 28000];
       c0 = createNewConfig demo_yaml_env [uri_node ''ss://b'', uri_node ''ss://a'']
              (c\<lparr>cf_MultiPort := (cf_MultiPort c)\<lparr>mpc_BasePort := 28000\<rparr>\<rparr>)
   in map nc_Port (cf_Nodes c0) = [28000, 28001] \<and>
      map_option (map_sum id (\<lambda>c'. map nc_Port (cf_Nodes c')))
        (NormalizeWithPortMap demo_yaml_env [''ss://a'' \<mapsto> 28000] c0) = Some (Inr [28000, 28000])"
proof -
  let ?c = "demo_config ''multi-port'' [demo_node ''a'' 28000]"
  let ?c0 = "createNewConfig demo_yaml_env [uri_node ''ss://b'', uri_node ''ss://a'']
              (?c\<lparr>cf_MultiPort := (cf_MultiPort ?c)\<lparr>mpc_BasePort := 28000\<rparr>\<rparr>)"
  have nodes: "cf_Nodes ?c0 = [(uri_node ''ss://b'')\<lparr>nc_Name := ''node-0'', nc_Port := 28000\<rparr>,
      (uri_node ''ss://a'')\<lparr>nc_Name := ''node-1'', nc_Port := 28001\<rparr>]" "cf_Mode ?c0 = ''multi-port''"
    by code_simp+
  obtain c1 where defs: "apply_defaults ?c0 = Inr c1"
    using nodes(2) by (simp add: apply_defaults_def normal_mode_def Let_def)
  have c1: "cf_Nodes c1 = cf_Nodes ?c0" "cf_Mode c1 = ''multi-port''"
    using apply_defaults_fields [OF defs] nodes(2) by (simp_all add: normal_mode_def Let_def)
  have trims: "TrimSpace ''ss://b'' = ''ss://b''" "TrimSpace ''ss://a'' = ''ss://a''"
    "TrimSpace ''node-0'' = ''node-0''" "TrimSpace ''node-1'' = ''node-1''" by code_simp+
  have fields: "nc_URI (uri_node u) = u" "(uri_node u)\<lparr>nc_URI := u\<rparr> = uri_node u" for u
    by (simp_all add: uri_node_def)
  have "NormalizeWithPortMap demo_yaml_env [''ss://a'' \<mapsto> 28000] ?c0 =
      Some (Inr (c1\<lparr>cf_Nodes := map (default_creds c1)
        [(uri_node ''ss://b'')\<lparr>nc_Name := ''node-0'', nc_Port := 28000\<rparr>,
         (uri_node ''ss://a'')\<lparr>nc_Name := ''node-1'', nc_Port := 28000\<rparr>],
        cf_LogLevel := default_string ''info'' (cf_LogLevel c1)\<rparr>))"
    by (simp add: NormalizeWithPortMap_def defs c1 nodes trim_node_def fields trims Let_def
        multi_mode_def short_name_def NodeKey_def)
  then show ?thesis by (simp add: nodes Let_def)
qed

text \<open>
  The new configuration has the fetched nodes only: nodes that were defined in the configuration
  file or created in the web interface are dropped.
\<close>

lemma refresh_drops_inline_nodes:
  "set (map nc_URI (cf_Nodes (createNewConfig env ns c))) = (\<lambda>n. TrimSpace (nc_URI n)) ` set ns"
  by (simp only: createNewConfig_uris set_map)

end
