(* ===== verification/Go_Duration.thy ===== *)
theory Go_Duration
  imports Go_Strings "HOL-Library.Log_Nat"
begin

text \<open>
  The durations of package \<open>time\<close> as text: \<open>ParseDuration\<close> and \<open>Duration.String\<close>, which the settings
  of the web interface use.  A duration is its number of nanoseconds in 64 bits.  Shown here: what
  \<open>String\<close> prints, \<open>ParseDuration\<close> reads back.
\<close>

section \<open>Parsing\<close>

definition unit_of :: "string \<Rightarrow> nat option" where
  "unit_of u =
     (if u = ''ns'' then Some 1
      else if u = ''us'' \<or> u = [char_of (0xC2 :: nat), char_of (0xB5 :: nat), CHR ''s''] \<or>
              u = [char_of (0xCE :: nat), char_of (0xBC :: nat), CHR ''s''] then Some 1000
      else if u = ''ms'' then Some 1000000
      else if u = ''s'' then Some 1000000000
      else if u = ''m'' then Some 60000000000
      else if u = ''h'' then Some 3600000000000
      else None)"

definition digits_nat :: "string \<Rightarrow> nat" where
  "digits_nat ds = nat (digits_value ds)"

text \<open>
  Go computes the fraction in \<open>float64\<close>.  \<open>fl x\<close> is the nearest number with 53 significant bits
  to a non-negative \<open>x\<close>, ties to even; the exponent is not bounded, which does not matter here: where
  a double would overflow or be subnormal, the product below is smaller than one either way.
\<close>

definition round_even :: "rat \<Rightarrow> int" where
  "round_even x =
     (let f = \<lfloor>x\<rfloor>; r = x - of_int f in
      if r < 1 / 2 then f else if 1 / 2 < r then f + 1 else if even f then f else f + 1)"

definition fl_at :: "int \<Rightarrow> rat \<Rightarrow> rat" where
  "fl_at e x = of_int (round_even (x * 2 powi e)) / 2 powi e"

definition fl :: "rat \<Rightarrow> rat" where
  "fl x =
     (let (n, d) = quotient_of x;
          e = 53 + bitlen d - bitlen n in
      fl_at (if 2 ^ 53 \<le> x * 2 powi e then e - 1 else e) x)"

text \<open>
  \<open>leadingFraction\<close> of digits: the value, the scale it is read at, until a further digit would
  overflow; the rest of the digits is skipped.
\<close>

fun leading_fraction :: "string \<Rightarrow> nat \<Rightarrow> rat \<Rightarrow> nat \<times> rat" where
  "leading_fraction [] x scale = (x, scale)"
| "leading_fraction (d # ds) x scale =
     (if x > (2 ^ 63 - 1) div 10 \<or> 2 ^ 63 < 10 * x + digits_nat [d] then (x, scale)
      else leading_fraction ds (10 * x + digits_nat [d]) (fl (10 * scale)))"

definition fraction_value :: "nat \<Rightarrow> rat \<Rightarrow> nat \<Rightarrow> nat" where
  "fraction_value f scale unit =
     nat \<lfloor>fl (fl (of_nat f) * fl (fl (of_nat unit) / scale))\<rfloor>"

definition parse_step :: "string \<Rightarrow> (nat \<times> string) option" where
  "parse_step s =
     (let ds = takeWhile is_digit s;
          s1 = drop (length ds) s;
          point = HasPrefix s1 ''.'';
          fs = (if point then takeWhile is_digit (tl s1) else []);
          s2 = (if point then drop (length fs) (tl s1) else s1);
          u = takeWhile (\<lambda>c. c \<noteq> CHR ''.'' \<and> \<not> is_digit c) s2;
          (f, scale) = leading_fraction fs 0 1
      in if 2 ^ 63 < digits_nat ds \<or> ds = [] \<and> fs = [] then None
         else
           (case unit_of u of
              None \<Rightarrow> None
            | Some unit \<Rightarrow>
                (let v = digits_nat ds * unit + fraction_value f scale unit in
                 if 2 ^ 63 div unit < digits_nat ds \<or> 2 ^ 63 < v then None
                 else Some (v, drop (length u) s2))))"

lemma unit_of_nonempty: "unit_of u = Some k \<Longrightarrow> u \<noteq> [] \<and> 0 < k"
  by (auto simp: unit_of_def split: if_splits)

lemma parse_step_shorter:
  assumes "parse_step s = Some (v, r)"
  shows "length r < length s"
proof -
  define ds where "ds = takeWhile is_digit s"
  define s1 where "s1 = drop (length ds) s"
  define fs where "fs = (if HasPrefix s1 ''.'' then takeWhile is_digit (tl s1) else [])"
  define s2 where "s2 = (if HasPrefix s1 ''.'' then drop (length fs) (tl s1) else s1)"
  define u where "u = takeWhile (\<lambda>c. c \<noteq> CHR ''.'' \<and> \<not> is_digit c) s2"
  obtain k where "unit_of u = Some k" and r: "r = drop (length u) s2"
    using assms unfolding parse_step_def Let_def
    by (auto simp: ds_def s1_def fs_def s2_def u_def split: prod.splits if_splits option.splits)
  then have "u \<noteq> []" using unit_of_nonempty by blast
  moreover have "length u \<le> length s2" unfolding u_def by (rule length_takeWhile_le)
  moreover have "length s2 \<le> length s" by (simp add: s2_def s1_def)
  ultimately show ?thesis by (cases u) (auto simp: r)
qed

function parse_units :: "string \<Rightarrow> nat \<Rightarrow> nat option" where
  "parse_units s d =
     (if s = [] then Some d
      else
        (case parse_step s of
           None \<Rightarrow> None
         | Some (v, r) \<Rightarrow> if 2 ^ 63 < d + v then None else parse_units r (d + v)))"
  by pat_completeness auto
termination by (relation "measure (length \<circ> fst)") (auto simp: parse_step_shorter)

declare parse_units.simps [simp del]

text \<open>The error text is not modelled: a duration or none.\<close>

definition ParseDuration :: "string \<Rightarrow> duration option" where
  "ParseDuration s =
     (let neg = HasPrefix s ''-'';
          r = (if neg \<or> HasPrefix s ''+'' then tl s else s)
      in if r = ''0'' then Some 0
         else if r = [] then None
         else
           (case parse_units r 0 of
              None \<Rightarrow> None
            | Some d \<Rightarrow>
                if neg then Some (- int d)
                else if 2 ^ 63 - 1 < d then None else Some (int d)))"

section \<open>Printing\<close>

text \<open>A fraction without trailing zeros, with its point; nothing for zero.\<close>

definition frac_digits :: "nat \<Rightarrow> nat \<Rightarrow> string" where
  "frac_digits k v = map (\<lambda>i. digit_char (v div 10 ^ (k - 1 - i) mod 10)) [0..<k]"

definition frac_text :: "nat \<Rightarrow> nat \<Rightarrow> string" where
  "frac_text k v =
     (let ds = rev (dropWhile (\<lambda>c. c = CHR ''0'') (rev (frac_digits k v)))
      in if ds = [] then [] else CHR ''.'' # ds)"

definition duration_abs :: "nat \<Rightarrow> string" where
  "duration_abs u =
     (if u < 1000000000 then
        (if u = 0 then ''0s''
         else if u < 1000 then Itoa_nat u @ ''ns''
         else if u < 1000000 then
           Itoa_nat (u div 1000) @ frac_text 3 (u mod 1000) @
             [char_of (0xC2 :: nat), char_of (0xB5 :: nat), CHR ''s'']
         else Itoa_nat (u div 1000000) @ frac_text 6 (u mod 1000000) @ ''ms'')
      else
        (let secs = u div 1000000000;
             tail = frac_text 9 (u mod 1000000000) @ ''s'' in
         if secs < 60 then Itoa_nat secs @ tail
         else if secs < 3600 then Itoa_nat (secs div 60) @ ''m'' @ Itoa_nat (secs mod 60) @ tail
         else Itoa_nat (secs div 3600) @ ''h'' @ Itoa_nat (secs div 60 mod 60) @ ''m'' @
           Itoa_nat (secs mod 60) @ tail))"

definition duration_String :: "duration \<Rightarrow> string" where
  "duration_String d = (if d < 0 then CHR ''-'' # duration_abs (nat (- d)) else duration_abs (nat d))"
section \<open>What is printed is read back\<close>

lemma round_even_int [simp]: "round_even (of_int z) = z"
  by (simp add: round_even_def)

lemma fl_at_nat:
  assumes "0 \<le> e"
  shows "fl_at e (of_nat n) = of_nat n"
proof -
  have "(of_nat n :: rat) * 2 powi e = of_int (int n * 2 ^ nat e)"
    using assms by (simp add: power_int_def)
  then have "round_even (of_nat n * 2 powi e) = int n * 2 ^ nat e"
    by (simp only: round_even_int)
  then show ?thesis
    using assms by (simp add: fl_at_def power_int_def)
qed

lemma quotient_of_nat: "quotient_of (of_nat n) = (int n, 1)"
  using quotient_of_int [of "int n"] by (simp add: of_int_def [symmetric])

lemma fl_nat:
  assumes "n < 2 ^ 53"
  shows "fl (of_nat n) = of_nat n"
proof -
  have b: "bitlen (int n) \<le> 53"
    using assms bitlen_le_iff_power [of "int n" 53] by simp
  have "bitlen (1 :: int) = 1" by (simp add: bitlen_def floorlog_def)
  with b show ?thesis
    by (simp add: fl_def quotient_of_nat fl_at_nat)
qed

lemma fl_pow10: "i \<le> 15 \<Longrightarrow> fl (10 ^ i) = (10 ^ i :: rat)"
proof -
  assume "i \<le> 15"
  then have "(10 :: nat) ^ i \<le> 10 ^ 15" by (rule power_increasing) simp
  then have "(10 :: nat) ^ i < 2 ^ 53" by simp
  from fl_nat [OF this] show ?thesis by simp
qed
lemma digits_nat_Nil [simp]: "digits_nat [] = 0"
  by (simp add: digits_nat_def digits_value_def)

lemma digits_nat_digit [simp]: "d < 10 \<Longrightarrow> digits_nat [digit_char d] = d"
  by (simp add: digits_nat_def digits_value_def digit_char_value)

lemma digits_nat_Itoa [simp]: "digits_nat (Itoa_nat n) = n"
  by (simp add: digits_nat_def Itoa_nat_digits)

lemma digit_value_bounds: "is_digit c \<Longrightarrow> 0 \<le> digit_value c \<and> digit_value c < 10"
proof -
  assume "is_digit c"
  then have "48 \<le> (of_char c :: nat)" "(of_char c :: nat) \<le> 57"
    by (simp_all add: is_digit_def less_eq_char_def)
  moreover have "int (of_char c) = (of_char c :: int)" by (rule of_nat_of_char)
  ultimately show ?thesis unfolding digit_value_def by linarith
qed

lemma digits_value_nonneg: "list_all is_digit ds \<Longrightarrow> 0 \<le> digits_value ds"
  by (induction ds rule: rev_induct) (auto simp: digits_value_def digit_value_bounds)

lemma digits_nat_snoc:
  "list_all is_digit ds \<Longrightarrow> is_digit c \<Longrightarrow> digits_nat (ds @ [c]) = 10 * digits_nat ds + digits_nat [c]"
  using digits_value_nonneg [of ds] digit_value_bounds [of c]
  by (auto simp: digits_nat_def digits_value_def nat_add_distrib nat_mult_distrib)

lemma digits_nat_single: "is_digit c \<Longrightarrow> digits_nat [c] < 10"
  using digit_value_bounds [of c] by (auto simp: digits_nat_def digits_value_def)

lemma digits_nat_bound: "list_all is_digit ds \<Longrightarrow> digits_nat ds < 10 ^ length ds"
proof (induction ds rule: rev_induct)
  case (snoc c ds)
  then show ?case using digits_nat_single [of c] by (simp add: digits_nat_snoc)
qed simp

lemma digits_nat_append:
  "list_all is_digit (a @ b) \<Longrightarrow> digits_nat (a @ b) = digits_nat a * 10 ^ length b + digits_nat b"
proof (induction b rule: rev_induct)
  case (snoc c b)
  then have "digits_nat ((a @ b) @ [c]) = 10 * digits_nat (a @ b) + digits_nat [c]"
    by (intro digits_nat_snoc) auto
  with snoc show ?case
    by (simp add: digits_nat_snoc algebra_simps)
qed simp

lemma digits_nat_zeros: "digits_nat (replicate z (CHR ''0'')) = 0"
  by (induction z) (simp_all add: digits_nat_def digits_value_def digit_value_def)

text \<open>Short fractions are read exactly.\<close>

lemma leading_fraction_exact:
  assumes "list_all is_digit ds" "i + length ds \<le> 9" "x < 10 ^ i"
  shows "leading_fraction ds x (10 ^ i) = (x * 10 ^ length ds + digits_nat ds, 10 ^ (i + length ds))"
  using assms
proof (induction ds arbitrary: x i)
  case (Cons d ds)
  have d: "digits_nat [d] < 10" using Cons.prems(1) digits_nat_single by simp
  have x: "10 * x + digits_nat [d] < 10 ^ Suc i" using d Cons.prems(3) by simp
  have small: "(10 :: nat) ^ i \<le> 10 ^ 8" using Cons.prems(2) by (intro power_increasing) auto
  have "fl (10 * 10 ^ i) = (10 ^ Suc i :: rat)"
    using fl_pow10 [of "Suc i"] Cons.prems(2) by simp
  moreover have "digits_nat (d # ds) = digits_nat [d] * 10 ^ length ds + digits_nat ds"
    using digits_nat_append [of "[d]" ds] Cons.prems(1) by simp
  moreover have "leading_fraction ds (10 * x + digits_nat [d]) (10 ^ Suc i) =
      ((10 * x + digits_nat [d]) * 10 ^ length ds + digits_nat ds, 10 ^ (Suc i + length ds))"
    using Cons.prems x by (intro Cons.IH) auto
  moreover have "\<not> (2 ^ 63 - 1) div 10 < x" "\<not> 2 ^ 63 < 10 * x + digits_nat [d]"
    using Cons.prems(3) small d by simp_all
  ultimately have "leading_fraction (d # ds) x (10 ^ i) =
      ((10 * x + digits_nat [d]) * 10 ^ length ds + digits_nat ds, 10 ^ (Suc i + length ds))"
    by simp
  also have "(10 * x + digits_nat [d]) * 10 ^ length ds + digits_nat ds =
      x * 10 ^ length (d # ds) + (digits_nat [d] * 10 ^ length ds + digits_nat ds)"
    by (simp add: add_mult_distrib)
  finally show ?case
    using \<open>digits_nat (d # ds) = digits_nat [d] * 10 ^ length ds + digits_nat ds\<close> by simp
qed simp

lemma fraction_value_exact:
  assumes "i \<le> k" "k \<le> 9" "f < 10 ^ i"
  shows "fraction_value f (10 ^ i) (10 ^ k) = f * 10 ^ (k - i)"
proof -
  have pow: "(10 ^ k / 10 ^ i :: rat) = 10 ^ (k - i)"
    using assms(1) by (simp add: power_diff)
  have "f * 10 ^ (k - i) < 10 ^ i * 10 ^ (k - i)" using assms(3) by simp
  also have "\<dots> = 10 ^ k" using assms(1) by (simp flip: power_add)
  also have "\<dots> \<le> 10 ^ 9" using assms(2) by (intro power_increasing) auto
  finally have v: "f * 10 ^ (k - i) < 2 ^ 53" by simp
  have "f * 1 \<le> f * 10 ^ (k - i)" by (intro mult_le_mono) auto
  then have f: "f < 2 ^ 53" using v by linarith
  have "fl (of_nat f * 10 ^ (k - i)) = of_nat f * 10 ^ (k - i)"
    using fl_nat [OF v] by simp
  moreover have "nat \<lfloor>(of_nat f * 10 ^ (k - i) :: rat)\<rfloor> = f * 10 ^ (k - i)"
  proof -
    have "(of_nat f * 10 ^ (k - i) :: rat) = of_int (int (f * 10 ^ (k - i)))" by simp
    then show ?thesis by (simp only: floor_of_int nat_int)
  qed
  ultimately show ?thesis
    using assms fl_nat [OF f] by (simp add: fraction_value_def fl_pow10 pow)
qed

lemma frac_digits_Suc:
  "frac_digits (Suc k) v = frac_digits k (v div 10) @ [digit_char (v mod 10)]"
proof -
  have "v div 10 ^ (k - i) mod 10 = v div 10 div 10 ^ (k - 1 - i) mod 10" if "i < k" for i
    using that by (simp add: div_mult2_eq [symmetric] Suc_diff_Suc flip: power_Suc)
  then show ?thesis by (simp add: frac_digits_def)
qed

lemma frac_digits_value:
  "v < 10 ^ k \<Longrightarrow> list_all is_digit (frac_digits k v) \<and> digits_nat (frac_digits k v) = v \<and>
    length (frac_digits k v) = k"
proof (induction k arbitrary: v)
  case (Suc k)
  then have "v div 10 < 10 ^ k" by (simp add: less_mult_imp_div_less)
  from Suc.IH [OF this] show ?case
    by (simp add: frac_digits_Suc digits_nat_snoc digit_char_value)
qed (simp add: frac_digits_def)
lemma trailing_zeros:
  obtains z where "D = rev (dropWhile (\<lambda>c. c = CHR ''0'') (rev D)) @ replicate z (CHR ''0'')"
proof -
  define t where "t = takeWhile (\<lambda>c. c = CHR ''0'') (rev D)"
  have "rev D = t @ dropWhile (\<lambda>c. c = CHR ''0'') (rev D)" by (simp add: t_def)
  then have D: "D = rev (dropWhile (\<lambda>c. c = CHR ''0'') (rev D)) @ rev t"
    by (metis rev_append rev_rev_ident)
  have "\<forall>c \<in> set t. c = CHR ''0''" unfolding t_def by (auto dest: set_takeWhileD)
  then have "rev t = replicate (length t) (CHR ''0'')"
    by (metis length_rev replicate_length_same set_rev)
  with D show thesis by (intro that [of "length t"]) simp
qed

lemma frac_text_parts:
  assumes "v < 10 ^ k"
  obtains ds z where "frac_text k v = (if ds = [] then [] else CHR ''.'' # ds)"
    "list_all is_digit ds" "length ds + z = k" "digits_nat ds * 10 ^ z = v"
proof -
  define ds where "ds = rev (dropWhile (\<lambda>c. c = CHR ''0'') (rev (frac_digits k v)))"
  obtain z where D: "frac_digits k v = ds @ replicate z (CHR ''0'')"
    unfolding ds_def by (rule trailing_zeros)
  have all: "list_all is_digit (ds @ replicate z (CHR ''0''))" "length ds + z = k"
    using frac_digits_value [OF assms] by (simp_all add: D)
  moreover have "digits_nat (ds @ replicate z (CHR ''0'')) = v"
    using frac_digits_value [OF assms] by (simp add: D)
  ultimately have "digits_nat ds * 10 ^ z = v"
    by (simp add: digits_nat_append digits_nat_zeros)
  then show thesis
    using all by (intro that [of ds z]) (simp_all add: frac_text_def ds_def)
qed

definition unit_text :: "string \<Rightarrow> bool" where
  "unit_text u \<longleftrightarrow> u \<noteq> [] \<and> list_all (\<lambda>c. c \<noteq> CHR ''.'' \<and> \<not> is_digit c) u"

lemma unit_texts [simp]:
  "unit_text ''h'' \<and> unit_text ''m'' \<and> unit_text ''s'' \<and> unit_text ''ms'' \<and> unit_text ''ns''"
  "unit_text [char_of (0xC2 :: nat), char_of (0xB5 :: nat), CHR ''s'']"
  by code_simp+

lemma unit_values [simp]:
  "unit_of ''h'' = Some 3600000000000" "unit_of ''m'' = Some 60000000000"
  "unit_of ''s'' = Some 1000000000" "unit_of ''ms'' = Some 1000000" "unit_of ''ns'' = Some 1"
  "unit_of [char_of (0xC2 :: nat), char_of (0xB5 :: nat), CHR ''s''] = Some 1000"
  by (simp_all add: unit_of_def)

lemma takeWhile_digits:
  "list_all is_digit ds \<Longrightarrow> s = [] \<or> \<not> is_digit (hd s) \<Longrightarrow> takeWhile is_digit (ds @ s) = ds"
  by (cases s) (auto simp: list_all_iff)

lemma takeWhile_unit:
  "unit_text u \<Longrightarrow> rest = [] \<or> is_digit (hd rest) \<Longrightarrow>
   takeWhile (\<lambda>c. c \<noteq> CHR ''.'' \<and> \<not> is_digit c) (u @ rest) = u"
  by (cases rest) (auto simp: list_all_iff unit_text_def)

lemma parse_step_parts:
  assumes "takeWhile is_digit s = ds" "drop (length ds) s = s1"
    and "(if HasPrefix s1 ''.'' then takeWhile is_digit (tl s1) else []) = fs"
    and "(if HasPrefix s1 ''.'' then drop (length fs) (tl s1) else s1) = s2"
    and "takeWhile (\<lambda>c. c \<noteq> CHR ''.'' \<and> \<not> is_digit c) s2 = u" "drop (length u) s2 = rest"
    and "leading_fraction fs 0 1 = (f, scale)" "unit_of u = Some unit" "ds \<noteq> []"
    and "digits_nat ds * unit + fraction_value f scale unit = v" "v \<le> 2 ^ 63"
  shows "parse_step s = Some (v, rest)"
proof -
  have pos: "0 < unit" using unit_of_nonempty assms(8) by blast
  have "digits_nat ds * unit \<le> 2 ^ 63" using assms(10,11) by linarith
  then have a: "\<not> 2 ^ 63 div unit < digits_nat ds"
    using pos by (simp add: less_eq_div_iff_mult_less_eq not_less)
  then have "\<not> 2 ^ 63 < digits_nat ds" by (meson div_le_dividend not_less order_trans)
  then show ?thesis
    unfolding parse_step_def Let_def assms(1-7) prod.case assms(8) option.case assms(10)
    using a assms(9,11) by simp
qed

lemma parse_step_text:
  assumes u: "unit_of u = Some unit" "unit_text u" and rest: "rest = [] \<or> is_digit (hd rest)"
    and v: "v < 10 ^ k" "k \<le> 9" "unit = 10 ^ k \<or> k = 0" and fits: "a * unit + v \<le> 2 ^ 63"
  shows "parse_step (Itoa_nat a @ frac_text k v @ u @ rest) = Some (a * unit + v, rest)"
proof -
  obtain ds z where t: "frac_text k v = (if ds = [] then [] else CHR ''.'' # ds)"
    and ds: "list_all is_digit ds" and z: "length ds + z = k" "digits_nat ds * 10 ^ z = v"
    using frac_text_parts [OF v(1)] .
  obtain c cs where cu: "u = c # cs" "c \<noteq> CHR ''.''" "\<not> is_digit c"
    using u(2) by (cases u) (auto simp: unit_text_def)
  have pos: "0 < unit" using unit_of_nonempty u(1) by blast
  have dot: "\<not> is_digit (CHR ''.'')" by code_simp
  have int: "takeWhile is_digit (Itoa_nat a @ frac_text k v @ u @ rest) = Itoa_nat a"
    using Itoa_nat_digits [of a] cu dot by (intro takeWhile_digits) (auto simp: t)
  have frac: "takeWhile is_digit (ds @ u @ rest) = ds"
    using ds cu by (intro takeWhile_digits) auto
  have lf: "leading_fraction ds 0 1 = (digits_nat ds, 10 ^ length ds)"
    using leading_fraction_exact [of ds 0 0] ds z v by simp
  have fv: "fraction_value (digits_nat ds) (10 ^ length ds) unit = v"
  proof (cases "k = 0")
    case True
    then have "ds = []" using z by simp
    moreover have "fl 0 = 0" using fl_nat [of 0] by simp
    ultimately show ?thesis using z True by (simp add: fraction_value_def)
  next
    case False
    then have "unit = 10 ^ k" "length ds \<le> k" using v z by auto
    moreover have "k - length ds = z" using z by simp
    ultimately show ?thesis
      using fraction_value_exact [of "length ds" k "digits_nat ds"] digits_nat_bound [OF ds] v z
      by simp
  qed
  show ?thesis
  proof (rule parse_step_parts [OF int _ _ _ _ _ lf u(1)])
    show "drop (length (Itoa_nat a)) (Itoa_nat a @ frac_text k v @ u @ rest) = frac_text k v @ u @ rest"
      by simp
    show "(if HasPrefix (frac_text k v @ u @ rest) ''.''
        then takeWhile is_digit (tl (frac_text k v @ u @ rest)) else []) = ds"
      using cu frac by (simp add: t)
    show "(if HasPrefix (frac_text k v @ u @ rest) ''.''
        then drop (length ds) (tl (frac_text k v @ u @ rest)) else frac_text k v @ u @ rest) = u @ rest"
      using cu by (simp add: t)
  qed (use fits in \<open>simp_all add: fv takeWhile_unit [OF u(2) rest]\<close>)
qed

lemma parse_units_step:
  assumes "parse_step s = Some (v, r)" "d + v \<le> 2 ^ 63"
  shows "parse_units s d = parse_units r (d + v)"
  using assms parse_step_shorter [OF assms(1)]
  by (subst parse_units.simps) auto

lemma parse_units_Nil [simp]: "parse_units [] d = Some d"
  by (subst parse_units.simps) simp
lemma Itoa_nat_head: "is_digit (hd (Itoa_nat n @ s))"
  using Itoa_nat_digits [of n] by (cases "Itoa_nat n") auto

lemma Itoa_nat_hd: "is_digit (hd (Itoa_nat n))"
  using Itoa_nat_head [of n "[]"] by simp

lemma parse_units_text:
  assumes "unit_of u = Some unit" "unit_text u" "rest = [] \<or> is_digit (hd rest)"
    and "v < 10 ^ k" "k \<le> 9" "unit = 10 ^ k \<or> k = 0" "d + a * unit + v \<le> 2 ^ 63"
  shows "parse_units (Itoa_nat a @ frac_text k v @ u @ rest) d = parse_units rest (d + a * unit + v)"
  using parse_units_step [OF parse_step_text [OF assms(1-6)], of a d] assms(7)
  by (simp add: add.assoc)

lemma parse_units_whole:
  assumes "unit_of u = Some unit" "unit_text u" "rest = [] \<or> is_digit (hd rest)"
    and "d + a * unit \<le> 2 ^ 63"
  shows "parse_units (Itoa_nat a @ u @ rest) d = parse_units rest (d + a * unit)"
  using parse_units_text [OF assms(1-3), of 0 0 d a] assms(4)
  by (simp add: frac_text_def frac_digits_def)

lemma parse_units_seconds:
  assumes "d + x * 1000000000 + v \<le> 2 ^ 63" "v < 1000000000"
  shows "parse_units (Itoa_nat x @ frac_text 9 v @ ''s'') d = Some (d + x * 1000000000 + v)"
  using parse_units_text [of "''s''" 1000000000 "[]" v 9 d x] assms by simp

lemma parse_duration_abs:
  assumes "u \<le> 2 ^ 63"
  shows "parse_units (duration_abs u) 0 = Some u"
proof -
  consider (zero) "u = 0" | (ns) "0 < u" "u < 1000" | (us) "1000 \<le> u" "u < 1000000"
    | (ms) "1000000 \<le> u" "u < 1000000000" | (s) "1000000000 \<le> u"
    by linarith
  then show ?thesis
  proof cases
    case zero
    have "parse_units (Itoa_nat 0 @ ''s'' @ []) 0 = parse_units [] (0 + 0 * 1000000000)"
      by (rule parse_units_whole) simp_all
    moreover have "Itoa_nat 0 @ ''s'' @ [] = ''0s''" by code_simp
    ultimately have "parse_units ''0s'' 0 = Some 0" by simp
    then show ?thesis using zero by (simp add: duration_abs_def)
  next
    case ns
    have "parse_units (Itoa_nat u @ ''ns'' @ []) 0 = parse_units [] (0 + u * 1)"
      using ns by (intro parse_units_whole) simp_all
    then show ?thesis using ns by (simp add: duration_abs_def)
  next
    case us
    have "u mod 1000 < 10 ^ 3" by simp
    then have "parse_units (Itoa_nat (u div 1000) @ frac_text 3 (u mod 1000) @
        [char_of (0xC2 :: nat), char_of (0xB5 :: nat), CHR ''s''] @ []) 0 =
      parse_units [] (0 + u div 1000 * 1000 + u mod 1000)"
      using us by (intro parse_units_text) (simp_all del: char_of_nat)
    then show ?thesis using us by (simp add: duration_abs_def)
  next
    case ms
    have "u mod 1000000 < 10 ^ 6" by simp
    then have "parse_units (Itoa_nat (u div 1000000) @ frac_text 6 (u mod 1000000) @ ''ms'' @ []) 0 =
      parse_units [] (0 + u div 1000000 * 1000000 + u mod 1000000)"
      using ms by (intro parse_units_text) simp_all
    then show ?thesis using ms by (simp add: duration_abs_def)
  next
    case s
    define x where "x = u div 1000000000"
    define v where "v = u mod 1000000000"
    have u: "u = x * 1000000000 + v" and v: "v < 1000000000" by (simp_all add: x_def v_def)
    define mn where "mn = x div 60"
    have x: "x = mn * 60 + x mod 60" and mn: "mn = mn div 60 * 60 + mn mod 60" by (simp_all add: mn_def)
    let ?tail = "frac_text 9 v @ ''s''"
    have secs: "parse_units (Itoa_nat y @ ?tail) d = Some (d + y * 1000000000 + v)"
      if "d + y * 1000000000 + v = u" for y d
      using that assms v by (intro parse_units_seconds) simp_all
    have mins: "parse_units (Itoa_nat m @ ''m'' @ Itoa_nat (x mod 60) @ ?tail) d = Some u"
      if m: "d + m * 60000000000 + x mod 60 * 1000000000 + v = u" for m d
    proof -
      have "parse_units (Itoa_nat m @ ''m'' @ Itoa_nat (x mod 60) @ ?tail) d =
          parse_units (Itoa_nat (x mod 60) @ ?tail) (d + m * 60000000000)"
        using m assms by (intro parse_units_whole) (auto simp: Itoa_nat_hd)
      also have "\<dots> = Some u" using secs [of "d + m * 60000000000" "x mod 60"] m by simp
      finally show ?thesis .
    qed
    have d: "duration_abs u =
        (if x < 60 then Itoa_nat x @ ?tail
         else if x < 3600 then Itoa_nat mn @ ''m'' @ Itoa_nat (x mod 60) @ ?tail
         else Itoa_nat (x div 3600) @ ''h'' @ Itoa_nat (mn mod 60) @ ''m'' @ Itoa_nat (x mod 60) @ ?tail)"
      using s by (simp add: duration_abs_def x_def v_def mn_def Let_def)
    have hm: "x div 3600 = mn div 60" by (simp add: mn_def div_mult2_eq [symmetric])
    consider (sec) "x < 60" | (min) "60 \<le> x" "x < 3600" | (hour) "3600 \<le> x" by linarith
    then show ?thesis
    proof cases
      case sec
      then show ?thesis using d secs [of 0 x] u by simp
    next
      case min
      have "mn * 60000000000 + x mod 60 * 1000000000 + v = u" using u x by linarith
      then show ?thesis using d mins [of 0 mn] min by simp
    next
      case hour
      have e: "x div 3600 * 3600000000000 + mn mod 60 * 60000000000 + x mod 60 * 1000000000 + v = u"
        using u x mn unfolding hm by linarith
      have "parse_units (Itoa_nat (x div 3600) @ ''h'' @
            (Itoa_nat (mn mod 60) @ ''m'' @ Itoa_nat (x mod 60) @ ?tail)) 0 =
          parse_units (Itoa_nat (mn mod 60) @ ''m'' @ Itoa_nat (x mod 60) @ ?tail)
            (0 + x div 3600 * 3600000000000)"
        using e assms by (intro parse_units_whole) (auto simp: Itoa_nat_hd)
      then show ?thesis using d mins [of "x div 3600 * 3600000000000" "mn mod 60"] e hour by simp
    qed
  qed
qed

lemma duration_abs_head:
  obtains c cs where "duration_abs u = c # cs" "is_digit c" "duration_abs u \<noteq> ''0''"
proof -
  have z: "''0s'' = Itoa_nat 0 @ ''s''" by code_simp
  have "\<exists>n s. duration_abs u = Itoa_nat n @ s \<and> s \<noteq> []"
  proof (cases "u = 0")
    case True
    then show ?thesis unfolding duration_abs_def z by auto
  next
    case False
    then show ?thesis by (auto simp: duration_abs_def Let_def)
  qed
  then obtain n s where d: "duration_abs u = Itoa_nat n @ s" "s \<noteq> []" by blast
  obtain c cs where c: "Itoa_nat n = c # cs" by (cases "Itoa_nat n") simp_all
  with Itoa_nat_digits [of n] d show thesis
    by (intro that [of c "cs @ s"]) auto
qed

lemma ParseDuration_String:
  assumes "- (2 ^ 63) \<le> d" "d < 2 ^ 63"
  shows "ParseDuration (duration_String d) = Some d"
proof -
  obtain c cs where c: "duration_abs (nat \<bar>d\<bar>) = c # cs" "is_digit c" "c # cs \<noteq> ''0''"
    using duration_abs_head by metis
  have "nat \<bar>d\<bar> \<le> nat (2 ^ 63)" using assms by (intro nat_mono) linarith
  then have "parse_units (c # cs) 0 = Some (nat \<bar>d\<bar>)"
    using parse_duration_abs [of "nat \<bar>d\<bar>"] c(1) by (simp add: nat_power_eq)
  moreover have "\<not> 2 ^ 63 - 1 < nat \<bar>d\<bar>" if "0 \<le> d"
    using that assms(2) by (simp add: nat_less_iff not_less)
  ultimately show ?thesis
    using c digit_no_sign [OF c(2)]
    by (auto simp: ParseDuration_def duration_String_def Let_def)
qed

end
