(* ===== verification/Server_Settings.thy ===== *)
theory Server_Settings
  imports Sub_Refresh Go_Ip Go_Duration
begin

text \<open>
  The settings of the web interface (\<open>internal/monitor/server.go\<close>): the server and the
  configuration it shares with the box manager, reading the settings, and \<open>updateSettings\<close> with its
  checks, its saving and its rollback.  Each setting of an update is a step that may refuse; the
  lemmas on \<open>does\<close> say what a step changes, and the properties follow for the whole update.

  An update is what \<open>encoding/json\<close> decodes the body to; the texts of the errors are
  constructors of \<open>settings_error\<close>.
\<close>

section \<open>The server\<close>

text \<open>
  \<open>Server\<close>.  The persistable configuration is shared by pointer with the box manager, so it is the
  box manager's \<open>bm_cfg\<close>; \<open>sv_bound\<close> says whether the pointer is set.  The subscription manager and
  the node manager are part of the state and \<open>sv_subRefresher\<close>, \<open>sv_nodeMgr\<close> say whether the server
  knows them.
\<close>

record server =
  sv_cfg :: monitor_config
  sv_bound :: bool
  sv_sessionToken :: string
  sv_subRefresher :: bool
  sv_nodeMgr :: bool
  sv_sub :: sub_state

definition sv_box :: "server \<Rightarrow> bm_state" where
  "sv_box s = ss_box (sv_sub s)"

definition set_box :: "bm_state \<Rightarrow> server \<Rightarrow> server" where
  "set_box b s = s\<lparr>sv_sub := (sv_sub s)\<lparr>ss_box := b\<rparr>\<rparr>"

definition cfgSrc :: "server \<Rightarrow> config option" where
  "cfgSrc s = (if sv_bound s then bm_cfg (sv_box s) else None)"

text \<open>\<open>NewServer\<close>: nothing when disabled or without a manager; \<open>token\<close> are the 32 random bytes in hex.\<close>

definition NewServer :: "monitor_config \<Rightarrow> bool \<Rightarrow> string \<Rightarrow> sub_state \<Rightarrow> server option" where
  "NewServer c has_mgr token sub =
     (if \<not> mc_Enabled c \<or> \<not> has_mgr then None
      else Some \<lparr>sv_cfg = c, sv_bound = False, sv_sessionToken = token, sv_subRefresher = False,
                 sv_nodeMgr = False, sv_sub = sub\<rparr>)"

definition SetSubscriptionRefresher :: "server \<Rightarrow> server" where
  "SetSubscriptionRefresher s = s\<lparr>sv_subRefresher := True\<rparr>"

definition SetNodeManager :: "server \<Rightarrow> server" where
  "SetNodeManager s = s\<lparr>sv_nodeMgr := True\<rparr>"

text \<open>\<open>SetConfig\<close> with the pointer the box manager holds.\<close>

definition sync_cfg :: "config \<Rightarrow> monitor_config \<Rightarrow> monitor_config" where
  "sync_cfg c m =
     m\<lparr>mc_ExternalIP := cf_ExternalIP c, mc_ProbeTarget := mgc_ProbeTarget (cf_Management c),
       mc_SkipCertVerify := cf_SkipCertVerify c, mc_Password := mgc_Password (cf_Management c)\<rparr>"

definition SetConfig :: "server \<Rightarrow> server" where
  "SetConfig s =
     (case bm_cfg (sv_box s) of
        None \<Rightarrow> s\<lparr>sv_bound := False\<rparr>
      | Some c \<Rightarrow> s\<lparr>sv_bound := True, sv_cfg := sync_cfg c (sv_cfg s)\<rparr>)"

section \<open>Reading the settings\<close>

record pool_view =
  pv_Mode :: string
  pv_FailureThreshold :: int
  pv_BlacklistDuration :: string

record management_view =
  mv_Enabled :: bool
  mv_Listen :: string
  mv_PasswordSet :: bool

record refresh_view =
  rv_Enabled :: bool
  rv_Interval :: string
  rv_Timeout :: string
  rv_HealthCheckTimeout :: string
  rv_DrainTimeout :: string
  rv_MinAvailableNodes :: int

record settings_snapshot =
  sp_Mode :: string
  sp_LogLevel :: string
  sp_ConnectTimeout :: string
  sp_Listener :: listener_config
  sp_MultiPort :: multi_port_config
  sp_Pool :: pool_view
  sp_Management :: management_view
  sp_ExternalIP :: string
  sp_ProbeTarget :: string
  sp_SkipCertVerify :: bool
  sp_Subscriptions :: "string list"
  sp_SubscriptionRefresh :: refresh_view
  sp_NodeFilter :: node_filter

text \<open>The snapshot without a configuration shows the monitor's settings and zero values.\<close>

definition unbound_snapshot :: "monitor_config \<Rightarrow> settings_snapshot" where
  "unbound_snapshot m =
     \<lparr>sp_Mode = [], sp_LogLevel = [], sp_ConnectTimeout = [],
      sp_Listener = \<lparr>lc_Address = [], lc_Port = 0, lc_Username = [], lc_Password = []\<rparr>,
      sp_MultiPort = \<lparr>mpc_Address = [], mpc_BasePort = 0, mpc_Username = [], mpc_Password = []\<rparr>,
      sp_Pool = \<lparr>pv_Mode = [], pv_FailureThreshold = 0, pv_BlacklistDuration = []\<rparr>,
      sp_Management =
        \<lparr>mv_Enabled = mc_Enabled m, mv_Listen = mc_Listen m, mv_PasswordSet = (mc_Password m \<noteq> [])\<rparr>,
      sp_ExternalIP = mc_ExternalIP m, sp_ProbeTarget = mc_ProbeTarget m,
      sp_SkipCertVerify = mc_SkipCertVerify m, sp_Subscriptions = [],
      sp_SubscriptionRefresh =
        \<lparr>rv_Enabled = False, rv_Interval = [], rv_Timeout = [], rv_HealthCheckTimeout = [],
         rv_DrainTimeout = [], rv_MinAvailableNodes = 0\<rparr>,
      sp_NodeFilter = \<lparr>nf_Target = [], nf_Include = [], nf_Exclude = [], nf_UseRegex = False\<rparr>\<rparr>"

definition refresh_view_of :: "refresh_config \<Rightarrow> refresh_view" where
  "refresh_view_of r =
     \<lparr>rv_Enabled = rc_Enabled r, rv_Interval = duration_String (rc_Interval r),
      rv_Timeout = duration_String (rc_Timeout r),
      rv_HealthCheckTimeout = duration_String (rc_HealthCheckTimeout r),
      rv_DrainTimeout = duration_String (rc_DrainTimeout r),
      rv_MinAvailableNodes = rc_MinAvailableNodes r\<rparr>"

definition config_snapshot :: "config \<Rightarrow> settings_snapshot" where
  "config_snapshot c =
     \<lparr>sp_Mode = cf_Mode c, sp_LogLevel = cf_LogLevel c,
      sp_ConnectTimeout =
        (if 0 < cf_ConnectTimeout c then duration_String (cf_ConnectTimeout c) else []),
      sp_Listener = cf_Listener c, sp_MultiPort = cf_MultiPort c,
      sp_Pool = \<lparr>pv_Mode = pc_Mode (cf_Pool c), pv_FailureThreshold = pc_FailureThreshold (cf_Pool c),
                 pv_BlacklistDuration = duration_String (pc_BlacklistDuration (cf_Pool c))\<rparr>,
      sp_Management =
        \<lparr>mv_Enabled = ManagementEnabled c, mv_Listen = mgc_Listen (cf_Management c),
         mv_PasswordSet = (TrimSpace (mgc_Password (cf_Management c)) \<noteq> [])\<rparr>,
      sp_ExternalIP = cf_ExternalIP c, sp_ProbeTarget = mgc_ProbeTarget (cf_Management c),
      sp_SkipCertVerify = cf_SkipCertVerify c, sp_Subscriptions = cf_Subscriptions c,
      sp_SubscriptionRefresh = refresh_view_of (cf_SubscriptionRefresh c),
      sp_NodeFilter = cf_NodeFilter c\<rparr>"

definition getSettingsSnapshot :: "server \<Rightarrow> settings_snapshot" where
  "getSettingsSnapshot s =
     (case cfgSrc s of None \<Rightarrow> unbound_snapshot (sv_cfg s) | Some c \<Rightarrow> config_snapshot c)"

section \<open>An update of the settings\<close>

record listener_update =
  lu_Address :: "string option"
  lu_Port :: "port option"
  lu_Username :: "string option"
  lu_Password :: "string option"

record multi_port_update =
  mu_Address :: "string option"
  mu_BasePort :: "port option"
  mu_Username :: "string option"
  mu_Password :: "string option"

record pool_update =
  pu_Mode :: "string option"
  pu_FailureThreshold :: "int option"
  pu_BlacklistDuration :: "string option"

record management_update =
  gu_Enabled :: "bool option"
  gu_Listen :: "string option"
  gu_Password :: "string option"

record refresh_update =
  ru_Enabled :: "bool option"
  ru_Interval :: "string option"
  ru_Timeout :: "string option"
  ru_HealthCheckTimeout :: "string option"
  ru_DrainTimeout :: "string option"
  ru_MinAvailableNodes :: "int option"

record filter_update =
  fu_Target :: "string option"
  fu_Include :: "string list option"
  fu_Exclude :: "string list option"
  fu_UseRegex :: "bool option"

record settings_update =
  su_Mode :: "string option"
  su_LogLevel :: "string option"
  su_ConnectTimeout :: "string option"
  su_Listener :: "listener_update option"
  su_MultiPort :: "multi_port_update option"
  su_Pool :: "pool_update option"
  su_Management :: "management_update option"
  su_ExternalIP :: "string option"
  su_ProbeTarget :: "string option"
  su_SkipCertVerify :: "bool option"
  su_Subscriptions :: "string list option"
  su_SubscriptionRefresh :: "refresh_update option"
  su_NodeFilter :: "filter_update option"

text \<open>The refusals of an update, in place of their texts; \<open>http_status\<close> is \<open>httpError.status\<close>.\<close>

datatype settings_error =
    NoConfigStore
  | BadMode
  | BadLogLevel
  | BadDuration string
  | BadAddress string
  | BadPort string
  | BadPoolMode
  | BadThreshold
  | BadFilterTarget
  | SaveFailed string

fun http_status :: "settings_error \<Rightarrow> nat" where
  "http_status NoConfigStore = 500"
| "http_status (SaveFailed e) = 500"
| "http_status _ = 400"

definition equalStringSlices :: "string list \<Rightarrow> string list \<Rightarrow> bool" where
  "equalStringSlices a b \<longleftrightarrow> length a = length b \<and> list_all2 (=) a b"

definition normalizeStringList :: "string list \<Rightarrow> string list" where
  "normalizeStringList vs = filter (\<lambda>v. v \<noteq> []) (map TrimSpace vs)"

text \<open>
  What an update works on: the shared configuration, the server's own settings, and whether a
  reload is needed.  A step may refuse; what was changed before it then stays changed.
\<close>

record upd =
  up_cfg :: config
  up_mon :: monitor_config
  up_need :: bool

type_synonym upd_step = "upd \<Rightarrow> settings_error option \<times> upd"

fun run_steps :: "upd_step list \<Rightarrow> upd_step" where
  "run_steps [] u = (None, u)"
| "run_steps (f # fs) u =
     (case f u of (Some e, u') \<Rightarrow> (Some e, u') | (None, u') \<Rightarrow> run_steps fs u')"

definition given :: "'a option \<Rightarrow> ('a \<Rightarrow> upd_step) \<Rightarrow> upd_step" where
  "given x f u = (case x of None \<Rightarrow> (None, u) | Some v \<Rightarrow> f v u)"

definition refuse :: "settings_error \<Rightarrow> upd_step" where
  "refuse e u = (Some e, u)"

definition assign :: "bool \<Rightarrow> (config \<Rightarrow> config) \<Rightarrow> upd_step" where
  "assign need f u = (None, u\<lparr>up_cfg := f (up_cfg u), up_need := up_need u \<or> need\<rparr>)"

definition assign_mon :: "(monitor_config \<Rightarrow> monitor_config) \<Rightarrow> upd_step" where
  "assign_mon f u = (None, u\<lparr>up_mon := f (up_mon u)\<rparr>)"
definition default_text :: "string \<Rightarrow> string \<Rightarrow> string" where
  "default_text d s = (if s = [] then d else s)"

definition lower_trim :: "string \<Rightarrow> string" where
  "lower_trim s = ToLower (TrimSpace s)"

definition upd_mode :: "config \<Rightarrow> string \<Rightarrow> upd_step" where
  "upd_mode old v =
     (let n0 = default_text ''pool'' (lower_trim v);
          nxt = (if n0 = ''multi_port'' then ''multi-port'' else n0)
      in if nxt \<notin> {''pool'', ''multi-port'', ''hybrid''} then refuse BadMode
         else assign (nxt \<noteq> cf_Mode old) (\<lambda>c. c\<lparr>cf_Mode := nxt\<rparr>))"

definition upd_log_level :: "config \<Rightarrow> string \<Rightarrow> upd_step" where
  "upd_log_level old v =
     (let n0 = default_text ''info'' (lower_trim v);
          nxt = (if n0 = ''warning'' then ''warn'' else n0)
      in if nxt \<notin> {''trace'', ''debug'', ''info'', ''warn'', ''error'', ''fatal'', ''panic''}
         then refuse BadLogLevel
         else assign (nxt \<noteq> default_text ''info'' (lower_trim (cf_LogLevel old)))
                (\<lambda>c. c\<lparr>cf_LogLevel := nxt\<rparr>))"

definition upd_connect_timeout :: "config \<Rightarrow> string \<Rightarrow> upd_step" where
  "upd_connect_timeout old v =
     (let raw = TrimSpace v in
      if raw = [] then assign False id
      else
        (case ParseDuration raw of
           None \<Rightarrow> refuse (BadDuration ''connect_timeout'')
         | Some d \<Rightarrow> assign (d \<noteq> cf_ConnectTimeout old) (\<lambda>c. c\<lparr>cf_ConnectTimeout := d\<rparr>)))"

definition set_listener :: "(listener_config \<Rightarrow> listener_config) \<Rightarrow> config \<Rightarrow> config" where
  "set_listener f c = c\<lparr>cf_Listener := f (cf_Listener c)\<rparr>"

definition bad_address :: "string \<Rightarrow> bool" where
  "bad_address a \<longleftrightarrow> a \<noteq> [] \<and> ParseIP a = None"

definition listener_steps :: "config \<Rightarrow> listener_update \<Rightarrow> upd_step list" where
  "listener_steps old u =
     (let l = cf_Listener old in
      [given (lu_Address u) (\<lambda>v. let nxt = TrimSpace v in
         if bad_address nxt then refuse (BadAddress ''listener.address'')
         else assign (nxt \<noteq> lc_Address l) (set_listener (\<lambda>x. x\<lparr>lc_Address := nxt\<rparr>))),
       given (lu_Port u) (\<lambda>v.
         if v = 0 then refuse (BadPort ''listener.port'')
         else assign (v \<noteq> lc_Port l) (set_listener (\<lambda>x. x\<lparr>lc_Port := v\<rparr>))),
       given (lu_Username u) (\<lambda>v. let nxt = TrimSpace v in
         assign (nxt \<noteq> lc_Username l) (set_listener (\<lambda>x. x\<lparr>lc_Username := nxt\<rparr>))),
       given (lu_Password u) (\<lambda>v.
         assign (v \<noteq> lc_Password l) (set_listener (\<lambda>x. x\<lparr>lc_Password := v\<rparr>)))])"

definition set_multi_port :: "(multi_port_config \<Rightarrow> multi_port_config) \<Rightarrow> config \<Rightarrow> config" where
  "set_multi_port f c = c\<lparr>cf_MultiPort := f (cf_MultiPort c)\<rparr>"

definition multi_port_steps :: "config \<Rightarrow> multi_port_update \<Rightarrow> upd_step list" where
  "multi_port_steps old u =
     (let m = cf_MultiPort old in
      [given (mu_Address u) (\<lambda>v. let nxt = TrimSpace v in
         if bad_address nxt then refuse (BadAddress ''multi_port.address'')
         else assign (nxt \<noteq> mpc_Address m) (set_multi_port (\<lambda>x. x\<lparr>mpc_Address := nxt\<rparr>))),
       given (mu_BasePort u) (\<lambda>v.
         if v = 0 then refuse (BadPort ''multi_port.base_port'')
         else assign (v \<noteq> mpc_BasePort m) (set_multi_port (\<lambda>x. x\<lparr>mpc_BasePort := v\<rparr>))),
       given (mu_Username u) (\<lambda>v. let nxt = TrimSpace v in
         assign (nxt \<noteq> mpc_Username m) (set_multi_port (\<lambda>x. x\<lparr>mpc_Username := nxt\<rparr>))),
       given (mu_Password u) (\<lambda>v.
         assign (v \<noteq> mpc_Password m) (set_multi_port (\<lambda>x. x\<lparr>mpc_Password := v\<rparr>)))])"

definition set_pool :: "(pool_config \<Rightarrow> pool_config) \<Rightarrow> config \<Rightarrow> config" where
  "set_pool f c = c\<lparr>cf_Pool := f (cf_Pool c)\<rparr>"

definition pool_steps :: "config \<Rightarrow> pool_update \<Rightarrow> upd_step list" where
  "pool_steps old u =
     (let p = cf_Pool old in
      [given (pu_Mode u) (\<lambda>v. let nxt = default_text ''sequential'' (lower_trim v) in
         if nxt \<notin> {''sequential'', ''random'', ''balance''} then refuse BadPoolMode
         else assign (nxt \<noteq> lower_trim (pc_Mode p)) (set_pool (\<lambda>x. x\<lparr>pc_Mode := nxt\<rparr>))),
       given (pu_FailureThreshold u) (\<lambda>v.
         if v \<le> 0 then refuse BadThreshold
         else assign (v \<noteq> pc_FailureThreshold p) (set_pool (\<lambda>x. x\<lparr>pc_FailureThreshold := v\<rparr>))),
       given (pu_BlacklistDuration u) (\<lambda>v. let raw = TrimSpace v in
         if raw = [] then assign False id
         else
           (case ParseDuration raw of
              None \<Rightarrow> refuse (BadDuration ''pool.blacklist_duration'')
            | Some d \<Rightarrow>
                assign (d \<noteq> pc_BlacklistDuration p) (set_pool (\<lambda>x. x\<lparr>pc_BlacklistDuration := d\<rparr>))))])"

definition set_management :: "(management_config \<Rightarrow> management_config) \<Rightarrow> config \<Rightarrow> config" where
  "set_management f c = c\<lparr>cf_Management := f (cf_Management c)\<rparr>"

definition management_steps :: "management_update \<Rightarrow> upd_step list" where
  "management_steps u =
     [given (gu_Enabled u) (\<lambda>v. assign False (set_management (\<lambda>x. x\<lparr>mgc_Enabled := Some v\<rparr>))),
      given (gu_Listen u)
        (\<lambda>v. assign False (set_management (\<lambda>x. x\<lparr>mgc_Listen := TrimSpace v\<rparr>))),
      given (gu_Password u) (\<lambda>v. assign False (set_management (\<lambda>x. x\<lparr>mgc_Password := v\<rparr>))),
      given (gu_Password u) (\<lambda>v. assign_mon (\<lambda>m. m\<lparr>mc_Password := v\<rparr>))]"

definition general_steps :: "config \<Rightarrow> settings_update \<Rightarrow> upd_step list" where
  "general_steps old u =
     [given (su_ExternalIP u) (\<lambda>v. assign False (\<lambda>c. c\<lparr>cf_ExternalIP := TrimSpace v\<rparr>)),
      given (su_ExternalIP u) (\<lambda>v. assign_mon (\<lambda>m. m\<lparr>mc_ExternalIP := TrimSpace v\<rparr>)),
      given (su_ProbeTarget u)
        (\<lambda>v. assign False (set_management (\<lambda>x. x\<lparr>mgc_ProbeTarget := TrimSpace v\<rparr>))),
      given (su_ProbeTarget u) (\<lambda>v. assign_mon (\<lambda>m. m\<lparr>mc_ProbeTarget := TrimSpace v\<rparr>)),
      given (su_SkipCertVerify u)
        (\<lambda>v. assign (v \<noteq> cf_SkipCertVerify old) (\<lambda>c. c\<lparr>cf_SkipCertVerify := v\<rparr>)),
      given (su_SkipCertVerify u) (\<lambda>v. assign_mon (\<lambda>m. m\<lparr>mc_SkipCertVerify := v\<rparr>))]"

fun unique_subs :: "string list \<Rightarrow> string set \<Rightarrow> string list" where
  "unique_subs [] seen = []"
| "unique_subs (raw0 # rest) seen =
     (let raw = NormalizeSubscriptionURL raw0 in
      if raw = [] \<or> raw \<in> seen then unique_subs rest seen
      else raw # unique_subs rest (insert raw seen))"

definition subscription_step :: "string list \<Rightarrow> upd_step" where
  "subscription_step vs = assign False (\<lambda>c. c\<lparr>cf_Subscriptions := unique_subs vs {}\<rparr>)"

definition set_refresh :: "(refresh_config \<Rightarrow> refresh_config) \<Rightarrow> config \<Rightarrow> config" where
  "set_refresh f c = c\<lparr>cf_SubscriptionRefresh := f (cf_SubscriptionRefresh c)\<rparr>"

definition duration_step ::
  "string \<Rightarrow> (duration \<Rightarrow> refresh_config \<Rightarrow> refresh_config) \<Rightarrow> string \<Rightarrow> upd_step" where
  "duration_step field put v =
     (case ParseDuration (TrimSpace v) of
        None \<Rightarrow> refuse (BadDuration field)
      | Some d \<Rightarrow> assign False (set_refresh (put d)))"

definition refresh_steps :: "refresh_update \<Rightarrow> upd_step list" where
  "refresh_steps u =
     [given (ru_Enabled u) (\<lambda>v. assign False (set_refresh (\<lambda>x. x\<lparr>rc_Enabled := v\<rparr>))),
      given (ru_Interval u) (duration_step ''interval'' (\<lambda>d x. x\<lparr>rc_Interval := d\<rparr>)),
      given (ru_Timeout u) (duration_step ''timeout'' (\<lambda>d x. x\<lparr>rc_Timeout := d\<rparr>)),
      given (ru_HealthCheckTimeout u)
        (duration_step ''health_check_timeout'' (\<lambda>d x. x\<lparr>rc_HealthCheckTimeout := d\<rparr>)),
      given (ru_DrainTimeout u) (duration_step ''drain_timeout'' (\<lambda>d x. x\<lparr>rc_DrainTimeout := d\<rparr>)),
      given (ru_MinAvailableNodes u)
        (\<lambda>v. assign False (set_refresh (\<lambda>x. x\<lparr>rc_MinAvailableNodes := v\<rparr>)))]"

definition set_filter :: "(node_filter \<Rightarrow> node_filter) \<Rightarrow> config \<Rightarrow> config" where
  "set_filter f c = c\<lparr>cf_NodeFilter := f (cf_NodeFilter c)\<rparr>"

definition filter_steps :: "config \<Rightarrow> filter_update \<Rightarrow> upd_step list" where
  "filter_steps old u =
     (let f = cf_NodeFilter old in
      [given (fu_Target u) (\<lambda>v. let nxt = default_text ''name'' (lower_trim v) in
         if nxt \<notin> {''name'', ''geo'', ''name_or_geo''} then refuse BadFilterTarget
         else assign (nxt \<noteq> default_text ''name'' (lower_trim (nf_Target f)))
                (set_filter (\<lambda>x. x\<lparr>nf_Target := nxt\<rparr>))),
       given (fu_Include u) (\<lambda>v. let nxt = normalizeStringList v in
         assign (\<not> equalStringSlices nxt (nf_Include f)) (set_filter (\<lambda>x. x\<lparr>nf_Include := nxt\<rparr>))),
       given (fu_Exclude u) (\<lambda>v. let nxt = normalizeStringList v in
         assign (\<not> equalStringSlices nxt (nf_Exclude f)) (set_filter (\<lambda>x. x\<lparr>nf_Exclude := nxt\<rparr>))),
       given (fu_UseRegex u) (\<lambda>v.
         assign (v \<noteq> nf_UseRegex f) (set_filter (\<lambda>x. x\<lparr>nf_UseRegex := v\<rparr>)))])"

definition settings_steps :: "config \<Rightarrow> settings_update \<Rightarrow> upd_step list" where
  "settings_steps old u =
     [given (su_Mode u) (upd_mode old), given (su_LogLevel u) (upd_log_level old),
      given (su_ConnectTimeout u) (upd_connect_timeout old),
      given (su_Listener u) (\<lambda>l. run_steps (listener_steps old l)),
      given (su_MultiPort u) (\<lambda>m. run_steps (multi_port_steps old m)),
      given (su_Pool u) (\<lambda>p. run_steps (pool_steps old p)),
      given (su_Management u) (\<lambda>g. run_steps (management_steps g)),
      run_steps (general_steps old u),
      given (su_Subscriptions u) subscription_step,
      given (su_SubscriptionRefresh u) (\<lambda>r. run_steps (refresh_steps r)),
      given (su_NodeFilter u) (\<lambda>f. run_steps (filter_steps old f))]"

section \<open>Saving, rolling back, applying\<close>

text \<open>The rollback assigns the fields one by one, in the configuration and in the server's settings.\<close>

definition rollback_cfg :: "config \<Rightarrow> config \<Rightarrow> config" where
  "rollback_cfg old c =
     c\<lparr>cf_Mode := cf_Mode old, cf_LogLevel := cf_LogLevel old,
       cf_ConnectTimeout := cf_ConnectTimeout old, cf_Listener := cf_Listener old,
       cf_MultiPort := cf_MultiPort old, cf_Pool := cf_Pool old,
       cf_Management := (cf_Management c)
         \<lparr>mgc_Enabled := mgc_Enabled (cf_Management old), mgc_Listen := mgc_Listen (cf_Management old),
          mgc_Password := mgc_Password (cf_Management old),
          mgc_ProbeTarget := mgc_ProbeTarget (cf_Management old)\<rparr>,
       cf_ExternalIP := cf_ExternalIP old, cf_SkipCertVerify := cf_SkipCertVerify old,
       cf_Subscriptions := cf_Subscriptions old,
       cf_SubscriptionRefresh := cf_SubscriptionRefresh old, cf_NodeFilter := cf_NodeFilter old\<rparr>"

definition put_upd :: "config \<Rightarrow> monitor_config \<Rightarrow> disk \<Rightarrow> server \<Rightarrow> server" where
  "put_upd c m d s =
     (set_box ((sv_box s)\<lparr>bm_cfg := Some c, bm_disk := d\<rparr>) s)\<lparr>sv_cfg := m\<rparr>"

definition notify_refresher :: "settings_update \<Rightarrow> config \<Rightarrow> server \<Rightarrow> server" where
  "notify_refresher u c s =
     (if (su_Subscriptions u \<noteq> None \<or> su_SubscriptionRefresh u \<noteq> None) \<and> sv_subRefresher s
      then s\<lparr>sv_sub := UpdateSettings (cf_Subscriptions c) (cf_SubscriptionRefresh c) (sv_sub s)\<rparr>
      else s)"

definition apply_probe_target :: "settings_update \<Rightarrow> server \<Rightarrow> server" where
  "apply_probe_target u s =
     (case su_ProbeTarget u of
        None \<Rightarrow> s
      | Some v \<Rightarrow>
          set_box ((sv_box s)\<lparr>bm_world := SetProbeTarget (TrimSpace v) (bm_world (sv_box s))\<rparr>) s)"

definition updateSettings ::
  "cfg_env \<Rightarrow> settings_update \<Rightarrow> server \<Rightarrow> (settings_error + bool) \<times> server" where
  "updateSettings env u s =
     (case cfgSrc s of
        None \<Rightarrow> (Inl NoConfigStore, s)
      | Some old \<Rightarrow>
          (let d = bm_disk (sv_box s) in
           case run_steps (settings_steps old u) \<lparr>up_cfg = old, up_mon = sv_cfg s, up_need = False\<rparr> of
             (Some e, r) \<Rightarrow> (Inl e, put_upd (up_cfg r) (up_mon r) d s)
           | (None, r) \<Rightarrow>
               (case SaveSettings env (Some (up_cfg r)) d of
                  (Some e, d') \<Rightarrow>
                    (Inl (SaveFailed e),
                     put_upd (rollback_cfg old (up_cfg r)) (sync_cfg old (up_mon r)) d' s)
                | (None, d') \<Rightarrow>
                    (Inr (up_need r),
                     apply_probe_target u
                       (notify_refresher u (up_cfg r) (put_upd (up_cfg r) (up_mon r) d' s))))))"

section \<open>What an update does\<close>

text \<open>The settings an update asks for, field by field.\<close>

definition merge_listener :: "listener_update \<Rightarrow> listener_config \<Rightarrow> listener_config" where
  "merge_listener u l =
     \<lparr>lc_Address = (case lu_Address u of None \<Rightarrow> lc_Address l | Some v \<Rightarrow> TrimSpace v),
      lc_Port = (case lu_Port u of None \<Rightarrow> lc_Port l | Some v \<Rightarrow> v),
      lc_Username = (case lu_Username u of None \<Rightarrow> lc_Username l | Some v \<Rightarrow> TrimSpace v),
      lc_Password = (case lu_Password u of None \<Rightarrow> lc_Password l | Some v \<Rightarrow> v)\<rparr>"

definition merge_multi_port :: "multi_port_update \<Rightarrow> multi_port_config \<Rightarrow> multi_port_config" where
  "merge_multi_port u m =
     \<lparr>mpc_Address = (case mu_Address u of None \<Rightarrow> mpc_Address m | Some v \<Rightarrow> TrimSpace v),
      mpc_BasePort = (case mu_BasePort u of None \<Rightarrow> mpc_BasePort m | Some v \<Rightarrow> v),
      mpc_Username = (case mu_Username u of None \<Rightarrow> mpc_Username m | Some v \<Rightarrow> TrimSpace v),
      mpc_Password = (case mu_Password u of None \<Rightarrow> mpc_Password m | Some v \<Rightarrow> v)\<rparr>"

definition read_duration :: "duration \<Rightarrow> string \<Rightarrow> duration" where
  "read_duration d v = (case ParseDuration (TrimSpace v) of None \<Rightarrow> d | Some x \<Rightarrow> x)"

definition read_optional_duration :: "duration \<Rightarrow> string \<Rightarrow> duration" where
  "read_optional_duration d v = (if TrimSpace v = [] then d else read_duration d v)"

definition merge_pool :: "pool_update \<Rightarrow> pool_config \<Rightarrow> pool_config" where
  "merge_pool u p =
     \<lparr>pc_Mode = (case pu_Mode u of None \<Rightarrow> pc_Mode p
                 | Some v \<Rightarrow> default_text ''sequential'' (lower_trim v)),
      pc_FailureThreshold = (case pu_FailureThreshold u of None \<Rightarrow> pc_FailureThreshold p | Some v \<Rightarrow> v),
      pc_BlacklistDuration = (case pu_BlacklistDuration u of None \<Rightarrow> pc_BlacklistDuration p
                              | Some v \<Rightarrow> read_optional_duration (pc_BlacklistDuration p) v)\<rparr>"

definition merge_refresh :: "refresh_update \<Rightarrow> refresh_config \<Rightarrow> refresh_config" where
  "merge_refresh u r =
     \<lparr>rc_Enabled = (case ru_Enabled u of None \<Rightarrow> rc_Enabled r | Some v \<Rightarrow> v),
      rc_Interval = (case ru_Interval u of None \<Rightarrow> rc_Interval r
                     | Some v \<Rightarrow> read_duration (rc_Interval r) v),
      rc_Timeout = (case ru_Timeout u of None \<Rightarrow> rc_Timeout r
                    | Some v \<Rightarrow> read_duration (rc_Timeout r) v),
      rc_HealthCheckTimeout = (case ru_HealthCheckTimeout u of None \<Rightarrow> rc_HealthCheckTimeout r
                               | Some v \<Rightarrow> read_duration (rc_HealthCheckTimeout r) v),
      rc_DrainTimeout = (case ru_DrainTimeout u of None \<Rightarrow> rc_DrainTimeout r
                         | Some v \<Rightarrow> read_duration (rc_DrainTimeout r) v),
      rc_MinAvailableNodes = (case ru_MinAvailableNodes u of None \<Rightarrow> rc_MinAvailableNodes r
                              | Some v \<Rightarrow> v)\<rparr>"

definition merge_filter :: "filter_update \<Rightarrow> node_filter \<Rightarrow> node_filter" where
  "merge_filter u f =
     \<lparr>nf_Target = (case fu_Target u of None \<Rightarrow> nf_Target f
                   | Some v \<Rightarrow> default_text ''name'' (lower_trim v)),
      nf_Include = (case fu_Include u of None \<Rightarrow> nf_Include f | Some v \<Rightarrow> normalizeStringList v),
      nf_Exclude = (case fu_Exclude u of None \<Rightarrow> nf_Exclude f | Some v \<Rightarrow> normalizeStringList v),
      nf_UseRegex = (case fu_UseRegex u of None \<Rightarrow> nf_UseRegex f | Some v \<Rightarrow> v)\<rparr>"

definition wanted_mode :: "string \<Rightarrow> string" where
  "wanted_mode v =
     (let n = default_text ''pool'' (lower_trim v) in if n = ''multi_port'' then ''multi-port'' else n)"

definition wanted_log_level :: "string \<Rightarrow> string" where
  "wanted_log_level v =
     (let n = default_text ''info'' (lower_trim v) in if n = ''warning'' then ''warn'' else n)"

definition merge_management :: "settings_update \<Rightarrow> management_config \<Rightarrow> management_config" where
  "merge_management u m =
     m\<lparr>mgc_Enabled := (case Option.bind (su_Management u) gu_Enabled of
                        None \<Rightarrow> mgc_Enabled m | Some v \<Rightarrow> Some v),
       mgc_Listen := (case Option.bind (su_Management u) gu_Listen of
                        None \<Rightarrow> mgc_Listen m | Some v \<Rightarrow> TrimSpace v),
       mgc_Password := (case Option.bind (su_Management u) gu_Password of
                        None \<Rightarrow> mgc_Password m | Some v \<Rightarrow> v),
       mgc_ProbeTarget := (case su_ProbeTarget u of None \<Rightarrow> mgc_ProbeTarget m | Some v \<Rightarrow> TrimSpace v)\<rparr>"

definition merge_settings :: "settings_update \<Rightarrow> config \<Rightarrow> config" where
  "merge_settings u c =
     c\<lparr>cf_Mode := (case su_Mode u of None \<Rightarrow> cf_Mode c | Some v \<Rightarrow> wanted_mode v),
       cf_LogLevel := (case su_LogLevel u of None \<Rightarrow> cf_LogLevel c | Some v \<Rightarrow> wanted_log_level v),
       cf_ConnectTimeout := (case su_ConnectTimeout u of None \<Rightarrow> cf_ConnectTimeout c
                             | Some v \<Rightarrow> read_optional_duration (cf_ConnectTimeout c) v),
       cf_Listener := (case su_Listener u of None \<Rightarrow> cf_Listener c
                       | Some v \<Rightarrow> merge_listener v (cf_Listener c)),
       cf_MultiPort := (case su_MultiPort u of None \<Rightarrow> cf_MultiPort c
                        | Some v \<Rightarrow> merge_multi_port v (cf_MultiPort c)),
       cf_Pool := (case su_Pool u of None \<Rightarrow> cf_Pool c | Some v \<Rightarrow> merge_pool v (cf_Pool c)),
       cf_Management := merge_management u (cf_Management c),
       cf_ExternalIP := (case su_ExternalIP u of None \<Rightarrow> cf_ExternalIP c | Some v \<Rightarrow> TrimSpace v),
       cf_SkipCertVerify := (case su_SkipCertVerify u of None \<Rightarrow> cf_SkipCertVerify c | Some v \<Rightarrow> v),
       cf_Subscriptions := (case su_Subscriptions u of None \<Rightarrow> cf_Subscriptions c
                            | Some v \<Rightarrow> unique_subs v {}),
       cf_SubscriptionRefresh := (case su_SubscriptionRefresh u of None \<Rightarrow> cf_SubscriptionRefresh c
                                  | Some v \<Rightarrow> merge_refresh v (cf_SubscriptionRefresh c)),
       cf_NodeFilter := (case su_NodeFilter u of None \<Rightarrow> cf_NodeFilter c
                         | Some v \<Rightarrow> merge_filter v (cf_NodeFilter c))\<rparr>"

text \<open>The settings that a running instance was built from; only a reload brings them into force.\<close>

definition shown_pool :: "pool_config \<Rightarrow> pool_config" where
  "shown_pool p = p\<lparr>pc_Mode := lower_trim (pc_Mode p)\<rparr>"

definition filter_view :: "node_filter \<Rightarrow> node_filter" where
  "filter_view f = f\<lparr>nf_Target := default_text ''name'' (lower_trim (nf_Target f))\<rparr>"

definition reload_view ::
  "config \<Rightarrow> (string \<times> string \<times> duration \<times> bool) \<times> listener_config \<times> multi_port_config \<times>
   pool_config \<times> node_filter" where
  "reload_view c =
     ((cf_Mode c, default_text ''info'' (lower_trim (cf_LogLevel c)), cf_ConnectTimeout c,
       cf_SkipCertVerify c),
      cf_Listener c, cf_MultiPort c, shown_pool (cf_Pool c), filter_view (cf_NodeFilter c))"

definition merge_monitor :: "settings_update \<Rightarrow> monitor_config \<Rightarrow> monitor_config" where
  "merge_monitor u m =
     m\<lparr>mc_Password := (case Option.bind (su_Management u) gu_Password of
                        None \<Rightarrow> mc_Password m | Some v \<Rightarrow> v),
       mc_ExternalIP := (case su_ExternalIP u of None \<Rightarrow> mc_ExternalIP m | Some v \<Rightarrow> TrimSpace v),
       mc_ProbeTarget := (case su_ProbeTarget u of None \<Rightarrow> mc_ProbeTarget m | Some v \<Rightarrow> TrimSpace v),
       mc_SkipCertVerify := (case su_SkipCertVerify u of None \<Rightarrow> mc_SkipCertVerify m | Some v \<Rightarrow> v)\<rparr>"

lemma run_steps_None:
  "run_steps (f # fs) u = (None, u'') \<longleftrightarrow> (\<exists>u'. f u = (None, u') \<and> run_steps fs u' = (None, u''))"
  by (auto split: prod.splits option.splits)

lemma given_simps [simp]: "given None f u = (None, u)" "given (Some v) f u = f v u"
  by (simp_all add: given_def)

lemma equalStringSlices_eq [simp]: "equalStringSlices a b \<longleftrightarrow> a = b"
  unfolding equalStringSlices_def list.rel_eq by auto

text \<open>
  What a step does when it does not refuse: to the configuration, to the server's settings, and
  whether it asks for a reload.
\<close>

definition does ::
  "upd_step \<Rightarrow> (config \<Rightarrow> config) \<Rightarrow> (monitor_config \<Rightarrow> monitor_config) \<Rightarrow> bool \<Rightarrow> bool" where
  "does f g k n \<longleftrightarrow>
     (\<forall>u u'. f u = (None, u') \<longrightarrow>
        up_cfg u' = g (up_cfg u) \<and> up_mon u' = k (up_mon u) \<and> up_need u' = (up_need u \<or> n))"

lemma does_assign: "does (assign n g) g id n"
  by (simp add: does_def assign_def)

lemma does_assign_mon: "does (assign_mon k) id k False"
  by (simp add: does_def assign_mon_def)

lemma does_refuse: "does (refuse e) g k n"
  by (simp add: does_def refuse_def)

lemma does_given:
  "(\<And>v. x = Some v \<Longrightarrow> does (f v) (g v) (k v) (n v)) \<Longrightarrow>
   does (given x f) (\<lambda>c. case x of None \<Rightarrow> c | Some v \<Rightarrow> g v c) (\<lambda>m. case x of None \<Rightarrow> m | Some v \<Rightarrow> k v m)
     (case x of None \<Rightarrow> False | Some v \<Rightarrow> n v)"
  by (cases x) (auto simp: does_def)

lemma does_Nil: "does (run_steps []) id id False"
  by (simp add: does_def)

lemma does_Cons:
  "does f g k n \<Longrightarrow> does (run_steps fs) g' k' n' \<Longrightarrow>
   does (run_steps (f # fs)) (\<lambda>c. g' (g c)) (\<lambda>m. k' (k m)) (n \<or> n')"
  unfolding does_def run_steps_None by auto

lemma does_guard: "does f g k n \<Longrightarrow> does (if b then refuse e else f) g k n"
  by (simp add: does_refuse)

lemmas does_steps = does_Cons does_Nil does_given does_guard does_assign does_assign_mon

lemma does_eq:
  "does f g k n \<Longrightarrow> (\<And>c. g c = g' c) \<Longrightarrow> (\<And>m. k m = k' m) \<Longrightarrow> n = n' \<Longrightarrow> does f g' k' n'"
  by (simp add: does_def)

text \<open>Each group of steps merges its part of the update.\<close>

lemma listener_eq_iff:
  "(a :: listener_config) = b \<longleftrightarrow> lc_Address a = lc_Address b \<and> lc_Port a = lc_Port b \<and>
   lc_Username a = lc_Username b \<and> lc_Password a = lc_Password b"
  by (cases a; cases b) simp

lemma multi_port_eq_iff:
  "(a :: multi_port_config) = b \<longleftrightarrow> mpc_Address a = mpc_Address b \<and> mpc_BasePort a = mpc_BasePort b \<and>
   mpc_Username a = mpc_Username b \<and> mpc_Password a = mpc_Password b"
  by (cases a; cases b) simp

lemma filter_eq_iff:
  "(a :: node_filter) = b \<longleftrightarrow> nf_Target a = nf_Target b \<and> nf_Include a = nf_Include b \<and>
   nf_Exclude a = nf_Exclude b \<and> nf_UseRegex a = nf_UseRegex b"
  by (cases a; cases b) simp

lemma pool_eq_iff:
  "(a :: pool_config) = b \<longleftrightarrow> pc_Mode a = pc_Mode b \<and> pc_FailureThreshold a = pc_FailureThreshold b \<and>
   pc_BlacklistDuration a = pc_BlacklistDuration b"
  by (cases a; cases b) simp

lemma refresh_eq_iff:
  "(a :: refresh_config) = b \<longleftrightarrow> rc_Enabled a = rc_Enabled b \<and> rc_Interval a = rc_Interval b \<and>
   rc_Timeout a = rc_Timeout b \<and> rc_HealthCheckTimeout a = rc_HealthCheckTimeout b \<and>
   rc_DrainTimeout a = rc_DrainTimeout b \<and> rc_MinAvailableNodes a = rc_MinAvailableNodes b"
  by (cases a; cases b) simp

lemma does_listener:
  "does (run_steps (listener_steps old l)) (set_listener (merge_listener l)) id
     (merge_listener l (cf_Listener old) \<noteq> cf_Listener old)"
  unfolding listener_steps_def Let_def
  by (rule does_eq, (rule does_steps)+)
    (auto simp: set_listener_def merge_listener_def listener_eq_iff
      intro!: config.fold_congs split: option.splits)
lemma lower_trim_idem [simp]: "lower_trim (lower_trim v) = lower_trim v"
  by (simp add: lower_trim_def TrimSpace_trimmed trimmed_ToLower)

lemma lower_trim_default:
  "lower_trim d = d \<Longrightarrow> lower_trim (default_text d (lower_trim v)) = default_text d (lower_trim v)"
  by (simp add: default_text_def)

lemma lower_trim_names [simp]:
  "lower_trim ''sequential'' = ''sequential''" "lower_trim ''name'' = ''name''"
  "lower_trim ''info'' = ''info''" "lower_trim ''warn'' = ''warn''"
  by code_simp+

lemma default_text_idem [simp]: "default_text d (default_text d s) = default_text d s"
  by (simp add: default_text_def)

lemma does_multi_port:
  "does (run_steps (multi_port_steps old l)) (set_multi_port (merge_multi_port l)) id
     (merge_multi_port l (cf_MultiPort old) \<noteq> cf_MultiPort old)"
  unfolding multi_port_steps_def Let_def
  by (rule does_eq, (rule does_steps)+)
    (auto simp: set_multi_port_def merge_multi_port_def multi_port_eq_iff
      intro!: config.fold_congs split: option.splits)

text \<open>A duration that is empty, or read; the steps refuse what cannot be read.\<close>

lemma does_optional_duration:
  assumes "\<And>d. does (assign (d \<noteq> get old) (put d)) (put d) id (d \<noteq> get old)"
    and "\<And>c. put (get c) c = c"
  shows "does (if TrimSpace v = [] then assign False id
      else (case ParseDuration (TrimSpace v) of None \<Rightarrow> refuse e | Some d \<Rightarrow> assign (d \<noteq> get old) (put d)))
    (\<lambda>c. put (read_optional_duration (get c) v) c) id (read_optional_duration (get old) v \<noteq> get old)"
  using assms
  by (auto simp: does_def assign_def refuse_def read_optional_duration_def read_duration_def
      split: option.splits if_splits)

lemma does_connect_timeout:
  "does (upd_connect_timeout old v)
     (\<lambda>c. c\<lparr>cf_ConnectTimeout := read_optional_duration (cf_ConnectTimeout c) v\<rparr>) id
     (read_optional_duration (cf_ConnectTimeout old) v \<noteq> cf_ConnectTimeout old)"
  unfolding upd_connect_timeout_def Let_def
  by (rule does_optional_duration [where get = cf_ConnectTimeout
        and put = "\<lambda>d c. c\<lparr>cf_ConnectTimeout := d\<rparr>"]) (simp_all add: does_assign)

lemma does_pool_duration:
  "does (if TrimSpace v = [] then assign False id
      else (case ParseDuration (TrimSpace v) of None \<Rightarrow> refuse e
        | Some d \<Rightarrow> assign (d \<noteq> pc_BlacklistDuration (cf_Pool old))
            (set_pool (\<lambda>x. x\<lparr>pc_BlacklistDuration := d\<rparr>))))
    (\<lambda>c. set_pool (\<lambda>x. x\<lparr>pc_BlacklistDuration := read_optional_duration (pc_BlacklistDuration (cf_Pool c)) v\<rparr>) c)
    id (read_optional_duration (pc_BlacklistDuration (cf_Pool old)) v \<noteq> pc_BlacklistDuration (cf_Pool old))"
  for old :: config
  by (rule does_optional_duration [where get = "\<lambda>c :: config. pc_BlacklistDuration (cf_Pool c)"
        and put = "\<lambda>d. set_pool (\<lambda>x. x\<lparr>pc_BlacklistDuration := d\<rparr>)"])
    (rule does_assign, simp add: set_pool_def)

lemma does_pool:
  "does (run_steps (pool_steps old p)) (set_pool (merge_pool p)) id
     (shown_pool (merge_pool p (cf_Pool old)) \<noteq> shown_pool (cf_Pool old))"
  unfolding pool_steps_def Let_def
  by (rule does_eq, (rule does_steps does_pool_duration)+)
    (auto simp: set_pool_def merge_pool_def shown_pool_def pool_eq_iff lower_trim_default
      intro!: config.fold_congs split: option.splits)

lemma does_filter:
  "does (run_steps (filter_steps old f)) (set_filter (merge_filter f)) id
     (filter_view (merge_filter f (cf_NodeFilter old)) \<noteq> filter_view (cf_NodeFilter old))"
  unfolding filter_steps_def Let_def
  by (rule does_eq, (rule does_steps)+)
    (auto simp: set_filter_def merge_filter_def filter_view_def filter_eq_iff lower_trim_default
      intro!: config.fold_congs split: option.splits)

lemma does_duration_step:
  assumes "\<And>r. put (get r) r = r"
  shows "does (duration_step field put v) (set_refresh (\<lambda>r. put (read_duration (get r) v) r)) id False"
  using assms
  by (auto simp: duration_step_def does_def assign_def refuse_def read_duration_def set_refresh_def
      split: option.splits)

lemma does_refresh_fields:
  "does (duration_step n (\<lambda>d x. x\<lparr>rc_Interval := d\<rparr>) v)
     (set_refresh (\<lambda>r. r\<lparr>rc_Interval := read_duration (rc_Interval r) v\<rparr>)) id False"
  "does (duration_step n (\<lambda>d x. x\<lparr>rc_Timeout := d\<rparr>) v)
     (set_refresh (\<lambda>r. r\<lparr>rc_Timeout := read_duration (rc_Timeout r) v\<rparr>)) id False"
  "does (duration_step n (\<lambda>d x. x\<lparr>rc_HealthCheckTimeout := d\<rparr>) v)
     (set_refresh (\<lambda>r. r\<lparr>rc_HealthCheckTimeout := read_duration (rc_HealthCheckTimeout r) v\<rparr>)) id False"
  "does (duration_step n (\<lambda>d x. x\<lparr>rc_DrainTimeout := d\<rparr>) v)
     (set_refresh (\<lambda>r. r\<lparr>rc_DrainTimeout := read_duration (rc_DrainTimeout r) v\<rparr>)) id False"
  by (rule does_duration_step, simp)+

lemma case_set_refresh:
  "(case x of None \<Rightarrow> c | Some v \<Rightarrow> set_refresh (g v) c) =
   set_refresh (\<lambda>r. case x of None \<Rightarrow> r | Some v \<Rightarrow> g v r) c"
  "(case x of None \<Rightarrow> set_refresh h c | Some v \<Rightarrow> set_refresh (g v) c) =
   set_refresh (\<lambda>r. case x of None \<Rightarrow> h r | Some v \<Rightarrow> g v r) c"
  "set_refresh f (set_refresh h c) = set_refresh (\<lambda>r. f (h r)) c"
  by (cases x; simp add: set_refresh_def)+

lemma case_refresh_fields:
  "(case x of None \<Rightarrow> r | Some v \<Rightarrow> r\<lparr>rc_Enabled := fb v\<rparr>) =
     r\<lparr>rc_Enabled := (case x of None \<Rightarrow> rc_Enabled r | Some v \<Rightarrow> fb v)\<rparr>"
  "(case x of None \<Rightarrow> r | Some v \<Rightarrow> r\<lparr>rc_Interval := f v\<rparr>) =
     r\<lparr>rc_Interval := (case x of None \<Rightarrow> rc_Interval r | Some v \<Rightarrow> f v)\<rparr>"
  "(case x of None \<Rightarrow> r | Some v \<Rightarrow> r\<lparr>rc_Timeout := f v\<rparr>) =
     r\<lparr>rc_Timeout := (case x of None \<Rightarrow> rc_Timeout r | Some v \<Rightarrow> f v)\<rparr>"
  "(case x of None \<Rightarrow> r | Some v \<Rightarrow> r\<lparr>rc_HealthCheckTimeout := f v\<rparr>) =
     r\<lparr>rc_HealthCheckTimeout := (case x of None \<Rightarrow> rc_HealthCheckTimeout r | Some v \<Rightarrow> f v)\<rparr>"
  "(case x of None \<Rightarrow> r | Some v \<Rightarrow> r\<lparr>rc_DrainTimeout := f v\<rparr>) =
     r\<lparr>rc_DrainTimeout := (case x of None \<Rightarrow> rc_DrainTimeout r | Some v \<Rightarrow> f v)\<rparr>"
  "(case x of None \<Rightarrow> r | Some v \<Rightarrow> r\<lparr>rc_MinAvailableNodes := f v\<rparr>) =
     r\<lparr>rc_MinAvailableNodes := (case x of None \<Rightarrow> rc_MinAvailableNodes r | Some v \<Rightarrow> f v)\<rparr>"
  by (cases x; simp)+

lemma does_refresh: "does (run_steps (refresh_steps r)) (set_refresh (merge_refresh r)) id False"
  unfolding refresh_steps_def
  apply (rule does_eq, (rule does_steps does_refresh_fields)+)
  subgoal for c
    apply (simp only: case_set_refresh id_apply)
    apply (simp only: case_refresh_fields)
    apply (rule arg_cong [where f = "\<lambda>f. set_refresh f c"])
    apply (rule ext)
    apply (simp add: merge_refresh_def refresh_eq_iff cong: option.case_cong)
    done
  apply (simp_all add: option.case_eq_if)
  done

lemma does_mode: "does (upd_mode old v) (\<lambda>c. c\<lparr>cf_Mode := wanted_mode v\<rparr>) id (wanted_mode v \<noteq> cf_Mode old)"
  unfolding upd_mode_def wanted_mode_def Let_def
  by (rule does_eq, (rule does_steps)+) simp_all

lemma does_log_level:
  "does (upd_log_level old v) (\<lambda>c. c\<lparr>cf_LogLevel := wanted_log_level v\<rparr>) id
     (default_text ''info'' (lower_trim (wanted_log_level v)) \<noteq>
      default_text ''info'' (lower_trim (cf_LogLevel old)))"
  unfolding upd_log_level_def wanted_log_level_def Let_def
  by (rule does_eq, (rule does_steps)+) (simp_all add: lower_trim_default, simp add: default_text_def)
lemma does_management:
  "does (given (su_Management u) (\<lambda>g. run_steps (management_steps g)))
     (\<lambda>c. c\<lparr>cf_Management := (cf_Management c)
        \<lparr>mgc_Enabled := (case Option.bind (su_Management u) gu_Enabled of
           None \<Rightarrow> mgc_Enabled (cf_Management c) | Some v \<Rightarrow> Some v),
         mgc_Listen := (case Option.bind (su_Management u) gu_Listen of
           None \<Rightarrow> mgc_Listen (cf_Management c) | Some v \<Rightarrow> TrimSpace v),
         mgc_Password := (case Option.bind (su_Management u) gu_Password of
           None \<Rightarrow> mgc_Password (cf_Management c) | Some v \<Rightarrow> v)\<rparr>\<rparr>)
     (\<lambda>m. m\<lparr>mc_Password := (case Option.bind (su_Management u) gu_Password of
           None \<Rightarrow> mc_Password m | Some v \<Rightarrow> v)\<rparr>) False"
proof (cases "su_Management u")
  case None
  then show ?thesis by (simp add: does_def given_def)
next
  case (Some g)
  show ?thesis
    unfolding Some given_simps management_steps_def
    by (rule does_eq, (rule does_steps)+)
      (auto simp: set_management_def split: option.splits)
qed

lemma does_general:
  "does (run_steps (general_steps old u))
     (\<lambda>c. c\<lparr>cf_ExternalIP := (case su_ExternalIP u of None \<Rightarrow> cf_ExternalIP c | Some v \<Rightarrow> TrimSpace v),
        cf_Management := (cf_Management c)\<lparr>mgc_ProbeTarget :=
          (case su_ProbeTarget u of
             None \<Rightarrow> mgc_ProbeTarget (cf_Management c) | Some v \<Rightarrow> TrimSpace v)\<rparr>,
        cf_SkipCertVerify := (case su_SkipCertVerify u of None \<Rightarrow> cf_SkipCertVerify c | Some v \<Rightarrow> v)\<rparr>)
     (\<lambda>m. m\<lparr>mc_ExternalIP := (case su_ExternalIP u of None \<Rightarrow> mc_ExternalIP m | Some v \<Rightarrow> TrimSpace v),
        mc_ProbeTarget := (case su_ProbeTarget u of None \<Rightarrow> mc_ProbeTarget m | Some v \<Rightarrow> TrimSpace v),
        mc_SkipCertVerify := (case su_SkipCertVerify u of None \<Rightarrow> mc_SkipCertVerify m | Some v \<Rightarrow> v)\<rparr>)
     (case su_SkipCertVerify u of None \<Rightarrow> False | Some v \<Rightarrow> v \<noteq> cf_SkipCertVerify old)"
  unfolding general_steps_def
  by (rule does_eq, (rule does_steps)+)
    (auto simp: set_management_def split: option.splits)

text \<open>A step for an optional field, as an update of that field.\<close>

lemma does_field:
  assumes "\<And>v. does (f v) (put (\<lambda>x. h v x)) id (n v)" and "\<And>c. put (\<lambda>x. x) c = c"
  shows "does (given x f) (put (\<lambda>y. case x of None \<Rightarrow> y | Some v \<Rightarrow> h v y)) id
    (case x of None \<Rightarrow> False | Some v \<Rightarrow> n v)"
  using assms by (cases x) (auto simp: does_def given_def)

lemma does_settings_fields:
  "does (given (su_Mode u) (upd_mode old))
     (cf_Mode_update (\<lambda>y. case su_Mode u of None \<Rightarrow> y | Some v \<Rightarrow> wanted_mode v)) id
     (case su_Mode u of None \<Rightarrow> False | Some v \<Rightarrow> wanted_mode v \<noteq> cf_Mode old)"
  "does (given (su_LogLevel u) (upd_log_level old))
     (cf_LogLevel_update (\<lambda>y. case su_LogLevel u of None \<Rightarrow> y | Some v \<Rightarrow> wanted_log_level v)) id
     (case su_LogLevel u of None \<Rightarrow> False
      | Some v \<Rightarrow> default_text ''info'' (lower_trim (wanted_log_level v)) \<noteq>
          default_text ''info'' (lower_trim (cf_LogLevel old)))"
  "does (given (su_ConnectTimeout u) (upd_connect_timeout old))
     (cf_ConnectTimeout_update
       (\<lambda>y. case su_ConnectTimeout u of None \<Rightarrow> y | Some v \<Rightarrow> read_optional_duration y v)) id
     (case su_ConnectTimeout u of None \<Rightarrow> False
      | Some v \<Rightarrow> read_optional_duration (cf_ConnectTimeout old) v \<noteq> cf_ConnectTimeout old)"
  "does (given (su_Listener u) (\<lambda>l. run_steps (listener_steps old l)))
     (cf_Listener_update (\<lambda>y. case su_Listener u of None \<Rightarrow> y | Some v \<Rightarrow> merge_listener v y)) id
     (case su_Listener u of None \<Rightarrow> False
      | Some v \<Rightarrow> merge_listener v (cf_Listener old) \<noteq> cf_Listener old)"
  "does (given (su_MultiPort u) (\<lambda>m. run_steps (multi_port_steps old m)))
     (cf_MultiPort_update (\<lambda>y. case su_MultiPort u of None \<Rightarrow> y | Some v \<Rightarrow> merge_multi_port v y)) id
     (case su_MultiPort u of None \<Rightarrow> False
      | Some v \<Rightarrow> merge_multi_port v (cf_MultiPort old) \<noteq> cf_MultiPort old)"
  "does (given (su_Pool u) (\<lambda>p. run_steps (pool_steps old p)))
     (cf_Pool_update (\<lambda>y. case su_Pool u of None \<Rightarrow> y | Some v \<Rightarrow> merge_pool v y)) id
     (case su_Pool u of None \<Rightarrow> False
      | Some v \<Rightarrow> shown_pool (merge_pool v (cf_Pool old)) \<noteq> shown_pool (cf_Pool old))"
  "does (given (su_Subscriptions u) subscription_step)
     (cf_Subscriptions_update (\<lambda>y. case su_Subscriptions u of None \<Rightarrow> y | Some v \<Rightarrow> unique_subs v {})) id
     (case su_Subscriptions u of None \<Rightarrow> False | Some v \<Rightarrow> False)"
  "does (given (su_SubscriptionRefresh u) (\<lambda>r. run_steps (refresh_steps r)))
     (cf_SubscriptionRefresh_update
       (\<lambda>y. case su_SubscriptionRefresh u of None \<Rightarrow> y | Some v \<Rightarrow> merge_refresh v y)) id
     (case su_SubscriptionRefresh u of None \<Rightarrow> False | Some v \<Rightarrow> False)"
  "does (given (su_NodeFilter u) (\<lambda>f. run_steps (filter_steps old f)))
     (cf_NodeFilter_update (\<lambda>y. case su_NodeFilter u of None \<Rightarrow> y | Some v \<Rightarrow> merge_filter v y)) id
     (case su_NodeFilter u of None \<Rightarrow> False
      | Some v \<Rightarrow> filter_view (merge_filter v (cf_NodeFilter old)) \<noteq> filter_view (cf_NodeFilter old))"
  by (rule does_field, rule does_eq [OF does_mode], simp, simp, simp, simp)
    (rule does_field, rule does_eq [OF does_log_level], simp, simp, simp, simp,
     rule does_field, rule does_eq [OF does_connect_timeout],
       (rule config.equality; simp), simp, simp, simp,
     rule does_field, rule does_eq [OF does_listener],
       (rule config.equality; simp add: set_listener_def), simp, simp, simp,
     rule does_field, rule does_eq [OF does_multi_port],
       (rule config.equality; simp add: set_multi_port_def), simp, simp, simp,
     rule does_field, rule does_eq [OF does_pool],
       (rule config.equality; simp add: set_pool_def), simp, simp, simp,
     rule does_field, simp add: subscription_step_def does_assign, simp,
     rule does_field, rule does_eq [OF does_refresh],
       (rule config.equality; simp add: set_refresh_def), simp, simp, simp,
     rule does_field, rule does_eq [OF does_filter],
       (rule config.equality; simp add: set_filter_def), simp, simp, simp)
lemma does_settings:
  "does (run_steps (settings_steps old u)) (merge_settings u) (merge_monitor u)
     (reload_view (merge_settings u old) \<noteq> reload_view old)"
  unfolding settings_steps_def
  apply (rule does_eq)
     apply (rule does_Cons does_Nil does_settings_fields does_management does_general)+
  subgoal for c
    by (rule config.equality)
      (simp_all add: merge_settings_def merge_management_def cong: option.case_cong)
  subgoal for m
    by (simp add: merge_monitor_def cong: option.case_cong)
  subgoal
    by (auto simp: reload_view_def merge_settings_def split: option.splits)
  done

text \<open>The rollback undoes everything a step may have changed.\<close>

definition undoes :: "upd_step \<Rightarrow> bool" where
  "undoes f \<longleftrightarrow>
     (\<forall>u e u' c. f u = (e, u') \<longrightarrow>
        rollback_cfg c (up_cfg u') = rollback_cfg c (up_cfg u) \<and>
        sync_cfg c (up_mon u') = sync_cfg c (up_mon u))"

lemma undoes_steps:
  "undoes (refuse e)" "(\<And>c old. rollback_cfg old (g c) = rollback_cfg old c) \<Longrightarrow> undoes (assign n g)"
  "(\<And>m c. sync_cfg c (k m) = sync_cfg c m) \<Longrightarrow> undoes (assign_mon k)"
  "(\<And>v. undoes (f v)) \<Longrightarrow> undoes (given x f)"
  "undoes a \<Longrightarrow> undoes b \<Longrightarrow> undoes (if q then a else b)"
  "(\<And>d. undoes (h d)) \<Longrightarrow> undoes b \<Longrightarrow> undoes (case y of None \<Rightarrow> b | Some d \<Rightarrow> h d)"
  "undoes (run_steps [])"
  by (cases x; cases y; auto simp: undoes_def refuse_def assign_def assign_mon_def)+

lemma undoes_Cons: "undoes f \<Longrightarrow> undoes (run_steps fs) \<Longrightarrow> undoes (run_steps (f # fs))"
  unfolding undoes_def by (fastforce split: prod.splits option.splits)

lemma undoes_settings: "undoes (run_steps (settings_steps old u))"
  unfolding settings_steps_def listener_steps_def multi_port_steps_def pool_steps_def
    management_steps_def general_steps_def refresh_steps_def filter_steps_def subscription_step_def
    upd_mode_def upd_log_level_def upd_connect_timeout_def duration_step_def Let_def
  by (intro undoes_steps undoes_Cons)
    (simp_all add: rollback_cfg_def sync_cfg_def set_listener_def set_multi_port_def set_pool_def
      set_management_def set_refresh_def set_filter_def)

lemma rollback_same [simp]: "rollback_cfg c c = c"
  by (simp add: rollback_cfg_def)

text \<open>The three ways an update of a bound configuration ends.\<close>

lemma updateSettings_cases:
  assumes "cfgSrc s = Some c"
  obtains (refused) e r where
      "run_steps (settings_steps c u) \<lparr>up_cfg = c, up_mon = sv_cfg s, up_need = False\<rparr> = (Some e, r)"
      "updateSettings env u s = (Inl e, put_upd (up_cfg r) (up_mon r) (bm_disk (sv_box s)) s)"
    | (unsaved) e r d where
      "run_steps (settings_steps c u) \<lparr>up_cfg = c, up_mon = sv_cfg s, up_need = False\<rparr> = (None, r)"
      "SaveSettings env (Some (up_cfg r)) (bm_disk (sv_box s)) = (Some e, d)"
      "updateSettings env u s =
         (Inl (SaveFailed e), put_upd (rollback_cfg c (up_cfg r)) (sync_cfg c (up_mon r)) d s)"
    | (saved) r d where
      "run_steps (settings_steps c u) \<lparr>up_cfg = c, up_mon = sv_cfg s, up_need = False\<rparr> = (None, r)"
      "SaveSettings env (Some (up_cfg r)) (bm_disk (sv_box s)) = (None, d)"
      "updateSettings env u s =
         (Inr (up_need r), apply_probe_target u
            (notify_refresher u (up_cfg r) (put_upd (up_cfg r) (up_mon r) d s)))"
proof -
  obtain eo r where r: "run_steps (settings_steps c u) \<lparr>up_cfg = c, up_mon = sv_cfg s, up_need = False\<rparr> = (eo, r)"
    by fastforce
  obtain so d where d: "SaveSettings env (Some (up_cfg r)) (bm_disk (sv_box s)) = (so, d)"
    by fastforce
  show thesis
  proof (cases eo)
    case (Some e)
    then show thesis using r assms by (intro refused [of e r]) (simp_all add: updateSettings_def)
  next
    case None
    show thesis
    proof (cases so)
      case (Some e)
      then show thesis
        using r d None assms by (intro unsaved [of r e d]) (simp_all add: updateSettings_def)
    next
      case so: None
      then show thesis
        using r d None assms by (intro saved [of r d]) (simp_all add: updateSettings_def)
    qed
  qed
qed

text \<open>A step never reports a failure to save.\<close>

definition validates :: "upd_step \<Rightarrow> bool" where
  "validates f \<longleftrightarrow> (\<forall>u e u'. f u = (Some e, u') \<longrightarrow> http_status e = 400)"

lemma validates_steps:
  "http_status e = 400 \<Longrightarrow> validates (refuse e)" "validates (assign n g)" "validates (assign_mon k)"
  "(\<And>v. validates (f v)) \<Longrightarrow> validates (given x f)"
  "validates a \<Longrightarrow> validates b \<Longrightarrow> validates (if q then a else b)"
  "(\<And>d. validates (h d)) \<Longrightarrow> validates b \<Longrightarrow> validates (case y of None \<Rightarrow> b | Some d \<Rightarrow> h d)"
  "validates (run_steps [])"
  by (cases x; cases y; auto simp: validates_def refuse_def assign_def assign_mon_def)+

lemma validates_Cons: "validates f \<Longrightarrow> validates (run_steps fs) \<Longrightarrow> validates (run_steps (f # fs))"
  unfolding validates_def by (fastforce split: prod.splits option.splits)

lemma validates_settings: "validates (run_steps (settings_steps old u))"
  unfolding settings_steps_def listener_steps_def multi_port_steps_def pool_steps_def
    management_steps_def general_steps_def refresh_steps_def filter_steps_def subscription_step_def
    upd_mode_def upd_log_level_def upd_connect_timeout_def duration_step_def Let_def
  by (intro validates_steps validates_Cons) simp_all

lemma refusal_not_save_failure:
  "run_steps (settings_steps c u) x = (Some e, r) \<Longrightarrow> http_status e = 400"
  using validates_settings [of c u] unfolding validates_def by blast

lemma put_upd_disk:
  "bm_cfg (sv_box s) = Some c \<Longrightarrow> put_upd c (sv_cfg s) d s = set_box ((sv_box s)\<lparr>bm_disk := d\<rparr>) s"
  by (simp add: put_upd_def set_box_def sv_box_def)



section \<open>Sending back what was read\<close>

text \<open>The update that sends every setting of a snapshot back; a password is not part of it.\<close>

definition echo_update :: "settings_snapshot \<Rightarrow> settings_update" where
  "echo_update p =
     \<lparr>su_Mode = Some (sp_Mode p), su_LogLevel = Some (sp_LogLevel p),
      su_ConnectTimeout = Some (sp_ConnectTimeout p),
      su_Listener = Some \<lparr>lu_Address = Some (lc_Address (sp_Listener p)),
        lu_Port = Some (lc_Port (sp_Listener p)), lu_Username = Some (lc_Username (sp_Listener p)),
        lu_Password = Some (lc_Password (sp_Listener p))\<rparr>,
      su_MultiPort = Some \<lparr>mu_Address = Some (mpc_Address (sp_MultiPort p)),
        mu_BasePort = Some (mpc_BasePort (sp_MultiPort p)),
        mu_Username = Some (mpc_Username (sp_MultiPort p)),
        mu_Password = Some (mpc_Password (sp_MultiPort p))\<rparr>,
      su_Pool = Some \<lparr>pu_Mode = Some (pv_Mode (sp_Pool p)),
        pu_FailureThreshold = Some (pv_FailureThreshold (sp_Pool p)),
        pu_BlacklistDuration = Some (pv_BlacklistDuration (sp_Pool p))\<rparr>,
      su_Management = Some \<lparr>gu_Enabled = Some (mv_Enabled (sp_Management p)),
        gu_Listen = Some (mv_Listen (sp_Management p)), gu_Password = None\<rparr>,
      su_ExternalIP = Some (sp_ExternalIP p), su_ProbeTarget = Some (sp_ProbeTarget p),
      su_SkipCertVerify = Some (sp_SkipCertVerify p), su_Subscriptions = Some (sp_Subscriptions p),
      su_SubscriptionRefresh = Some \<lparr>ru_Enabled = Some (rv_Enabled (sp_SubscriptionRefresh p)),
        ru_Interval = Some (rv_Interval (sp_SubscriptionRefresh p)),
        ru_Timeout = Some (rv_Timeout (sp_SubscriptionRefresh p)),
        ru_HealthCheckTimeout = Some (rv_HealthCheckTimeout (sp_SubscriptionRefresh p)),
        ru_DrainTimeout = Some (rv_DrainTimeout (sp_SubscriptionRefresh p)),
        ru_MinAvailableNodes = Some (rv_MinAvailableNodes (sp_SubscriptionRefresh p))\<rparr>,
      su_NodeFilter = Some \<lparr>fu_Target = Some (nf_Target (sp_NodeFilter p)),
        fu_Include = Some (nf_Include (sp_NodeFilter p)),
        fu_Exclude = Some (nf_Exclude (sp_NodeFilter p)),
        fu_UseRegex = Some (nf_UseRegex (sp_NodeFilter p))\<rparr>\<rparr>"

text \<open>
  A configuration whose settings are in the form an update would give them, up to the spelling of
  the log level, the pool's mode and the filter's target, which \<open>settled\<close> writes out.
\<close>

definition settled :: "config \<Rightarrow> config" where
  "settled c =
     c\<lparr>cf_LogLevel := default_text ''info'' (lower_trim (cf_LogLevel c)),
       cf_Pool := (cf_Pool c)\<lparr>pc_Mode := lower_trim (pc_Mode (cf_Pool c))\<rparr>,
       cf_NodeFilter := (cf_NodeFilter c)
         \<lparr>nf_Target := default_text ''name'' (lower_trim (nf_Target (cf_NodeFilter c)))\<rparr>\<rparr>"

definition int64 :: "int \<Rightarrow> bool" where
  "int64 d \<longleftrightarrow> - (2 ^ 63) \<le> d \<and> d < 2 ^ 63"

definition address_ok :: "string \<Rightarrow> bool" where
  "address_ok a \<longleftrightarrow> TrimSpace a = a \<and> \<not> bad_address a"

definition durations_ok :: "config \<Rightarrow> bool" where
  "durations_ok c \<longleftrightarrow>
     int64 (cf_ConnectTimeout c) \<and> int64 (pc_BlacklistDuration (cf_Pool c)) \<and>
     int64 (rc_Interval (cf_SubscriptionRefresh c)) \<and> int64 (rc_Timeout (cf_SubscriptionRefresh c)) \<and>
     int64 (rc_HealthCheckTimeout (cf_SubscriptionRefresh c)) \<and>
     int64 (rc_DrainTimeout (cf_SubscriptionRefresh c))"

definition texts_ok :: "config \<Rightarrow> bool" where
  "texts_ok c \<longleftrightarrow>
     address_ok (lc_Address (cf_Listener c)) \<and> TrimSpace (lc_Username (cf_Listener c)) = lc_Username (cf_Listener c) \<and>
     address_ok (mpc_Address (cf_MultiPort c)) \<and>
     TrimSpace (mpc_Username (cf_MultiPort c)) = mpc_Username (cf_MultiPort c) \<and>
     TrimSpace (mgc_Listen (cf_Management c)) = mgc_Listen (cf_Management c) \<and>
     TrimSpace (mgc_ProbeTarget (cf_Management c)) = mgc_ProbeTarget (cf_Management c) \<and>
     TrimSpace (cf_ExternalIP c) = cf_ExternalIP c \<and>
     unique_subs (cf_Subscriptions c) {} = cf_Subscriptions c \<and>
     normalizeStringList (nf_Include (cf_NodeFilter c)) = nf_Include (cf_NodeFilter c) \<and>
     normalizeStringList (nf_Exclude (cf_NodeFilter c)) = nf_Exclude (cf_NodeFilter c)"

definition choices_ok :: "config \<Rightarrow> bool" where
  "choices_ok c \<longleftrightarrow>
     cf_Mode c \<in> {''pool'', ''multi-port'', ''hybrid''} \<and>
     default_text ''info'' (lower_trim (cf_LogLevel c)) \<in>
       {''trace'', ''debug'', ''info'', ''warn'', ''error'', ''fatal'', ''panic''} \<and>
     lower_trim (pc_Mode (cf_Pool c)) \<in> {''sequential'', ''random'', ''balance''} \<and>
     default_text ''name'' (lower_trim (nf_Target (cf_NodeFilter c))) \<in> {''name'', ''geo'', ''name_or_geo''} \<and>
     lc_Port (cf_Listener c) \<noteq> 0 \<and> mpc_BasePort (cf_MultiPort c) \<noteq> 0 \<and>
     0 < pc_FailureThreshold (cf_Pool c) \<and> mgc_Enabled (cf_Management c) \<noteq> None"

definition settings_ok :: "config \<Rightarrow> bool" where
  "settings_ok c \<longleftrightarrow> durations_ok c \<and> texts_ok c \<and> choices_ok c"

lemma duration_text_ends:
  obtains c s where "duration_String d = c # s" "c = CHR ''-'' \<or> is_digit c" "last (c # s) = CHR ''s''"
proof -
  have ends: "last (duration_abs u) = CHR ''s''" for u
    unfolding duration_abs_def Let_def by (auto simp del: div_less)
  obtain c cs where "duration_abs (nat \<bar>d\<bar>) = c # cs" "is_digit c"
    using duration_abs_head by metis
  note u = this
  show thesis
  proof (cases "d < 0")
    case True
    then have "duration_String d = CHR ''-'' # c # cs" using u by (simp add: duration_String_def)
    then show thesis using that ends [of "nat \<bar>d\<bar>"] u by simp
  next
    case False
    then have "duration_String d = c # cs" using u by (simp add: duration_String_def)
    then show thesis using that [of c cs] ends [of "nat \<bar>d\<bar>"] u by simp
  qed
qed

lemma no_front_head:
  "\<forall>w \<in> set ws. w \<noteq> [] \<and> hd w \<noteq> a \<Longrightarrow> no_front ws (a # t)"
  by (auto simp: no_front_def prefix_Cons)

lemma TrimSpace_duration [simp]: "TrimSpace (duration_String d) = duration_String d"
proof (rule TrimSpace_trimmed)
  obtain c s where c: "duration_String d = c # s" "c = CHR ''-'' \<or> is_digit c" "last (c # s) = CHR ''s''"
    by (rule duration_text_ends)
  have "list_all (\<lambda>w. w \<noteq> [] \<and> hd w \<noteq> CHR ''-'' \<and> \<not> is_digit (hd w)) white_space"
    "list_all (\<lambda>w. w \<noteq> [] \<and> hd w \<noteq> CHR ''s'') (map rev white_space)"
    by code_simp+
  then have "\<forall>w \<in> set white_space. w \<noteq> [] \<and> hd w \<noteq> c"
    and tails: "\<forall>w \<in> set (map rev white_space). w \<noteq> [] \<and> hd w \<noteq> CHR ''s''"
    using c(2) unfolding list_all_iff by blast+
  then have "no_front white_space (c # s)" by (intro no_front_head)
  moreover obtain t where "rev (c # s) = CHR ''s'' # t"
    using c(3) hd_rev [of "c # s"] by (cases "rev (c # s)") auto
  then have "no_front (map rev white_space) (rev (c # s))"
    using no_front_head [OF tails] by simp
  ultimately show "trimmed (duration_String d)" by (simp only: trimmed_def c(1))
qed

lemma duration_text_nonempty [simp]: "duration_String d \<noteq> []"
  by (rule duration_text_ends [of d]) simp

lemma read_duration_String [simp]: "int64 d \<Longrightarrow> read_duration x (duration_String d) = d"
  by (simp add: read_duration_def int64_def ParseDuration_String)

text \<open>The choices are their own normal form.\<close>

lemma choices_lower:
  "m \<in> {''pool'', ''multi-port'', ''hybrid''} \<Longrightarrow> wanted_mode m = m"
  "l \<in> {''trace'', ''debug'', ''info'', ''warn'', ''error'', ''fatal'', ''panic''} \<Longrightarrow>
     l \<noteq> [] \<and> lower_trim l = l"
  "p \<in> {''sequential'', ''random'', ''balance''} \<Longrightarrow> p \<noteq> [] \<and> lower_trim p = p"
  "t \<in> {''name'', ''geo'', ''name_or_geo''} \<Longrightarrow> t \<noteq> [] \<and> lower_trim t = t"
proof -
  have "list_all (\<lambda>m. wanted_mode m = m) [''pool'', ''multi-port'', ''hybrid'']"
    "list_all (\<lambda>l. l \<noteq> [] \<and> lower_trim l = l)
       [''trace'', ''debug'', ''info'', ''warn'', ''error'', ''fatal'', ''panic'']"
    "list_all (\<lambda>p. p \<noteq> [] \<and> lower_trim p = p) [''sequential'', ''random'', ''balance'']"
    "list_all (\<lambda>t. t \<noteq> [] \<and> lower_trim t = t) [''name'', ''geo'', ''name_or_geo'']"
    by code_simp+
  then show
    "m \<in> {''pool'', ''multi-port'', ''hybrid''} \<Longrightarrow> wanted_mode m = m"
    "l \<in> {''trace'', ''debug'', ''info'', ''warn'', ''error'', ''fatal'', ''panic''} \<Longrightarrow>
       l \<noteq> [] \<and> lower_trim l = l"
    "p \<in> {''sequential'', ''random'', ''balance''} \<Longrightarrow> p \<noteq> [] \<and> lower_trim p = p"
    "t \<in> {''name'', ''geo'', ''name_or_geo''} \<Longrightarrow> t \<noteq> [] \<and> lower_trim t = t"
    unfolding list_all_iff by auto
qed

lemma default_text_nonempty [simp]: "s \<noteq> [] \<Longrightarrow> default_text d s = s"
  by (simp add: default_text_def)

lemma log_level_normal:
  assumes "default_text ''info'' (lower_trim l) \<in>
    {''trace'', ''debug'', ''info'', ''warn'', ''error'', ''fatal'', ''panic''}"
  shows "wanted_log_level l = default_text ''info'' (lower_trim l)"
proof -
  have "default_text ''info'' (lower_trim l) \<noteq> ''warning''" using assms by auto
  then show ?thesis by (simp add: wanted_log_level_def Let_def)
qed

lemma choices_okD:
  "choices_ok c \<Longrightarrow> cf_Mode c \<in> {''pool'', ''multi-port'', ''hybrid''}"
  "choices_ok c \<Longrightarrow> default_text ''info'' (lower_trim (cf_LogLevel c)) \<in>
     {''trace'', ''debug'', ''info'', ''warn'', ''error'', ''fatal'', ''panic''}"
  "choices_ok c \<Longrightarrow> lower_trim (pc_Mode (cf_Pool c)) \<in> {''sequential'', ''random'', ''balance''}"
  "choices_ok c \<Longrightarrow> default_text ''name'' (lower_trim (nf_Target (cf_NodeFilter c))) \<in>
     {''name'', ''geo'', ''name_or_geo''}"
  "choices_ok c \<Longrightarrow> mgc_Enabled (cf_Management c) \<noteq> None"
  "choices_ok c \<Longrightarrow> lc_Port (cf_Listener c) \<noteq> 0 \<and> mpc_BasePort (cf_MultiPort c) \<noteq> 0"
  unfolding choices_ok_def by (elim conjE, (assumption | (intro conjI, assumption+)))+

lemma settled_views:
  assumes "choices_ok c"
  shows "reload_view (settled c) = reload_view c"
proof -
  let ?l = "default_text ''info'' (lower_trim (cf_LogLevel c))" and ?p = "lower_trim (pc_Mode (cf_Pool c))"
    and ?t = "default_text ''name'' (lower_trim (nf_Target (cf_NodeFilter c)))"
  have "?l \<noteq> [] \<and> lower_trim ?l = ?l" "?p \<noteq> [] \<and> lower_trim ?p = ?p" "?t \<noteq> [] \<and> lower_trim ?t = ?t"
    by (rule choices_lower(2) [OF choices_okD(2) [OF assms]] choices_lower(3) [OF choices_okD(3) [OF assms]]
        choices_lower(4) [OF choices_okD(4) [OF assms]])+
  then show ?thesis
    by (simp add: reload_view_def settled_def shown_pool_def filter_view_def)
qed

lemma merge_echo:
  assumes "settings_ok c"
  shows "merge_settings (echo_update (config_snapshot c)) c = settled c"
proof -
  have "choices_ok c" using assms by (simp add: settings_ok_def)
  note choice = choices_okD [OF this]
  obtain e where e: "mgc_Enabled (cf_Management c) = Some e"
    using choice(5) by blast
  have ok: "durations_ok c" "texts_ok c" using assms by (simp_all add: settings_ok_def)
  note ok = ok [unfolded durations_ok_def texts_ok_def address_ok_def]
  have choices: "wanted_mode (cf_Mode c) = cf_Mode c"
    "wanted_log_level (cf_LogLevel c) = default_text ''info'' (lower_trim (cf_LogLevel c))"
    "lower_trim (pc_Mode (cf_Pool c)) \<noteq> []"
    using choices_lower(1) [OF choice(1)] log_level_normal [OF choice(2)] choices_lower(3) [OF choice(3)]
    by simp_all
  show ?thesis
    apply (rule config.equality)
    using ok e choices
    apply (simp_all del: insert_iff add: merge_settings_def echo_update_def config_snapshot_def refresh_view_of_def
        merge_listener_def merge_multi_port_def merge_pool_def merge_management_def merge_refresh_def
        merge_filter_def read_optional_duration_def ManagementEnabled_def settled_def)
    done
qed

text \<open>A step that cannot refuse.\<close>

definition accepts :: "upd_step \<Rightarrow> bool" where
  "accepts f \<longleftrightarrow> (\<forall>u. fst (f u) = None)"

lemma accepts_steps:
  "accepts (assign n g)" "accepts (assign_mon k)" "accepts (given None h)"
  "accepts (h v) \<Longrightarrow> accepts (given (Some v) h)"
  "\<not> q \<Longrightarrow> accepts b \<Longrightarrow> accepts (if q then a else b)"
  "accepts (run_steps [])"
  by (simp_all add: accepts_def assign_def assign_mon_def)

lemma accepts_Cons: "accepts f \<Longrightarrow> accepts (run_steps fs) \<Longrightarrow> accepts (run_steps (f # fs))"
  by (auto simp: accepts_def split: prod.splits option.splits) (metis fst_conv option.distinct(1))

lemma accepts_duration: "int64 d \<Longrightarrow> accepts (duration_step n put (duration_String d))"
  by (simp add: accepts_def duration_step_def assign_def int64_def ParseDuration_String)

lemma accepts_mode: "m \<in> {''pool'', ''multi-port'', ''hybrid''} \<Longrightarrow> accepts (upd_mode c m)"
  using choices_lower(1) [of m]
  unfolding upd_mode_def Let_def wanted_mode_def by (intro accepts_steps) auto

lemma accepts_log_level:
  "default_text ''info'' (lower_trim l) \<in>
     {''trace'', ''debug'', ''info'', ''warn'', ''error'', ''fatal'', ''panic''} \<Longrightarrow>
   accepts (upd_log_level c l)"
  using log_level_normal [of l]
  unfolding upd_log_level_def Let_def wanted_log_level_def by (intro accepts_steps) auto

lemma accepts_timeout:
  "int64 d \<Longrightarrow> accepts (upd_connect_timeout c (if 0 < d then duration_String d else []))"
  by (auto simp: accepts_def upd_connect_timeout_def assign_def int64_def ParseDuration_String)

lemma accepts_pool_duration:
  "int64 d \<Longrightarrow> accepts (if TrimSpace (duration_String d) = [] then assign False id
     else (case ParseDuration (TrimSpace (duration_String d)) of None \<Rightarrow> refuse e | Some d \<Rightarrow> assign (n d) (h d)))"
  by (simp add: accepts_def assign_def int64_def ParseDuration_String)

lemma accepts_listener:
  "\<not> bad_address (TrimSpace a) \<Longrightarrow> p \<noteq> 0 \<Longrightarrow>
   accepts (run_steps (listener_steps c
     \<lparr>lu_Address = Some a, lu_Port = Some p, lu_Username = Some u, lu_Password = Some w\<rparr>))"
  unfolding listener_steps_def Let_def by (simp add: accepts_def assign_def)

lemma accepts_multi_port:
  "\<not> bad_address (TrimSpace a) \<Longrightarrow> p \<noteq> 0 \<Longrightarrow>
   accepts (run_steps (multi_port_steps c
     \<lparr>mu_Address = Some a, mu_BasePort = Some p, mu_Username = Some u, mu_Password = Some w\<rparr>))"
  unfolding multi_port_steps_def Let_def by (simp add: accepts_def assign_def)

lemma accepts_pool:
  "lower_trim m \<in> {''sequential'', ''random'', ''balance''} \<Longrightarrow> 0 < t \<Longrightarrow> int64 d \<Longrightarrow>
   accepts (run_steps (pool_steps c
     \<lparr>pu_Mode = Some m, pu_FailureThreshold = Some t, pu_BlacklistDuration = Some (duration_String d)\<rparr>))"
  using choices_lower(3) [of "lower_trim m"] accepts_pool_duration [of d]
  unfolding pool_steps_def Let_def pool_update.simps
  by (intro accepts_Cons accepts_steps accepts_pool_duration) auto

lemma accepts_filter:
  "default_text ''name'' (lower_trim t) \<in> {''name'', ''geo'', ''name_or_geo''} \<Longrightarrow>
   accepts (run_steps (filter_steps c
     \<lparr>fu_Target = Some t, fu_Include = Some i, fu_Exclude = Some e, fu_UseRegex = Some b\<rparr>))"
  unfolding filter_steps_def Let_def filter_update.simps
  by (intro accepts_Cons accepts_steps) auto

lemma accepts_refresh:
  "int64 a \<Longrightarrow> int64 b \<Longrightarrow> int64 d \<Longrightarrow> int64 e \<Longrightarrow>
   accepts (run_steps (refresh_steps
     \<lparr>ru_Enabled = Some x, ru_Interval = Some (duration_String a), ru_Timeout = Some (duration_String b),
      ru_HealthCheckTimeout = Some (duration_String d), ru_DrainTimeout = Some (duration_String e),
      ru_MinAvailableNodes = Some n\<rparr>))"
  unfolding refresh_steps_def refresh_update.simps
  by (intro accepts_Cons accepts_steps accepts_duration)

lemma accepts_management:
  "accepts (run_steps (management_steps \<lparr>gu_Enabled = Some x, gu_Listen = Some l, gu_Password = None\<rparr>))"
  unfolding management_steps_def management_update.simps by (intro accepts_Cons accepts_steps)

lemma accepts_general: "accepts (run_steps (general_steps c u))"
  unfolding general_steps_def
  by (simp add: accepts_def given_def assign_def assign_mon_def split: option.splits)

lemma echo_accepted:
  assumes "settings_ok c"
  shows "accepts (run_steps (settings_steps c (echo_update (config_snapshot c))))"
proof -
  note ok = assms [unfolded settings_ok_def durations_ok_def texts_ok_def choices_ok_def address_ok_def]
  have addr: "\<not> bad_address (TrimSpace (lc_Address (cf_Listener c)))"
    "\<not> bad_address (TrimSpace (mpc_Address (cf_MultiPort c)))"
    using ok by metis+
  show ?thesis
    unfolding settings_steps_def echo_update_def config_snapshot_def refresh_view_of_def
      settings_update.simps settings_snapshot.simps pool_view.simps management_view.simps
      refresh_view.simps subscription_step_def
    by (intro accepts_Cons accepts_steps accepts_mode accepts_log_level accepts_timeout accepts_listener
        accepts_multi_port accepts_pool accepts_filter accepts_refresh accepts_management
        accepts_general) (use ok addr in blast)+
qed


section \<open>Examples\<close>

definition no_update :: settings_update where
  "no_update =
     \<lparr>su_Mode = None, su_LogLevel = None, su_ConnectTimeout = None, su_Listener = None,
      su_MultiPort = None, su_Pool = None, su_Management = None, su_ExternalIP = None,
      su_ProbeTarget = None, su_SkipCertVerify = None, su_Subscriptions = None,
      su_SubscriptionRefresh = None, su_NodeFilter = None\<rparr>"

definition demo_settings :: config where
  "demo_settings = zero_config
     \<lparr>cf_Mode := ''pool'', cf_LogLevel := ''INFO'', cf_ConnectTimeout := 15 * second,
      cf_Listener := \<lparr>lc_Address = ''0.0.0.0'', lc_Port = 2323, lc_Username = ''u'', lc_Password = ''p''\<rparr>,
      cf_MultiPort := \<lparr>mpc_Address = ''::1'', mpc_BasePort = 28000, mpc_Username = [], mpc_Password = []\<rparr>,
      cf_Pool := \<lparr>pc_Mode = ''sequential'', pc_FailureThreshold = 3, pc_BlacklistDuration = 86400 * second\<rparr>,
      cf_Management := \<lparr>mgc_Enabled = Some True, mgc_Listen = ''0.0.0.0:9090'', mgc_ProbeTarget = ''x.org'',
        mgc_Password = ''secret''\<rparr>,
      cf_NodeFilter := \<lparr>nf_Target = [], nf_Include = [''a''], nf_Exclude = [], nf_UseRegex = False\<rparr>,
      cf_Subscriptions := [''http://s''], cf_filePath := ''/c.yaml''\<rparr>"

definition demo_server :: "disk \<Rightarrow> server" where
  "demo_server d =
     \<lparr>sv_cfg = sync_cfg demo_settings demo_monitor_config, sv_bound = True, sv_sessionToken = ''token'',
      sv_subRefresher = True, sv_nodeMgr = True,
      sv_sub = (demo_sub [])\<lparr>ss_box := (demo_bm ''pool'')\<lparr>bm_cfg := Some demo_settings, bm_disk := d\<rparr>\<rparr>\<rparr>"

lemma demo_server_cfg [simp]:
  "cfgSrc (demo_server d) = Some demo_settings" "bm_disk (sv_box (demo_server d)) = d"
  "sv_cfg (demo_server d) = sync_cfg demo_settings demo_monitor_config"
  "sync_cfg demo_settings (sync_cfg demo_settings demo_monitor_config) = sync_cfg demo_settings demo_monitor_config"
  by (simp_all add: demo_server_def cfgSrc_def sv_box_def sync_cfg_def)

definition full_disk :: disk where
  "full_disk = demo_disk\<lparr>dk_write_err := [''/c.yaml'' \<mapsto> ''no space''],
     dk_write_left := [''/c.yaml'' \<mapsto> 0]\<rparr>"

lemma demo_save:
  "cf_filePath c = ''/c.yaml'' \<Longrightarrow>
     SaveSettings demo_yaml_env (Some c) full_disk =
       (Some ''write config: no space'', full_disk\<lparr>dk_files := [''/c.yaml'' \<mapsto> []]\<rparr>)"
  "cf_filePath c = ''/c.yaml'' \<Longrightarrow>
     \<exists>d. SaveSettings demo_yaml_env (Some c) demo_disk = (None, d)"
  by (simp_all add: SaveSettings_def full_disk_def demo_disk_def empty_disk_def ReadFile_def
      WriteFile_def demo_yaml_env_def)

lemma demo_run:
  "run_steps (settings_steps c (no_update\<lparr>su_Mode := Some '' Hybrid''\<rparr>)) x =
     (None, x\<lparr>up_cfg := (up_cfg x)\<lparr>cf_Mode := ''hybrid''\<rparr>, up_need := (up_need x \<or> ''hybrid'' \<noteq> cf_Mode c)\<rparr>)"
proof -
  have "upd_mode c '' Hybrid'' = assign (''hybrid'' \<noteq> cf_Mode c) (\<lambda>c. c\<lparr>cf_Mode := ''hybrid''\<rparr>)"
  proof -
    have "default_text ''pool'' (lower_trim '' Hybrid'') = ''hybrid''" by code_simp
    then show ?thesis by (simp add: upd_mode_def Let_def)
  qed
  then show ?thesis
    by (auto simp: settings_steps_def no_update_def general_steps_def assign_def)
qed

text \<open>
  On a full disk the update is undone in memory, and the configuration file is left empty: the
  next start of the program finds no configuration.
\<close>

lemma demo_unsaved:
  "\<exists>s'. updateSettings demo_yaml_env (no_update\<lparr>su_Mode := Some '' Hybrid''\<rparr>) (demo_server full_disk) =
     (Inl (SaveFailed ''write config: no space''), s') \<and>
   dk_files (bm_disk (sv_box s')) = [''/c.yaml'' \<mapsto> []]"
proof -
  have fp: "cf_filePath demo_settings = ''/c.yaml''" by (simp add: demo_settings_def)
  have "bm_disk (sv_box (put_upd c m d s)) = d" for c m d s
    by (simp add: put_upd_def set_box_def sv_box_def)
  then show ?thesis
    by (simp add: updateSettings_def demo_run demo_save fp)
qed



lemma demo_settled:
  "default_text ''info'' (lower_trim (cf_LogLevel demo_settings)) = ''info''"
  "lower_trim (pc_Mode (cf_Pool demo_settings)) = ''sequential''"
  "default_text ''name'' (lower_trim (nf_Target (cf_NodeFilter demo_settings))) = ''name''"
  by code_simp+

lemma demo_settings_ok: "settings_ok demo_settings"
proof -
  have "durations_ok demo_settings"
    by (simp add: durations_ok_def demo_settings_def zero_config_def int64_def second_def)
  moreover have "texts_ok demo_settings" by code_simp
  moreover have "choices_ok demo_settings"
    unfolding choices_ok_def demo_settled by (simp add: demo_settings_def)
  ultimately show ?thesis by (simp add: settings_ok_def)
qed


text \<open>
  The log level \<open>warning\<close> is outside: the update turns it into \<open>warn\<close> and compares that with the
  old text, so sending the settings back asks for a reload.
\<close>

lemma echo_of_warning_reloads:
  "cf_LogLevel c = ''warning'' \<Longrightarrow>
   \<exists>u. upd_log_level c (sp_LogLevel (config_snapshot c)) x = (None, u) \<and> up_need u"
proof -
  have "default_text ''info'' (lower_trim ''warning'') = ''warning''" by code_simp
  then show "cf_LogLevel c = ''warning'' \<Longrightarrow> ?thesis"
    by (simp add: config_snapshot_def upd_log_level_def assign_def)
qed

section \<open>Refused updates\<close>

text \<open>
  A refused update is not undone: the settings before the refused one are changed in the running
  configuration, though not in the file, and the client is told of an error only.
\<close>

lemma refused_update_kept:
  "\<exists>s'. updateSettings env (no_update\<lparr>su_Mode := Some ''hybrid'', su_LogLevel := Some ''loud''\<rparr>)
      (demo_server d) = (Inl BadLogLevel, s') \<and>
    cfgSrc s' = Some (demo_settings\<lparr>cf_Mode := ''hybrid''\<rparr>) \<and> bm_disk (sv_box s') = d"
proof -
  have "default_text ''pool'' (lower_trim ''hybrid'') = ''hybrid''"
    "default_text ''info'' (lower_trim ''loud'') = ''loud''"
    by code_simp+
  then show ?thesis
    by (simp add: updateSettings_def settings_steps_def no_update_def upd_mode_def upd_log_level_def
        assign_def refuse_def put_upd_def set_box_def sv_box_def cfgSrc_def demo_server_def Let_def)
qed

text \<open>Whether a password is set: a blank password counts as none in the settings, not in the check.\<close>

lemma blank_password_shown_as_none:
  "mv_PasswordSet (sp_Management (config_snapshot (demo_settings\<lparr>cf_Management :=
     (cf_Management demo_settings)\<lparr>mgc_Password := '' ''\<rparr>\<rparr>))) = False"
proof -
  have "TrimSpace '' '' = []" by code_simp
  then show ?thesis by (simp add: config_snapshot_def)
qed

end
