(* ===== verification/Server.thy ===== *)
theory Server
  imports Server_Settings Url_Facts
begin

text \<open>
  The HTTP interface (\<open>internal/monitor/server.go\<close>): authentication, the routes and one handler per
  route, as functions from a request and the state to a response and the state after it.  The
  handlers call the operations of the monitor, the box manager and the subscription manager that
  the other theories model.  Left out are the listening socket, headers other than the ones
  read, the embedded page and the Chinese texts of messages, which are constructors of \<open>body\<close> and
  \<open>api_error\<close>.  \<open>net.JoinHostPort\<close> and \<open>URL.String\<close> are modelled as far as the export uses them.
\<close>

section \<open>Requests and responses\<close>

text \<open>
  \<open>nodePayload\<close>, and what \<open>encoding/json\<close> decodes a body to for each of the three types that the
  handlers ask for; \<open>None\<close> is a decoding error.
\<close>

record node_payload =
  np_Name :: string
  np_URI :: string
  np_Port :: port
  np_Username :: string
  np_Password :: string

definition toConfig :: "node_payload \<Rightarrow> node_config" where
  "toConfig p =
     \<lparr>nc_Name = np_Name p, nc_URI = np_URI p, nc_Port = np_Port p, nc_Username = np_Username p,
      nc_Password = np_Password p, nc_Source = [], nc_Geo = None\<rparr>"

record json_body =
  jb_password :: "string option"
  jb_settings :: "settings_update option"
  jb_node :: "node_payload option"

text \<open>
  A request: \<open>rq_Path\<close> is \<open>r.URL.Path\<close>, which \<open>net/http\<close> has unescaped, \<open>rq_Cookie\<close> the value of the
  session cookie, \<open>rq_Authorization\<close> the header, empty without one.
\<close>

record request =
  rq_Method :: string
  rq_Path :: string
  rq_Query :: string
  rq_Host :: string
  rq_Cookie :: "string option"
  rq_Authorization :: string
  rq_Body :: json_body

datatype api_error =
    Unauthorized
  | BadRequest
  | WrongPassword
  | SettingsError settings_error
  | NodeError bm_error
  | MonitorError string
  | RefreshError string
  | RefreshDisabled
  | NoSubscriptions
  | NodesDisabled
  | BadNodeName

record geo_option =
  go_Value :: string
  go_Label :: string
  go_Count :: nat

record geo_options =
  gp_TotalNodes :: nat
  gp_ResolvedNodes :: nat
  gp_UnknownNodes :: nat
  gp_Countries :: "geo_option list"
  gp_Regions :: "geo_option list"
  gp_Cities :: "geo_option list"

text \<open>The events of the probe of all nodes; the progress in percent follows from the two numbers.\<close>

datatype sse_event =
    EvStart nat
  | EvProgress tag string int string nat nat
  | EvTimeout nat nat
  | EvComplete nat nat nat

datatype body =
    NoBody
  | Page
  | ErrorBody api_error
  | NoPassword
  | LoggedIn string
  | NodesBody "snapshot list"
  | DebugBody "snapshot list" int int rat
  | Probed int
  | Released
  | Events "sse_event list"
  | EventsUnsupported
  | ExportBody string
  | SettingsBody settings_snapshot
  | SettingsSaved settings_snapshot bool
  | GeoBody geo_options
  | StatusDisabled
  | StatusBody bool bool sub_status
  | Refreshed int
  | ConfigNodesBody "node_config list"
  | NodeAdded node_config
  | NodeUpdated node_config
  | NodeDeleted
  | Reloaded

record response =
  rs_Status :: nat
  rs_Cookie :: "string option"
  rs_Body :: body

definition respond :: "nat \<Rightarrow> body \<Rightarrow> response" where
  "respond status b = \<lparr>rs_Status = status, rs_Cookie = None, rs_Body = b\<rparr>"

definition writeJSON :: "body \<Rightarrow> response" where
  "writeJSON b = respond 200 b"

definition fail :: "nat \<Rightarrow> api_error \<Rightarrow> response" where
  "fail status e = respond status (ErrorBody e)"

definition method_not_allowed :: response where
  "method_not_allowed = respond 405 NoBody"

text \<open>
  What the handlers meet outside the program: the orders in which Go iterates over maps, the
  execution of probes, the cancellation of a request, what the refresh loop does while a request
  waits for it, and whether the page can be read and the connection can be flushed.
\<close>

record api_env =
  ae_sub :: sub_env
  ae_order :: "addr list"
  ae_perm :: "geo_option list \<Rightarrow> geo_option list"
  ae_probe :: probe_env
  ae_mgr :: "tag \<Rightarrow> nat option"
  ae_arrival :: "snapshot list \<Rightarrow> snapshot list"
  ae_ctx_err :: "string option"
  ae_polls :: "sub_status option list"
  ae_meanwhile :: "sub_state \<Rightarrow> sub_state"
  ae_page :: bool
  ae_flusher :: bool

definition ae_bm :: "api_env \<Rightarrow> bm_env" where
  "ae_bm env = se_bm (ae_sub env)"

text \<open>
  A handler gives a response and the state after it, or nothing: it has not returned, or it
  panicked, upon which \<open>net/http\<close> drops the connection.
\<close>

type_synonym handler = "request \<Rightarrow> server \<Rightarrow> (response \<times> server) option"

definition world :: "server \<Rightarrow> pool_world" where
  "world s = bm_world (sv_box s)"

definition set_world :: "pool_world \<Rightarrow> server \<Rightarrow> server" where
  "set_world w s = set_box ((sv_box s)\<lparr>bm_world := w\<rparr>) s"

section \<open>Authentication\<close>

definition authorized :: "request \<Rightarrow> server \<Rightarrow> bool" where
  "authorized r s \<longleftrightarrow>
     rq_Cookie r = Some (sv_sessionToken s) \<or>
     rq_Authorization r \<noteq> [] \<and> TrimPrefix (rq_Authorization r) ''Bearer '' = sv_sessionToken s"

definition withAuth :: "handler \<Rightarrow> handler" where
  "withAuth h r s =
     (if mc_Password (sv_cfg s) = [] then h r s
      else if authorized r s then h r s
      else Some (fail 401 Unauthorized, s))"

definition handleAuth :: handler where
  "handleAuth r s =
     (if mc_Password (sv_cfg s) = [] then Some (writeJSON NoPassword, s)
      else if rq_Method r \<noteq> ''POST'' then Some (method_not_allowed, s)
      else
        (case jb_password (rq_Body r) of
           None \<Rightarrow> Some (fail 400 BadRequest, s)
         | Some p \<Rightarrow>
             if p \<noteq> mc_Password (sv_cfg s) then Some (fail 401 WrongPassword, s)
             else Some ((writeJSON (LoggedIn (sv_sessionToken s)))
                          \<lparr>rs_Cookie := Some (sv_sessionToken s)\<rparr>, s)))"

section \<open>Nodes of the monitor\<close>

definition handleIndex :: "api_env \<Rightarrow> handler" where
  "handleIndex env r s = Some (if ae_page env then respond 200 Page else respond 500 NoBody, s)"

definition handleNodes :: "api_env \<Rightarrow> handler" where
  "handleNodes env r s =
     (if rq_Method r \<noteq> ''GET'' then Some (method_not_allowed, s)
      else Some (writeJSON (NodesBody (SnapshotFiltered (ae_order env) False (world s))), s))"

text \<open>The success rate is computed in \<open>float64\<close>.\<close>

definition success_rate :: "int \<Rightarrow> int \<Rightarrow> rat" where
  "success_rate calls good =
     (if 0 < calls then fl (fl (fl (of_int good) / fl (of_int calls)) * 100) else 0)"

definition handleDebug :: "api_env \<Rightarrow> handler" where
  "handleDebug env r s =
     (if rq_Method r \<noteq> ''GET'' then Some (method_not_allowed, s)
      else
        (let snaps = Snapshot (ae_order env) (world s);
             good = sum_list (map sn_SuccessCount snaps);
             calls = sum_list (map (\<lambda>x. sn_SuccessCount x + sn_FailureCount x) snaps)
         in Some (writeJSON (DebugBody snaps calls good (success_rate calls good)), s)))"

definition probe_now :: "api_env \<Rightarrow> tag \<Rightarrow> server \<Rightarrow> (string + duration) \<times> server" where
  "probe_now env t s =
     (case Probe (run_probe (ae_probe env) (ae_mgr env)) t (world s) of
        (res, w) \<Rightarrow> (res, set_world w s))"

definition handleNodeAction :: "api_env \<Rightarrow> handler" where
  "handleNodeAction env r s =
     (let parts = Split (TrimPrefix (rq_Path r) ''/api/nodes/'') (CHR ''/'');
          t = hd parts;
          act = (if 1 < length parts then parts ! 1 else [])
      in if t = [] then Some (respond 400 NoBody, s)
         else if act = ''probe'' then
           (if rq_Method r \<noteq> ''POST'' then Some (method_not_allowed, s)
            else
              (case probe_now env t s of
                 (Inl e, s') \<Rightarrow> Some (writeJSON (ErrorBody (MonitorError e)), s')
               | (Inr d, s') \<Rightarrow>
                   Some (writeJSON (Probed (if milliseconds d = 0 \<and> 0 < d then 1 else milliseconds d)), s')))
         else if act = ''release'' then
           (if rq_Method r \<noteq> ''POST'' then Some (method_not_allowed, s)
            else
              (case Release run_release t (world s) of
                 (Some e, w) \<Rightarrow> Some (writeJSON (ErrorBody (MonitorError e)), set_world w s)
               | (None, w) \<Rightarrow> Some (writeJSON Released, set_world w s)))
         else Some (respond 404 NoBody, s))"

text \<open>
  The results of \<open>handleProbeAll\<close> in the order \<open>ae_arrival\<close> in which they arrive before the overall
  timeout; the nodes that are missing then are reported as timed out.  The text of an error is
  not escaped in the event, and the probes that still run are not part of the handler.
\<close>

fun probe_events ::
  "api_env \<Rightarrow> nat \<Rightarrow> snapshot list \<Rightarrow> nat \<Rightarrow> nat \<Rightarrow> server \<Rightarrow> sse_event list \<times> nat \<times> nat \<times> server" where
  "probe_events env num [] ok failed s = ([], ok, failed, s)"
| "probe_events env num (x # xs) ok failed s =
     (let (res, s') = probe_now env (ni_Tag x) s;
          (lat, err) = (case res of Inl e \<Rightarrow> (- 1, e) | Inr d \<Rightarrow> (milliseconds d, []));
          ok' = (if err \<noteq> [] then ok else Suc ok);
          failed' = (if err \<noteq> [] then Suc failed else failed);
          (evs, res') = probe_events env num xs ok' failed' s'
      in (EvProgress (ni_Tag x) (ni_Name x) lat err (ok' + failed') num # evs, res'))"

definition handleProbeAll :: "api_env \<Rightarrow> handler" where
  "handleProbeAll env r s =
     (if rq_Method r \<noteq> ''POST'' then Some (method_not_allowed, s)
      else if \<not> ae_flusher env then Some (respond 500 EventsUnsupported, s)
      else
        (let snaps = Snapshot (ae_order env) (world s); num = length snaps in
         if num = 0 then Some (respond 200 (Events [EvComplete 0 0 0]), s)
         else
           (let (evs, ok, failed, s') = probe_events env num (ae_arrival env snaps) 0 0 s;
                missing = num - (ok + failed);
                late = map (\<lambda>j. EvTimeout (ok + failed + Suc j) num) [0..<missing]
            in Some (respond 200 (Events (EvStart num # evs @ late @
                       [EvComplete num ok (failed + missing)])), s'))))"

section \<open>Export\<close>

definition trim_brackets :: "string \<Rightarrow> string" where
  "trim_brackets h =
     (let f = dropWhile (\<lambda>c. c = CHR ''['' \<or> c = CHR '']'') in rev (f (rev (f h))))"

definition extractHost :: "request \<Rightarrow> string" where
  "extractHost r =
     (let host = TrimSpace (rq_Host r) in
      if host = [] then []
      else
        (let h1 = (case SplitHostPort host of Some (h, _) \<Rightarrow> h | None \<Rightarrow> host);
             h2 = TrimSpace (trim_brackets h1)
         in if h2 = [] \<or> h2 = ''0.0.0.0'' \<or> h2 = ''::'' then [] else h2))"

definition JoinHostPort :: "string \<Rightarrow> string \<Rightarrow> string" where
  "JoinHostPort host port =
     (if CHR '':'' \<in> set host \<or> CHR ''%'' \<in> set host then ''['' @ host @ '']:'' @ port
      else host @ '':'' @ port)"

text \<open>\<open>URL.String\<close> of a URL with a scheme, a host, optional credentials and nothing else.\<close>

definition proxy_url :: "string \<Rightarrow> port \<Rightarrow> string \<Rightarrow> string \<Rightarrow> string" where
  "proxy_url addr port user pass =
     ''http://'' @
     (if TrimSpace user \<noteq> [] then userinfo_String user (Some pass) @ ''@'' else []) @
     escape encodeHost (JoinHostPort addr (Itoa (uint port)))"

definition export_credentials :: "settings_snapshot \<Rightarrow> string \<times> string" where
  "export_credentials p =
     (if sp_Mode p = ''multi-port'' \<or> sp_Mode p = ''hybrid''
      then (mpc_Username (sp_MultiPort p), mpc_Password (sp_MultiPort p))
      else (lc_Username (sp_Listener p), lc_Password (sp_Listener p)))"

definition export_address :: "settings_snapshot \<Rightarrow> string \<Rightarrow> string \<Rightarrow> string" where
  "export_address p host addr =
     (if addr = ''0.0.0.0'' \<or> addr = ''::'' then
        (if sp_ExternalIP p \<noteq> [] then sp_ExternalIP p else if host \<noteq> [] then host else addr)
      else addr)"

definition export_lines :: "settings_snapshot \<Rightarrow> string \<Rightarrow> snapshot list \<Rightarrow> string list" where
  "export_lines p host snaps =
     (let (user, pass) = export_credentials p in
      map (\<lambda>x. proxy_url (export_address p host (ni_ListenAddress x)) (ni_Port x) user pass)
        (filter (\<lambda>x. \<not> (ni_ListenAddress x = [] \<or> ni_Port x = 0)) snaps))"

definition handleExport :: "api_env \<Rightarrow> handler" where
  "handleExport env r s =
     (if rq_Method r \<noteq> ''GET'' then Some (method_not_allowed, s)
      else
        Some (respond 200 (ExportBody
          (Join (export_lines (getSettingsSnapshot s) (extractHost r)
             (SnapshotFiltered (ae_order env) True (world s))) [CHR 0x0A])), s))"

section \<open>Settings\<close>

definition handleSettings :: "api_env \<Rightarrow> handler" where
  "handleSettings env r s =
     (if rq_Method r = ''GET'' then Some (writeJSON (SettingsBody (getSettingsSnapshot s)), s)
      else if rq_Method r = ''PUT'' then
        (case jb_settings (rq_Body r) of
           None \<Rightarrow> Some (fail 400 BadRequest, s)
         | Some u \<Rightarrow>
             (case updateSettings (be_cfg (ae_bm env)) u s of
                (Inl e, s') \<Rightarrow> Some (fail (http_status e) (SettingsError e), s')
              | (Inr need, s') \<Rightarrow>
                  Some (writeJSON (SettingsSaved (getSettingsSnapshot s') need), s')))
      else Some (method_not_allowed, s))"
section \<open>Node management\<close>

definition node_status :: "bm_error \<Rightarrow> nat" where
  "node_status e =
     (case e of
        ErrNodeNotFound \<Rightarrow> 404
      | ErrNameConflict _ \<Rightarrow> 400
      | ErrPortConflict _ \<Rightarrow> 400
      | ErrInvalidNode \<Rightarrow> 400
      | _ \<Rightarrow> 500)"

definition respondNodeError :: "bm_error \<Rightarrow> response" where
  "respondNodeError e = fail (node_status e) (NodeError e)"

definition ensureNodeManager :: "handler \<Rightarrow> handler" where
  "ensureNodeManager h r s = (if \<not> sv_nodeMgr s then Some (fail 503 NodesDisabled, s) else h r s)"

definition populate :: "api_env \<Rightarrow> node_config list \<Rightarrow> node_config list" where
  "populate env ns =
     cf_Nodes (PopulateNodeGeo (be_json_add (ae_bm env)) (be_lookup (ae_bm env)) (zero_config\<lparr>cf_Nodes := ns\<rparr>))"

text \<open>Locations for the nodes of the configuration file only: they go back to the nodes' places.\<close>

fun place_geo :: "node_config list \<Rightarrow> node_config list \<Rightarrow> node_config list" where
  "place_geo [] located = []"
| "place_geo (n # ns) located =
     (if nc_Source n \<noteq> NodeSourceInline then n # place_geo ns located
      else n\<lparr>nc_Geo := nc_Geo (hd located)\<rparr> # place_geo ns (tl located))"

definition list_with_geo :: "api_env \<Rightarrow> string \<Rightarrow> node_config list \<Rightarrow> node_config list" where
  "list_with_geo env scope ns =
     (if scope \<in> {''1'', ''true'', ''all''} then populate env ns
      else if scope \<in> {''inline'', ''custom''} then
        place_geo ns (populate env (filter (\<lambda>n. nc_Source n = NodeSourceInline) ns))
      else ns)"

definition query_geo :: "request \<Rightarrow> string" where
  "query_geo r =
     lower_trim (values_Get (List.map_filter query_pair (Split (rq_Query r) (CHR ''&''))) ''geo'')"

definition handleConfigNodes :: "api_env \<Rightarrow> handler" where
  "handleConfigNodes env =
     ensureNodeManager (\<lambda>r s.
       if rq_Method r = ''GET'' then
         (case ListConfigNodes (sv_box s) of
            Inl e \<Rightarrow> Some (respondNodeError e, s)
          | Inr ns \<Rightarrow> Some (writeJSON (ConfigNodesBody (list_with_geo env (query_geo r) ns)), s))
       else if rq_Method r = ''POST'' then
         (case jb_node (rq_Body r) of
            None \<Rightarrow> Some (fail 400 BadRequest, s)
          | Some p \<Rightarrow>
              (case CreateNode (ae_bm env) (ae_ctx_err env) (toConfig p) (sv_box s) of
                 (Inl e, b) \<Rightarrow> Some (respondNodeError e, set_box b s)
               | (Inr n, b) \<Rightarrow> Some (writeJSON (NodeAdded n), set_box b s)))
       else Some (method_not_allowed, s))"

definition PathUnescape :: "string \<Rightarrow> string option" where
  "PathUnescape s = unescape encodePath s"

definition handleConfigNodeItem :: "api_env \<Rightarrow> handler" where
  "handleConfigNodeItem env =
     ensureNodeManager (\<lambda>r s.
       case PathUnescape (TrimPrefix (rq_Path r) ''/api/nodes/config/'') of
         None \<Rightarrow> Some (fail 400 BadNodeName, s)
       | Some name \<Rightarrow>
           if name = [] then Some (fail 400 BadNodeName, s)
           else if rq_Method r = ''PUT'' then
             (case jb_node (rq_Body r) of
                None \<Rightarrow> Some (fail 400 BadRequest, s)
              | Some p \<Rightarrow>
                  (case UpdateNode (ae_bm env) (ae_ctx_err env) name (toConfig p) (sv_box s) of
                     (Inl e, b) \<Rightarrow> Some (respondNodeError e, set_box b s)
                   | (Inr n, b) \<Rightarrow> Some (writeJSON (NodeUpdated n), set_box b s)))
           else if rq_Method r = ''DELETE'' then
             (case DeleteNode (ae_bm env) (ae_ctx_err env) name (sv_box s) of
                (Some e, b) \<Rightarrow> Some (respondNodeError e, set_box b s)
              | (None, b) \<Rightarrow> Some (writeJSON NodeDeleted, set_box b s))
           else Some (method_not_allowed, s))"

definition handleReload :: "api_env \<Rightarrow> handler" where
  "handleReload env r s =
     (if rq_Method r \<noteq> ''POST'' then Some (method_not_allowed, s)
      else
        ensureNodeManager (\<lambda>r s.
          case TriggerReload (ae_bm env) (ae_ctx_err env) (sv_box s) of
            None \<Rightarrow> None
          | Some (Some NilPanic, b) \<Rightarrow> None
          | Some (Some e, b) \<Rightarrow> Some (respondNodeError e, set_box b s)
          | Some (None, b) \<Rightarrow> Some (writeJSON Reloaded, set_box b s)) r s)"

section \<open>Locations to choose from\<close>

text \<open>The counters in the order of their first node; the first node gives the label.\<close>

fun count_option :: "string \<Rightarrow> string \<Rightarrow> geo_option list \<Rightarrow> geo_option list" where
  "count_option key label [] = [\<lparr>go_Value = key, go_Label = label, go_Count = 1\<rparr>]"
| "count_option key label (x # xs) =
     (if go_Value x = key then x\<lparr>go_Count := Suc (go_Count x)\<rparr> # xs
      else x # count_option key label xs)"

definition count_all :: "(string \<times> string) list \<Rightarrow> geo_option list" where
  "count_all kls = foldl (\<lambda>acc (k, l). count_option k l acc) [] kls"

definition geo_unknown :: "node_config \<Rightarrow> bool" where
  "geo_unknown n \<longleftrightarrow>
     (case nc_Geo n of
        None \<Rightarrow> True
      | Some g \<Rightarrow>
          TrimSpace (gi_Error g) \<noteq> [] \<or>
          TrimSpace (gi_CountryCode g) = [] \<and> TrimSpace (gi_Country g) = [] \<and>
          TrimSpace (gi_Region g) = [] \<and> TrimSpace (gi_City g) = [])"

definition country_key :: "geo_info \<Rightarrow> (string \<times> string) option" where
  "country_key g =
     (let cc = TrimSpace (gi_CountryCode g); country = TrimSpace (gi_Country g) in
      if cc = [] \<and> country = [] then None
      else
        (let key = (if cc = [] then country else cc);
             label0 = TrimSpace (Join [cc, country] '' '');
             label = TrimSpace (ReplaceAll label0 ''  '' '' '')
         in Some (key, if label = [] then key else label)))"

definition mid_dot :: string where
  "mid_dot = [CHR '' '', CHR 0xC2, CHR 0xB7, CHR '' '']"

definition place_key :: "string \<Rightarrow> geo_info \<Rightarrow> (string \<times> string) option" where
  "place_key place g =
     (let cc = TrimSpace (gi_CountryCode g) in
      if place = [] then None else Some (place, if cc \<noteq> [] then cc @ mid_dot @ place else place))"

definition option_before :: "geo_option \<Rightarrow> geo_option \<Rightarrow> bool" where
  "option_before a b =
     (if go_Count a \<noteq> go_Count b then go_Count b < go_Count a else go_Label a < go_Label b)"

definition known_geos :: "node_config list \<Rightarrow> geo_info list" where
  "known_geos ns = List.map_filter nc_Geo (filter (\<lambda>n. \<not> geo_unknown n) ns)"

definition geo_options_of :: "(geo_option list \<Rightarrow> geo_option list) \<Rightarrow> node_config list \<Rightarrow> geo_options" where
  "geo_options_of perm ns =
     (let gs = known_geos ns;
          sorted = (\<lambda>key. sort_slice option_before (perm (count_all (List.map_filter key gs))))
      in \<lparr>gp_TotalNodes = length ns,
          gp_ResolvedNodes = length (filter (\<lambda>n. \<not> geo_unknown n) ns),
          gp_UnknownNodes = length (filter geo_unknown ns),
          gp_Countries = sorted country_key,
          gp_Regions = sorted (\<lambda>g. place_key (TrimSpace (gi_Region g)) g),
          gp_Cities = sorted (\<lambda>g. place_key (TrimSpace (gi_City g)) g)\<rparr>)"

definition handleGeoOptions :: "api_env \<Rightarrow> handler" where
  "handleGeoOptions env r s =
     (if rq_Method r \<noteq> ''GET'' then Some (method_not_allowed, s)
      else
        ensureNodeManager (\<lambda>r s.
          case ListConfigNodes (sv_box s) of
            Inl e \<Rightarrow> Some (respondNodeError e, s)
          | Inr ns \<Rightarrow> Some (writeJSON (GeoBody (geo_options_of (ae_perm env) (populate env ns))), s)) r s)"

section \<open>Subscriptions\<close>

definition has_subscriptions :: "server \<Rightarrow> bool" where
  "has_subscriptions s \<longleftrightarrow> (case cfgSrc s of None \<Rightarrow> False | Some c \<Rightarrow> cf_Subscriptions c \<noteq> [])"

definition auto_refresh :: "server \<Rightarrow> bool" where
  "auto_refresh s \<longleftrightarrow>
     has_subscriptions s \<and>
     (case cfgSrc s of None \<Rightarrow> False | Some c \<Rightarrow> rc_Enabled (cf_SubscriptionRefresh c))"

definition handleSubscriptionStatus :: "api_env \<Rightarrow> handler" where
  "handleSubscriptionStatus env r s =
     (if rq_Method r \<noteq> ''GET'' then Some (method_not_allowed, s)
      else if \<not> sv_subRefresher s then Some (writeJSON StatusDisabled, s)
      else
        (case Status (ae_sub env) (sv_sub s) of
           (st, sub) \<Rightarrow>
             Some (writeJSON (StatusBody (has_subscriptions s) (auto_refresh s) st), s\<lparr>sv_sub := sub\<rparr>)))"

text \<open>
  \<open>RefreshNow\<close> leaves a request and polls the status, here \<open>ae_polls\<close>; \<open>ae_meanwhile\<close> is what the loop
  does to the state until the last poll.
\<close>

definition handleSubscriptionRefresh :: "api_env \<Rightarrow> handler" where
  "handleSubscriptionRefresh env r s =
     (if rq_Method r \<noteq> ''POST'' then Some (method_not_allowed, s)
      else if \<not> sv_subRefresher s then Some (fail 503 RefreshDisabled, s)
      else if \<not> has_subscriptions s then Some (fail 503 NoSubscriptions, s)
      else
        (case refresh_request (ae_sub env) (sv_sub s) of
           (startCount, sub) \<Rightarrow>
             (let s1 = s\<lparr>sv_sub := ae_meanwhile env sub\<rparr> in
              case refresh_poll startCount (ae_polls env) of
                None \<Rightarrow> None
              | Some (Some e) \<Rightarrow> Some (fail 500 (RefreshError e), s1)
              | Some None \<Rightarrow>
                  (case Status (ae_sub env) (sv_sub s1) of
                     (st, sub') \<Rightarrow> Some (writeJSON (Refreshed (st_NodeCount st)), s1\<lparr>sv_sub := sub'\<rparr>)))))"

section \<open>Routing\<close>

text \<open>
  The patterns of the mux, the longest one first; redirects of unclean paths are not modelled.
\<close>

datatype endpoint =
    IndexRoute | AuthRoute | SettingsRoute | GeoRoute | NodesRoute | ConfigNodesRoute | ConfigItemRoute
  | ProbeAllRoute | NodeActionRoute | DebugRoute | ExportRoute | SubStatusRoute | SubRefreshRoute
  | ReloadRoute

definition exact_routes :: "(string \<times> endpoint) list" where
  "exact_routes =
     [(''/api/auth'', AuthRoute), (''/api/settings'', SettingsRoute), (''/api/geo/options'', GeoRoute),
      (''/api/nodes'', NodesRoute), (''/api/nodes/config'', ConfigNodesRoute),
      (''/api/nodes/probe-all'', ProbeAllRoute), (''/api/debug'', DebugRoute),
      (''/api/export'', ExportRoute), (''/api/subscription/status'', SubStatusRoute),
      (''/api/subscription/refresh'', SubRefreshRoute), (''/api/reload'', ReloadRoute)]"

definition route :: "string \<Rightarrow> endpoint" where
  "route p =
     (case map_of exact_routes p of
        Some x \<Rightarrow> x
      | None \<Rightarrow>
          if HasPrefix p ''/api/nodes/config/'' then ConfigItemRoute
          else if HasPrefix p ''/api/nodes/'' then NodeActionRoute
          else IndexRoute)"

fun route_handler :: "api_env \<Rightarrow> endpoint \<Rightarrow> handler" where
  "route_handler env IndexRoute = handleIndex env"
| "route_handler env AuthRoute = handleAuth"
| "route_handler env SettingsRoute = withAuth (handleSettings env)"
| "route_handler env GeoRoute = withAuth (handleGeoOptions env)"
| "route_handler env NodesRoute = withAuth (handleNodes env)"
| "route_handler env ConfigNodesRoute = withAuth (handleConfigNodes env)"
| "route_handler env ConfigItemRoute = withAuth (handleConfigNodeItem env)"
| "route_handler env ProbeAllRoute = withAuth (handleProbeAll env)"
| "route_handler env NodeActionRoute = withAuth (handleNodeAction env)"
| "route_handler env DebugRoute = withAuth (handleDebug env)"
| "route_handler env ExportRoute = withAuth (handleExport env)"
| "route_handler env SubStatusRoute = withAuth (handleSubscriptionStatus env)"
| "route_handler env SubRefreshRoute = withAuth (handleSubscriptionRefresh env)"
| "route_handler env ReloadRoute = withAuth (handleReload env)"

definition serve_request :: "api_env \<Rightarrow> handler" where
  "serve_request env r s = route_handler env (route (rq_Path r)) r s"

end
