(* ===== verification/Server_Access.thy ===== *)
theory Server_Access
  imports Server
begin

text \<open>
  Properties of the HTTP interface: who may do what, reading does not write, the accounts of the probe
  of all nodes, the choices of locations, and that exported lines are URLs which clients read as
  intended.
\<close>

section \<open>Who may do what\<close>

lemma guarded_route:
  "route_handler env x = handleIndex env \<or> route_handler env x = handleAuth \<or>
   (x \<noteq> IndexRoute \<and> x \<noteq> AuthRoute \<and> (\<exists>h. route_handler env x = withAuth h))"
  by (cases x) auto

lemma withAuth_refuses:
  "mc_Password (sv_cfg s) \<noteq> [] \<Longrightarrow> \<not> authorized r s \<Longrightarrow>
   withAuth h r s = Some (fail 401 Unauthorized, s)"
  by (simp add: withAuth_def)

lemma response_simps [simp]:
  "rs_Body (respond st b) = b" "rs_Status (respond st b) = st" "rs_Cookie (respond st b) = None"
  "rs_Body (writeJSON b) = b" "rs_Cookie (writeJSON b) = None" "rs_Status (writeJSON b) = 200"
  "rs_Body (fail st e) = ErrorBody e" "rs_Cookie (fail st e) = None" "rs_Status (fail st e) = st"
  "rs_Body method_not_allowed = NoBody" "rs_Cookie method_not_allowed = None"
  by (simp_all add: respond_def writeJSON_def fail_def method_not_allowed_def)

text \<open>
  C6. With a password set, a request without the session token changes nothing: apart from the page
  itself and the login it is answered with status 401, and the token is given only to a login
  with the right password.
\<close>

theorem unauthorized_no_effect:
  assumes "mc_Password (sv_cfg s) \<noteq> []" and "\<not> authorized r s"
  shows "\<exists>resp. serve_request env r s = Some (resp, s) \<and>
    (route (rq_Path r) \<notin> {IndexRoute, AuthRoute} \<longrightarrow> resp = fail 401 Unauthorized) \<and>
    (rs_Cookie resp \<noteq> None \<or> (\<exists>t. rs_Body resp = LoggedIn t) \<longrightarrow>
       route (rq_Path r) = AuthRoute \<and> jb_password (rq_Body r) = Some (mc_Password (sv_cfg s)))"
proof (cases "route (rq_Path r)")
  case IndexRoute
  then show ?thesis by (simp add: serve_request_def handleIndex_def)
next
  case AuthRoute
  then show ?thesis
    using assms(1) by (auto simp: serve_request_def handleAuth_def split: option.split)
qed (simp_all add: serve_request_def withAuth_refuses [OF assms])

text \<open>
  A login with the right password gives the session token, and a request that carries it, as
  cookie or as bearer token, is served as if there were no password.
\<close>

theorem login_opens:
  assumes "route (rq_Path r) = AuthRoute" and "rq_Method r = ''POST''"
    and "jb_password (rq_Body r) = Some (mc_Password (sv_cfg s))" and "mc_Password (sv_cfg s) \<noteq> []"
    and "route (rq_Path q) \<noteq> AuthRoute"
  shows "\<exists>resp t. serve_request env r s = Some (resp, s) \<and> rs_Cookie resp = Some t \<and>
    rs_Body resp = LoggedIn t \<and>
    (rq_Cookie q = Some t \<or> rq_Authorization q = ''Bearer '' @ t \<longrightarrow>
       authorized q s \<and>
       (\<forall>h. route_handler env (route (rq_Path q)) = withAuth h \<longrightarrow> serve_request env q s = h q s))"
proof -
  have auth: "authorized q s"
    if "rq_Cookie q = Some (sv_sessionToken s) \<or> rq_Authorization q = ''Bearer '' @ sv_sessionToken s"
  proof -
    have "TrimPrefix (''Bearer '' @ sv_sessionToken s) ''Bearer '' = sv_sessionToken s"
      by (rule TrimPrefix_append)
    moreover have "''Bearer '' @ sv_sessionToken s \<noteq> []" by simp
    ultimately show ?thesis using that unfolding authorized_def by metis
  qed
  have "serve_request env r s =
      Some ((writeJSON (LoggedIn (sv_sessionToken s)))\<lparr>rs_Cookie := Some (sv_sessionToken s)\<rparr>, s)"
    using assms(1-4) by (simp add: serve_request_def handleAuth_def)
  then show ?thesis
    using auth by (auto simp: serve_request_def withAuth_def)
qed

section \<open>Reading does not write\<close>

definition reads :: "handler \<Rightarrow> bool" where
  "reads h \<longleftrightarrow>
     (\<forall>r s resp s'. rq_Method r = ''GET'' \<longrightarrow> h r s = Some (resp, s') \<longrightarrow>
        sv_box s' = sv_box s \<and> s' = s\<lparr>sv_sub := sv_sub s'\<rparr>)"

lemma reads_withAuth: "reads h \<Longrightarrow> reads (withAuth h)"
  by (auto simp: reads_def withAuth_def)

lemma reads_ensure: "reads h \<Longrightarrow> reads (ensureNodeManager h)"
  by (auto simp: reads_def ensureNodeManager_def)

lemma Status_keeps_box: "Status env s = (st, s') \<Longrightarrow> ss_box s' = ss_box s"
  by (auto simp: Status_def CheckNodesModified_def split: option.splits sum.splits prod.splits if_splits
      simp: Let_def)

text \<open>An action on a node is refused as a GET; reading it has to find it first.\<close>

lemma GET_actions [simp]: "''GET'' \<noteq> ''POST''" "''GET'' \<noteq> ''PUT''" "''GET'' \<noteq> ''DELETE''"
  by simp_all

lemma reads_handlers:
  "reads (handleIndex env)" "reads handleAuth" "reads (handleSettings env)" "reads (handleNodes env)"
  "reads (handleDebug env)" "reads (handleProbeAll env)" "reads (handleNodeAction env)"
  "reads (handleExport env)" "reads (handleSubscriptionStatus env)"
  "reads (handleSubscriptionRefresh env)" "reads (handleReload env)" "reads (handleGeoOptions env)"
proof -
  show "reads (handleIndex env)" by (auto simp: reads_def handleIndex_def)
  show "reads handleAuth"
    by (auto simp: reads_def handleAuth_def split: option.splits if_splits)
  show "reads (handleSettings env)" by (auto simp: reads_def handleSettings_def)
  show "reads (handleNodes env)" by (auto simp: reads_def handleNodes_def)
  show "reads (handleDebug env)" by (auto simp: reads_def handleDebug_def Let_def)
  show "reads (handleProbeAll env)" by (auto simp: reads_def handleProbeAll_def)
  show "reads (handleNodeAction env)" by (auto simp: reads_def handleNodeAction_def Let_def split: if_splits)
  show "reads (handleExport env)" by (auto simp: reads_def handleExport_def)
  show "reads (handleSubscriptionStatus env)"
    by (auto simp: reads_def handleSubscriptionStatus_def sv_box_def dest!: Status_keeps_box
        split: prod.splits if_splits)
  show "reads (handleSubscriptionRefresh env)" by (auto simp: reads_def handleSubscriptionRefresh_def)
  show "reads (handleReload env)" by (auto simp: reads_def handleReload_def)
  show "reads (handleGeoOptions env)"
    by (auto simp: reads_def handleGeoOptions_def ensureNodeManager_def split: sum.splits if_splits)
qed

lemma reads_config_handlers: "reads (handleConfigNodes env)" "reads (handleConfigNodeItem env)"
proof -
  show "reads (handleConfigNodes env)"
    unfolding handleConfigNodes_def
    by (rule reads_ensure) (simp add: reads_def split: sum.splits)
  show "reads (handleConfigNodeItem env)"
    unfolding handleConfigNodeItem_def
    by (rule reads_ensure) (simp add: reads_def split: option.splits)
qed

text \<open>
  C36. A GET request changes neither the configuration, nor the files, nor the nodes and the running
  instance, nor the server's own settings: only the subscription manager's memory of the nodes file
  may change.
\<close>

theorem get_reads_only:
  assumes "rq_Method r = ''GET''" and "serve_request env r s = Some (resp, s')"
  shows "sv_box s' = sv_box s \<and> s' = s\<lparr>sv_sub := sv_sub s'\<rparr>"
proof -
  have "reads (route_handler env (route (rq_Path r)))"
    by (cases "route (rq_Path r)") (simp_all add: reads_handlers reads_config_handlers reads_withAuth)
  then show ?thesis
    using assms by (auto simp: reads_def serve_request_def)
qed
section \<open>The probe of all nodes\<close>

fun event_current :: "sse_event \<Rightarrow> nat option" where
  "event_current (EvProgress t n l e c num) = Some c"
| "event_current (EvTimeout c num) = Some c"
| "event_current _ = None"

fun event_ok :: "sse_event \<Rightarrow> bool" where
  "event_ok (EvProgress t n l e c num) = (e = [])"
| "event_ok _ = False"

lemma probe_events_account:
  "probe_events env num xs ok failed s = (evs, ok', failed', s') \<Longrightarrow>
   map event_current evs = map Some [ok + failed + 1 ..< ok + failed + 1 + length xs] \<and>
   ok' = ok + length (filter event_ok evs) \<and> ok' + failed' = ok + failed + length xs \<and>
   length evs = length xs"
proof (induction xs arbitrary: ok failed s evs)
  case (Cons x xs)
  obtain res s1 where p: "probe_now env (ni_Tag x) s = (res, s1)" by fastforce
  define err where "err = (case res of Inl e \<Rightarrow> e | Inr d \<Rightarrow> [])"
  obtain lat where c: "(case res of Inl e \<Rightarrow> (- 1, e) | Inr d \<Rightarrow> (milliseconds d, [])) = (lat, err)"
    by (cases res) (auto simp: err_def)
  obtain evs1 where r: "probe_events env num xs (if err \<noteq> [] then ok else Suc ok)
      (if err \<noteq> [] then Suc failed else failed) s1 = (evs1, ok', failed', s')"
    and evs: "evs = EvProgress (ni_Tag x) (ni_Name x) lat err
      ((if err \<noteq> [] then ok else Suc ok) + (if err \<noteq> [] then Suc failed else failed)) num # evs1"
    using Cons.prems by (auto simp: p c Let_def split: prod.splits)
  from Cons.IH [OF r] show ?case
    by (auto simp: evs upt_rec [of "Suc (ok + failed)"] split: if_splits)
qed simp

text \<open>
  The probe of all nodes reports every node exactly once: between a first event with the number of
  nodes and a last one with the results there is one event per node, numbered in order, and the
  results count the nodes that answered and the others, those that were not heard of in time included.
\<close>

theorem probe_all_accounts:
  assumes "rq_Method r = ''POST''" and "handleProbeAll env r s = Some (resp, s')"
    and "snaps = Snapshot (ae_order env) (world s)" and "snaps \<noteq> []"
    and "length (ae_arrival env snaps) \<le> length snaps" and "ae_flusher env"
  shows "\<exists>mid ok failed. rs_Body resp = Events (EvStart (length snaps) # mid @ [EvComplete (length snaps) ok failed]) \<and>
    map event_current mid = map Some [1 ..< Suc (length snaps)] \<and>
    ok = length (filter event_ok mid) \<and> ok + failed = length snaps"
proof -
  let ?n = "length snaps"
  obtain evs ok failed s1 where p: "probe_events env ?n (ae_arrival env snaps) 0 0 s = (evs, ok, failed, s1)"
    by (metis prod_cases4)
  note acc = probe_events_account [OF p]
  define late where "late = map (\<lambda>j. EvTimeout (ok + failed + Suc j) ?n) [0..<?n - (ok + failed)]"
  have body: "rs_Body resp = Events (EvStart ?n # (evs @ late) @ [EvComplete ?n ok (failed + (?n - (ok + failed)))])"
    using assms(1-4,6) p by (auto simp: handleProbeAll_def Let_def late_def)
  have fits: "ok + failed \<le> ?n" using acc assms(5) by simp
  have "map event_current late = map Some [Suc (ok + failed) ..< Suc ?n]"
    using fits by (intro nth_equalityI) (auto simp: late_def simp del: upt_Suc)
  moreover have "map event_current evs = map Some [1 ..< Suc (ok + failed)]"
    using acc by (metis add.commute add_0 plus_1_eq_Suc)
  moreover have "[1 ..< Suc (ok + failed)] @ [Suc (ok + failed) ..< Suc ?n] = [1 ..< Suc ?n]"
    using upt_add_eq_append [of 1 "Suc (ok + failed)" "?n - (ok + failed)"] fits by simp
  ultimately have "map event_current (evs @ late) = map Some [1 ..< Suc ?n]"
    by (metis map_append)
  moreover have "filter event_ok late = []" by (simp add: late_def filter_empty_conv)
  ultimately show ?thesis
    using body acc fits
    by (intro exI [of _ "evs @ late"] exI [of _ ok] exI [of _ "failed + (?n - (ok + failed))"]) simp
qed

section \<open>The locations to choose from\<close>

lemma count_option_values:
  "map go_Value (count_option k l xs) =
     (if k \<in> go_Value ` set xs then map go_Value xs else map go_Value xs @ [k])"
  by (induction xs) auto

lemma count_option_count:
  "distinct (map go_Value xs) \<Longrightarrow> x \<in> set (count_option k l xs) \<Longrightarrow>
   (if go_Value x = k then go_Count x = Suc (sum_list (map go_Count (filter (\<lambda>y. go_Value y = k) xs)))
    else x \<in> set xs)"
proof (induction xs)
  case (Cons y ys)
  have none: "filter (\<lambda>z. go_Value z = k) ys = []" if "go_Value y = k"
    using Cons.prems(1) that unfolding filter_empty_conv by (metis distinct.simps(2) image_eqI list.simps(9) set_map)
  show ?case
  proof (cases "go_Value y = k")
    case True
    with Cons.prems none show ?thesis by (auto simp: image_iff)
  next
    case False
    with Cons show ?thesis by auto
  qed
qed auto

lemma single_value_sum:
  "distinct (map go_Value xs) \<Longrightarrow> y \<in> set xs \<Longrightarrow>
   sum_list (map go_Count (filter (\<lambda>z. go_Value z = go_Value y) xs)) = go_Count y"
proof (induction xs)
  case (Cons x xs)
  have "filter (\<lambda>z. go_Value z = go_Value x) xs = []"
    using Cons.prems(1) unfolding filter_empty_conv by (metis distinct.simps(2) image_eqI list.simps(9) set_map)
  then show ?case using Cons by (auto simp: image_iff)
qed simp

lemma count_all_spec:
  "distinct (map go_Value (count_all kls)) \<and> go_Value ` set (count_all kls) = fst ` set kls \<and>
   (\<forall>x \<in> set (count_all kls). go_Count x = count_list (map fst kls) (go_Value x))"
proof (induction kls rule: rev_induct)
  case Nil
  then show ?case by (simp add: count_all_def)
next
  case (snoc kl kls)
  obtain k l where kl: "kl = (k, l)" by (cases kl)
  let ?xs = "count_all kls"
  have step: "count_all (kls @ [kl]) = count_option k l ?xs"
    by (simp add: count_all_def kl)
  have vals: "map go_Value (count_option k l ?xs) =
      (if k \<in> go_Value ` set ?xs then map go_Value ?xs else map go_Value ?xs @ [k])"
    by (rule count_option_values)
  then have "go_Value ` set (count_option k l ?xs) = insert k (go_Value ` set ?xs)"
    by (metis image_set insert_absorb list.simps(15) rotate1.simps(2) set_rotate1)
  moreover have "distinct (map go_Value (count_option k l ?xs))"
    unfolding vals using snoc by auto
  moreover have "go_Count x = count_list (map fst (kls @ [kl])) (go_Value x)"
    if x: "x \<in> set (count_option k l ?xs)" for x
  proof -
    have sum: "sum_list (map go_Count (filter (\<lambda>y. go_Value y = k) ?xs)) = count_list (map fst kls) k"
    proof (cases "k \<in> go_Value ` set ?xs")
      case True
      then obtain y where y: "y \<in> set ?xs" "go_Value y = k" by auto
      then show ?thesis using snoc single_value_sum [of ?xs y] by auto
    next
      case False
      then have "filter (\<lambda>z. go_Value z = k) ?xs = []" by (auto simp: filter_empty_conv)
      moreover have "k \<notin> fst ` set kls" using False snoc by simp
      ultimately show ?thesis by (simp add: count_list_0_iff)
    qed
    from count_option_count [OF _ x] snoc have
      "if go_Value x = k then go_Count x = Suc (count_list (map fst kls) k) else x \<in> set ?xs"
      unfolding sum by blast
    then show ?thesis using snoc by (cases "go_Value x = k") (simp_all add: kl)
  qed
  moreover have "insert k (go_Value ` set ?xs) = fst ` set (kls @ [kl])"
    using snoc by (simp add: kl)
  ultimately show ?case
    unfolding step by simp
qed
interpretation option_order: strict_weak_order option_before
  by unfold_locales (auto simp: option_before_def split: if_splits)

text \<open>
  What one list of choices is for the keys of the located nodes: each key once, with the number of
  nodes that have it, the most frequent ones first.
\<close>

definition tally :: "string list \<Rightarrow> geo_option list \<Rightarrow> bool" where
  "tally keys L \<longleftrightarrow>
     distinct (map go_Value L) \<and> go_Value ` set L = set keys \<and>
     (\<forall>x \<in> set L. go_Count x = count_list keys (go_Value x)) \<and>
     sorted_wrt (\<lambda>a b. go_Count b \<le> go_Count a) L"

lemma tally_sorted_counts:
  assumes "\<And>xs. mset (perm xs) = mset xs"
  shows "tally (map fst kls) (sort_slice option_before (perm (count_all kls)))"
proof -
  have m: "mset (sort_slice option_before (perm (count_all kls))) = mset (count_all kls)"
    using assms by simp
  then have "set (sort_slice option_before (perm (count_all kls))) = set (count_all kls)"
    by (metis set_mset_mset)
  moreover have "distinct (map go_Value (sort_slice option_before (perm (count_all kls))))"
    using count_all_spec [of kls] m by (metis distinct_count_atmost_1 mset_map set_mset_mset)
  moreover have "sorted_wrt (\<lambda>a b. go_Count b \<le> go_Count a) (sort_slice option_before (perm (count_all kls)))"
    by (rule sorted_wrt_mono_rel [OF _ option_order.sorted_sort_slice])
      (auto simp: option_before_def split: if_splits)
  ultimately show ?thesis
    using count_all_spec [of kls] by (simp add: tally_def)
qed

text \<open>
  The choices of locations: every node is counted as located or as unknown, and the lists of
  countries, regions and cities name each place of a located node once, with the number of nodes
  there, by falling number, whatever the order in which Go iterates over the counters.
\<close>

theorem geo_options_counts:
  assumes "\<And>xs. mset (perm xs) = mset xs"
  shows "gp_TotalNodes (geo_options_of perm ns) =
      gp_ResolvedNodes (geo_options_of perm ns) + gp_UnknownNodes (geo_options_of perm ns) \<and>
    gp_ResolvedNodes (geo_options_of perm ns) = length (known_geos ns) \<and>
    tally (map fst (List.map_filter country_key (known_geos ns))) (gp_Countries (geo_options_of perm ns)) \<and>
    tally (filter (\<lambda>p. p \<noteq> []) (map (\<lambda>g. TrimSpace (gi_Region g)) (known_geos ns)))
      (gp_Regions (geo_options_of perm ns)) \<and>
    tally (filter (\<lambda>p. p \<noteq> []) (map (\<lambda>g. TrimSpace (gi_City g)) (known_geos ns)))
      (gp_Cities (geo_options_of perm ns))"
proof -
  have places: "map fst (List.map_filter (\<lambda>g. place_key (f g) g) gs) = filter (\<lambda>p. p \<noteq> []) (map f gs)"
    for f and gs :: "geo_info list"
    by (induction gs) (auto simp: List.map_filter_simps place_key_def Let_def)
  have known: "length (filter (\<lambda>n. \<not> geo_unknown n) ns) = length (known_geos ns)"
    by (induction ns)
      (auto simp: known_geos_def List.map_filter_simps geo_unknown_def split: option.splits)
  have "length ns = length (filter (\<lambda>n. \<not> geo_unknown n) ns) + length (filter geo_unknown ns)"
    using sum_length_filter_compl [of geo_unknown ns] by simp
  then show ?thesis
    using tally_sorted_counts [OF assms] known
    by (simp add: geo_options_of_def Let_def flip: places)
qed

theorem geo_options_counts_witness:
  "gp_TotalNodes (geo_options_of rev [(demo_node ''a'' 1)\<lparr>nc_Geo := Some (empty_geo\<lparr>gi_City := ''x''\<rparr>)\<rparr>,
      demo_node ''b'' 2]) = 2 \<and>
   tally [''x''] (gp_Cities (geo_options_of rev
     [(demo_node ''a'' 1)\<lparr>nc_Geo := Some (empty_geo\<lparr>gi_City := ''x''\<rparr>)\<rparr>, demo_node ''b'' 2]))"
proof -
  let ?a = "(demo_node ''a'' 1)\<lparr>nc_Geo := Some (empty_geo\<lparr>gi_City := ''x''\<rparr>)\<rparr>" and ?b = "demo_node ''b'' 2"
  have x: "TrimSpace ''x'' = ''x''" by code_simp
  have "known_geos [?a, ?b] = [empty_geo\<lparr>gi_City := ''x''\<rparr>]"
    by (simp add: known_geos_def geo_unknown_def List.map_filter_simps empty_geo_def x demo_node_def uri_node_def)
  then have "filter (\<lambda>p. p \<noteq> []) (map (\<lambda>g. TrimSpace (gi_City g)) (known_geos [?a, ?b])) = [''x'']"
    by (simp add: x)
  moreover have "gp_TotalNodes (geo_options_of rev [?a, ?b]) = 2"
    by (simp add: geo_options_of_def Let_def)
  ultimately show ?thesis
    using geo_options_counts [of rev "[?a, ?b]", OF mset_rev] by metis
qed

section \<open>Exported lines\<close>

text \<open>A host with its port, in brackets when it holds a colon, is parsed and split again.\<close>

lemma host_port_parsed:
  fixes port :: port
  assumes "list_all host_char addr" and "addr \<noteq> []"
  defines "hp \<equiv> JoinHostPort addr (Itoa (uint port))"
  shows "list_all (\<lambda>c. host_char c \<or> c = CHR ''['' \<or> c = CHR '']'') hp" "parseHost hp = Some hp"
    "url_splitHostPort hp = (addr, Itoa (uint port))" "hp \<noteq> []"
proof -
  let ?p = "Itoa (uint port)"
  have p: "list_all unreserved ?p" by (rule digits_unreserved [OF Itoa_port_digits])
  have no: "CHR ''%'' \<notin> set addr"
    using assms(1) host_char_plain(2) unfolding list_all_iff by blast
  have "\<not> unreserved (CHR '':'')" "\<not> host_char (CHR ''['')" "host_char (CHR '':'')" by code_simp+
  note marks = this
  have pc: "CHR '':'' \<notin> set ?p" using p marks(1) unfolding list_all_iff by blast
  have ph: "list_all host_char ?p" using p unfolding list_all_iff host_char_def by blast
  have valid: "validOptionalPort (CHR '':'' # ?p)"
    using Itoa_port_digits [of port] by (simp add: validOptionalPort_def)
  have "list_all (\<lambda>c. host_char c \<or> c = CHR ''['' \<or> c = CHR '']'') hp \<and> parseHost hp = Some hp \<and>
    url_splitHostPort hp = (addr, ?p) \<and> hp \<noteq> []"
  proof (cases "CHR '':'' \<in> set addr")
    case True
    then have hp: "hp = (''['' @ addr @ '']'') @ CHR '':'' # ?p"
      by (simp add: hp_def JoinHostPort_def)
    have "url_splitHostPort hp = (addr, ?p)"
      unfolding hp url_splitHostPort_def LastIndex_append [OF pc]
      by (simp add: valid HasPrefix_def HasSuffix_def butlast_append)
    moreover have "parseHost hp = Some hp"
      using parse_bracketed_host [OF assms(1) Itoa_port_digits] by (simp add: hp)
    moreover have "list_all (\<lambda>c. host_char c \<or> c = CHR ''['' \<or> c = CHR '']'') hp"
      using assms(1) ph marks(3) unfolding hp list_all_iff by auto
    ultimately show ?thesis by (simp add: hp)
  next
    case False
    then have hp: "hp = addr @ CHR '':'' # ?p"
      using no by (simp add: hp_def JoinHostPort_def)
    have u: "list_all unreserved addr"
      using assms(1) False unfolding list_all_iff host_char_def by blast
    have "\<not> HasPrefix addr ''[''"
      using assms(1,2) marks(2) by (cases addr) (auto simp: HasPrefix_def)
    then have "url_splitHostPort hp = (addr, ?p)"
      unfolding hp url_splitHostPort_def LastIndex_append [OF pc] by (simp add: valid)
    moreover have "parseHost hp = Some hp"
      using parse_host_port [OF u Itoa_port_digits] by (simp add: hp)
    moreover have "list_all (\<lambda>c. host_char c \<or> c = CHR ''['' \<or> c = CHR '']'') hp"
      using assms(1) ph marks(3) unfolding hp list_all_iff by auto
    ultimately show ?thesis by (simp add: hp)
  qed
  then show "list_all (\<lambda>c. host_char c \<or> c = CHR ''['' \<or> c = CHR '']'') hp" "parseHost hp = Some hp"
    "url_splitHostPort hp = (addr, ?p)" "hp \<noteq> []" by blast+
qed

lemma host_chars_authority:
  assumes "list_all (\<lambda>c. host_char c \<or> c = CHR ''['' \<or> c = CHR '']'') s"
  shows "CHR ''@'' \<notin> set s" "list_all (\<lambda>c. \<not> ends_authority c) s"
proof -
  have c: "c \<noteq> CHR ''@'' \<and> \<not> ends_authority c" if "c \<in> set s" for c
  proof -
    have "host_char c \<or> c = CHR ''['' \<or> c = CHR '']''"
      using assms that by (simp add: list_all_iff)
    then show ?thesis
      using host_char_plain(1,4,5) unfolding ends_authority_def by metis
  qed
  then show "CHR ''@'' \<notin> set s" by blast
  show "list_all (\<lambda>c. \<not> ends_authority c) s" using c by (simp add: list_all_iff)
qed

lemma proxy_url_parses:
  assumes "list_all host_char addr" and "addr \<noteq> []"
  shows "\<exists>u. url_Parse (proxy_url addr port user pass) = Some u \<and> u_Scheme u = ''http'' \<and>
    u_User u = (if TrimSpace user \<noteq> [] then Some (user, Some pass) else None) \<and>
    url_Hostname u = addr \<and> url_Port u = Itoa (uint port) \<and> u_Path u = [] \<and> u_RawQuery u = []"
proof -
  let ?u = "escape encodeUserPassword user" and ?w = "escape encodeUserPassword pass"
  define hp where "hp = JoinHostPort addr (Itoa (uint port))"
  note host = host_port_parsed [OF assms, of port, folded hp_def]
  have hp: "CHR ''@'' \<notin> set hp" "list_all (\<lambda>c. \<not> ends_authority c) hp"
    by (rule host_chars_authority [OF host(1)])+
  define auth where "auth = (if TrimSpace user \<noteq> [] then ?u @ '':'' @ ?w @ ''@'' else []) @ hp"
  define who where "who = (if TrimSpace user \<noteq> [] then Some (user, Some pass) else None)"
  have raw: "proxy_url addr port user pass = ''http://'' @ auth"
    unfolding proxy_url_def auth_def hp_def [symmetric] host_id(1) [OF host(1)] userinfo_String_def option.case
    by (cases "TrimSpace user = []") simp_all
  have marks: "\<not> ends_authority (CHR '':'')" "\<not> ends_authority (CHR ''@'')" by code_simp+
  have "list_all authority_char ?u" "list_all authority_char ?w"
    using escaped_user_chars(1) unfolding list_all_iff by blast+
  then have chars: "list_all (\<lambda>c. \<not> ends_authority c) auth"
    unfolding auth_def using authority_stays hp(2) marks by simp
  have "parseAuthority auth = Some (who, hp)"
  proof (cases "TrimSpace user = []")
    case True
    then show ?thesis
      using LastIndex_None [OF hp(1)] host(2) by (simp add: auth_def who_def parseAuthority_def)
  next
    case False
    let ?info = "?u @ '':'' @ ?w"
    have a: "auth = ?info @ CHR ''@'' # hp" using False by (simp add: auth_def)
    have "LastIndex auth (CHR ''@'') = Some (length ?info)"
      unfolding a by (rule LastIndex_append [OF hp(1)])
    moreover have "validUserinfo ?info"
      using escaped_user_chars(4) unfolding validUserinfo_def list_all_append unfolding list_all_iff by simp
    moreover have "Cut ?info (CHR '':'') = (?u, Some ?w)"
    proof -
      have "CHR '':'' \<notin> set ?u" using escaped_user_chars(2) by blast
      then show ?thesis by (simp add: Cut_append)
    qed
    ultimately show ?thesis
      using False host(2) by (simp add: a who_def parseAuthority_def unescape_user Let_def)
  qed
  moreover have "plain_scheme ''http''" by code_simp
  moreover have "auth \<noteq> []" using host(4) by (simp add: auth_def)
  ultimately show ?thesis
    using url_Parse_plain [of "''http''" auth who hp] chars host(3)
    by (simp add: raw who_def empty_url_def url_Hostname_def url_Port_def)
qed

text \<open>
  C37. An exported line is a URL that a client reads as intended: for a host name, an IPv4 address or
  an IPv6 address without a zone (unreserved characters and colons; a colon makes the address stand
  in brackets) parsing the line gives the scheme \<open>http\<close>, this address and the port, and the user
  name and password of the settings, whatever characters they contain; without a user name, or
  with a blank one, the line has no credentials.
\<close>

theorem export_line_parses:
  assumes "list_all host_char addr" and "addr \<noteq> []"
  shows "\<exists>u. url_Parse (proxy_url addr port user pass) = Some u \<and> u_Scheme u = ''http'' \<and>
    u_User u = (if TrimSpace user \<noteq> [] then Some (user, Some pass) else None) \<and>
    url_Hostname u = addr \<and> url_Port u = Itoa (uint port) \<and> u_Path u = [] \<and> u_RawQuery u = []"
  by (rule proxy_url_parses [OF assms])

section \<open>Examples\<close>

definition no_body :: json_body where
  "no_body = \<lparr>jb_password = None, jb_settings = None, jb_node = None\<rparr>"

definition demo_request :: "string \<Rightarrow> string \<Rightarrow> request" where
  "demo_request m p =
     \<lparr>rq_Method = m, rq_Path = p, rq_Query = [], rq_Host = ''h:1'', rq_Cookie = None,
      rq_Authorization = [], rq_Body = no_body\<rparr>"

definition demo_api :: api_env where
  "demo_api =
     \<lparr>ae_sub = demo_sub_env [], ae_order = [0, 1], ae_perm = (\<lambda>x. x), ae_probe = demo_env (\<lambda>_. None),
      ae_mgr = (\<lambda>_. None), ae_arrival = take 1, ae_ctx_err = None, ae_polls = [],
      ae_meanwhile = (\<lambda>x. x), ae_page = True, ae_flusher = True\<rparr>"

lemma demo_password: "mc_Password (sv_cfg (demo_server d)) = ''secret''"
  by (simp add: sync_cfg_def demo_settings_def)

lemma demo_unauthorized: "\<not> authorized (demo_request m p) s"
  by (simp add: authorized_def demo_request_def)

lemma demo_routes:
  "route ''/api/reload'' = ReloadRoute" "route ''/api/auth'' = AuthRoute"
  "route ''/api/nodes'' = NodesRoute" "route ''/api/nodes/config/x%'' = ConfigItemRoute"
  by code_simp+

theorem unauthorized_no_effect_witness:
  "serve_request demo_api (demo_request ''POST'' ''/api/reload'') (demo_server demo_disk) =
     Some (fail 401 Unauthorized, demo_server demo_disk)"
proof -
  have "mc_Password (sv_cfg (demo_server demo_disk)) \<noteq> []" by (simp only: demo_password) simp
  moreover have "route (rq_Path (demo_request ''POST'' ''/api/reload'')) = ReloadRoute"
    by (simp add: demo_request_def demo_routes)
  ultimately show ?thesis
    using unauthorized_no_effect [OF _ demo_unauthorized, of "demo_server demo_disk" demo_api
        "''POST''" "''/api/reload''"] by force
qed

theorem login_opens_witness:
  "\<exists>resp. serve_request demo_api
      ((demo_request ''POST'' ''/api/auth'')\<lparr>rq_Body := no_body\<lparr>jb_password := Some ''secret''\<rparr>\<rparr>)
      (demo_server demo_disk) = Some (resp, demo_server demo_disk) \<and> rs_Cookie resp = Some ''token'' \<and>
    serve_request demo_api ((demo_request ''GET'' ''/api/nodes'')\<lparr>rq_Cookie := Some ''token''\<rparr>)
      (demo_server demo_disk) =
    handleNodes demo_api ((demo_request ''GET'' ''/api/nodes'')\<lparr>rq_Cookie := Some ''token''\<rparr>)
      (demo_server demo_disk)"
proof -
  let ?r = "(demo_request ''POST'' ''/api/auth'')\<lparr>rq_Body := no_body\<lparr>jb_password := Some ''secret''\<rparr>\<rparr>"
    and ?q = "(demo_request ''GET'' ''/api/nodes'')\<lparr>rq_Cookie := Some ''token''\<rparr>"
    and ?s = "demo_server demo_disk"
  have r: "route (rq_Path ?r) = AuthRoute" "rq_Method ?r = ''POST''"
    "jb_password (rq_Body ?r) = Some (mc_Password (sv_cfg ?s))" "mc_Password (sv_cfg ?s) \<noteq> []"
    unfolding demo_password by (simp_all add: demo_request_def demo_routes)
  have q: "route (rq_Path ?q) = NodesRoute" "rq_Cookie ?q = Some ''token''"
    by (simp_all add: demo_request_def demo_routes)
  then have "route (rq_Path ?q) \<noteq> AuthRoute" by simp
  from login_opens [OF r this, of demo_api] obtain resp t where
    l: "serve_request demo_api ?r ?s = Some (resp, ?s)" "rs_Cookie resp = Some t"
      "rq_Cookie ?q = Some t \<longrightarrow> (\<forall>h. route_handler demo_api (route (rq_Path ?q)) = withAuth h \<longrightarrow>
         serve_request demo_api ?q ?s = h ?q ?s)" by blast
  have "sv_sessionToken ?s = ''token''" by (simp add: demo_server_def)
  then have "t = ''token''"
    using l(1,2) r by (auto simp: serve_request_def handleAuth_def)
  then show ?thesis using l q by simp
qed

theorem get_reads_only_witness:
  "\<exists>resp s'. serve_request demo_api
      ((demo_request ''GET'' ''/api/nodes'')\<lparr>rq_Cookie := Some ''token''\<rparr>) (demo_server demo_disk) = Some (resp, s') \<and>
    sv_box s' = sv_box (demo_server demo_disk)"
proof -
  let ?q = "(demo_request ''GET'' ''/api/nodes'')\<lparr>rq_Cookie := Some ''token''\<rparr>"
  have m: "rq_Method ?q = ''GET''" by (simp add: demo_request_def)
  have "authorized ?q (demo_server demo_disk)"
    by (simp add: authorized_def demo_server_def)
  then have "serve_request demo_api ?q (demo_server demo_disk) =
      handleNodes demo_api ?q (demo_server demo_disk)"
    by (simp add: serve_request_def demo_request_def demo_routes withAuth_def)
  then obtain resp s' where "serve_request demo_api ?q (demo_server demo_disk) = Some (resp, s')"
    by (simp add: handleNodes_def demo_request_def)
  with get_reads_only [OF m this] show ?thesis by blast
qed

text \<open>Two nodes, of which one is heard of in time.\<close>

theorem probe_all_accounts_witness:
  "\<exists>resp s' mid ok failed. handleProbeAll demo_api (demo_request ''POST'' []) (demo_server demo_disk) =
      Some (resp, s') \<and> rs_Body resp = Events (EvStart 2 # mid @ [EvComplete 2 ok failed]) \<and>
    map event_current mid = [Some 1, Some 2] \<and> ok + failed = 2"
proof -
  let ?s = "demo_server demo_disk" and ?r = "demo_request ''POST'' []"
  define snaps where "snaps = Snapshot (ae_order demo_api) (world ?s)"
  have two: "length snaps = 2"
    by (simp add: snaps_def Snapshot_def SnapshotFiltered_def snapshot_kept_def demo_api_def)
  have m: "rq_Method ?r = ''POST''" by (simp add: demo_request_def)
  have flush: "ae_flusher demo_api" by (simp add: demo_api_def)
  obtain resp s' where run: "handleProbeAll demo_api ?r ?s = Some (resp, s')"
  proof -
    obtain evs ok failed s1 where "probe_events demo_api (length snaps) (ae_arrival demo_api snaps) 0 0 ?s =
        (evs, ok, failed, s1)"
      by (metis prod_cases4)
    moreover have "snaps \<noteq> []" using two by auto
    ultimately show thesis
      using m flush by (intro that) (simp add: handleProbeAll_def snaps_def [symmetric] Let_def)
  qed
  have "snaps \<noteq> []" "length (ae_arrival demo_api snaps) \<le> length snaps"
    using two by (auto simp: demo_api_def)
  from probe_all_accounts [OF m run snaps_def this flush] run two show ?thesis
    by (auto simp: upt_rec)
qed

theorem export_line_parses_witness:
  "\<exists>u. url_Parse (proxy_url ''2001:db8::1'' 80 ''a:b'' ''p@/'') = Some u \<and>
    u_User u = Some (''a:b'', Some ''p@/'') \<and> url_Hostname u = ''2001:db8::1'' \<and> url_Port u = ''80''"
proof -
  have a: "list_all host_char ''2001:db8::1''" and n: "''2001:db8::1'' \<noteq> []" and u: "TrimSpace ''a:b'' \<noteq> []"
    by code_simp+
  have "uint (80 :: port) = 80" by simp
  moreover have "Itoa 80 = ''80''" by code_simp
  ultimately have p: "Itoa (uint (80 :: port)) = ''80''" by metis
  obtain x where "url_Parse (proxy_url ''2001:db8::1'' 80 ''a:b'' ''p@/'') = Some x"
    "u_User x = Some (''a:b'', Some ''p@/'')" "url_Hostname x = ''2001:db8::1''"
    "url_Port x = Itoa (uint (80 :: port))"
    using export_line_parses [OF a n, of 80 "''a:b''" "''p@/''"] u by metis
  then show ?thesis unfolding p by blast
qed

section \<open>Names with a percent sign\<close>

text \<open>
  The path of a request is already unescaped, and the handler unescapes it again: a node whose name
  has a percent sign can be created but not be updated or deleted.
\<close>

lemma percent_name_unreachable:
  "sv_nodeMgr s \<Longrightarrow> rq_Path r = ''/api/nodes/config/'' @ ''50%'' \<Longrightarrow>
   handleConfigNodeItem env r s = Some (fail 400 BadNodeName, s)"
proof -
  have p: "PathUnescape ''50%'' = None" by code_simp
  have t: "TrimPrefix (''/api/nodes/config/'' @ ''50%'') ''/api/nodes/config/'' = ''50%''"
    by (rule TrimPrefix_append)
  assume "sv_nodeMgr s" "rq_Path r = ''/api/nodes/config/'' @ ''50%''"
  then show ?thesis
    unfolding handleConfigNodeItem_def ensureNodeManager_def by (simp only: t p option.case) simp
qed

end
