(* ===== verification/Geo_Resolver.thy ===== *)
theory Geo_Resolver
  imports Go_Ip Geo_Info
begin

text \<open>
  The GeoIP resolver (\<open>internal/geo/resolver.go\<close>): host names are resolved to a public address,
  public addresses are looked up at an HTTP service, and both answers are cached for a while.

  The network is the record \<open>geo_env\<close>: the DNS answers, the HTTP clients, the JSON decoder, and for the
  third-party \<open>singleflight\<close> the answer of a call for the same key that is in flight, if there is one.
  DNS and HTTP are given the deadline of the context.  Each operation reads its own clock: the order of
  the readings is noted at the operation, readings on a branch not taken are not used.
\<close>

section \<open>State and environment\<close>

record resolver_options =
  ro_APIBaseURL :: string
  ro_Timeout :: duration
  ro_CacheTTL :: duration
  ro_HostCacheTTL :: duration
  ro_Language :: string

text \<open>The two clients differ in their transport only and are the constructors of \<open>http_client\<close>.\<close>

record resolver =
  rs_baseURL :: string
  rs_timeout :: duration
  rs_cacheTTL :: duration
  rs_hostCacheTTL :: duration
  rs_language :: string
  rs_ipCache :: "string \<Rightarrow> (geo_info \<times> time) option"
  rs_hostCache :: "string \<Rightarrow> (string \<times> time) option"

datatype http_client = HttpDirect | HttpEnv

text \<open>A transport error, or a status with a body, or a body that cannot be read to its end.\<close>

datatype http_answer = NoAnswer string | Answer int "string + string"

datatype get_error = BadRequest | Transport string | ReadBody string | Status int

datatype geo_error =
    NilResolver
  | EmptyHost
  | NonPublicIP string
  | ResolveFailed string string
  | NoAddresses string
  | NoPublicIP string
  | EmptyAnswer string
  | EmptyIP
  | InvalidIP string
  | BadEndpoint
  | HttpFailed get_error get_error
  | BadGeoJSON string
  | GeoRefused string

record ipwhois =
  iw_Success :: bool
  iw_Message :: string
  iw_IP :: string
  iw_Country :: string
  iw_CountryCode :: string
  iw_Region :: string
  iw_City :: string
  iw_ASN :: int
  iw_ISP :: string

text \<open>
  \<open>ge_dns\<close> is \<open>LookupIPAddr\<close>; a \<open>net.IP\<close> is its octets, nil is empty.  \<open>ge_host_flight\<close> and \<open>ge_ip_flight\<close>
  are the answers of calls in flight.
\<close>

record geo_env =
  ge_dns :: "time option \<Rightarrow> string \<Rightarrow> string + nat list list"
  ge_http :: "time option \<Rightarrow> http_client \<Rightarrow> string \<Rightarrow> http_answer"
  ge_json :: "string \<Rightarrow> string + ipwhois"
  ge_host_flight :: "string \<Rightarrow> (geo_error + string) option"
  ge_ip_flight :: "string \<Rightarrow> (geo_error + geo_info) option"

section \<open>Construction\<close>

text \<open>\<open>strings.TrimRight\<close> with the cutset \<open>/\<close>.\<close>

definition trim_slashes :: "string \<Rightarrow> string" where
  "trim_slashes s = rev (dropWhile (\<lambda>c. c = CHR ''/'') (rev s))"

definition positive_or :: "duration \<Rightarrow> duration \<Rightarrow> duration" where
  "positive_or d fallback = (if d \<le> 0 then fallback else d)"

definition NewResolver :: "resolver_options \<Rightarrow> resolver" where
  "NewResolver o1 =
     (let base = TrimSpace (ro_APIBaseURL o1); lang = TrimSpace (ro_Language o1) in
      \<lparr>rs_baseURL = trim_slashes (if base = [] then ''https://ipwho.is/'' else base) @ ''/'',
       rs_timeout = positive_or (ro_Timeout o1) (5 * second),
       rs_cacheTTL = positive_or (ro_CacheTTL o1) (7 * 24 * hour),
       rs_hostCacheTTL = positive_or (ro_HostCacheTTL o1) hour,
       rs_language = (if lang = [] then ''zh-CN'' else lang),
       rs_ipCache = (\<lambda>_. None), rs_hostCache = (\<lambda>_. None)\<rparr>)"

section \<open>Addresses\<close>

definition isPublicAddr :: "ip_addr \<Rightarrow> bool" where
  "isPublicAddr a \<longleftrightarrow>
     \<not> (IsPrivate a \<or> IsLoopback a \<or> IsMulticast a \<or> IsUnspecified a \<or> IsLinkLocalUnicast a \<or>
        IsLinkLocalMulticast a)"

text \<open>\<open>net.IP.To4\<close> and \<open>net.IP.String\<close>.\<close>

definition To4 :: "nat list \<Rightarrow> nat list option" where
  "To4 ip =
     (if length ip = 4 then Some ip
      else if length ip = 16 \<and> is_4in6 ip then Some (drop 12 ip)
      else None)"

definition IP_String :: "nat list \<Rightarrow> string" where
  "IP_String ip =
     (case To4 ip of
        Some v4 \<Rightarrow> v4_text v4
      | None \<Rightarrow>
          if ip = [] then ''<nil>''
          else if length ip = 16 then v6_text ip
          else CHR ''?'' # concat (map (\<lambda>b. [hex_digit (b div 16), hex_digit (b mod 16)]) ip))"

definition public_text :: "string \<Rightarrow> string option" where
  "public_text t =
     (case ParseAddr t of
        None \<Rightarrow> None
      | Some a \<Rightarrow> if isPublicAddr a then Some (addr_String a) else None)"

text \<open>The two loops: the first address of a kind that is public.\<close>

fun first_public_v4 :: "nat list list \<Rightarrow> string option" where
  "first_public_v4 [] = None"
| "first_public_v4 (ip # ips) =
     (if ip = [] then first_public_v4 ips
      else
        (case To4 ip of
           None \<Rightarrow> first_public_v4 ips
         | Some v4 \<Rightarrow>
             (case public_text (IP_String v4) of None \<Rightarrow> first_public_v4 ips | Some t \<Rightarrow> Some t)))"

fun first_public :: "nat list list \<Rightarrow> string option" where
  "first_public [] = None"
| "first_public (ip # ips) =
     (if ip = [] then first_public ips
      else (case public_text (IP_String ip) of None \<Rightarrow> first_public ips | Some t \<Rightarrow> Some t))"

definition resolveHostToPublicIP :: "geo_env \<Rightarrow> time option \<Rightarrow> string \<Rightarrow> geo_error + string" where
  "resolveHostToPublicIP env deadline host =
     (case ge_dns env deadline host of
        Inl e \<Rightarrow> Inl (ResolveFailed host e)
      | Inr addrs \<Rightarrow>
          if addrs = [] then Inl (NoAddresses host)
          else
            (case first_public_v4 addrs of
               Some t \<Rightarrow> Inr t
             | None \<Rightarrow>
                 (case first_public addrs of Some t \<Rightarrow> Inr t | None \<Rightarrow> Inl (NoPublicIP host))))"

section \<open>Deadlines\<close>

text \<open>
  The deadline of the derived context.  \<open>now\<close> is the reading of \<open>time.Until\<close>, \<open>later\<close> that of
  \<open>context.WithTimeout\<close>, which keeps an earlier deadline of its parent.
\<close>

definition withBoundedTimeout :: "time \<Rightarrow> time \<Rightarrow> time option \<Rightarrow> duration \<Rightarrow> time option" where
  "withBoundedTimeout now later deadline d =
     (if d \<le> 0 then deadline
      else
        (case deadline of
           None \<Rightarrow> Some (later + d)
         | Some t \<Rightarrow> if t - now \<le> d then Some t else Some (min t (later + d))))"

section \<open>The HTTP request\<close>

definition geo_try :: "geo_env \<Rightarrow> time option \<Rightarrow> string \<Rightarrow> http_client \<Rightarrow> get_error + string" where
  "geo_try env deadline urlStr client =
     (case url_Parse urlStr of
        None \<Rightarrow> Inl BadRequest
      | Some _ \<Rightarrow>
          (case ge_http env deadline client urlStr of
             NoAnswer e \<Rightarrow> Inl (Transport e)
           | Answer status body \<Rightarrow>
               (case body of
                  Inl e \<Rightarrow> Inl (ReadBody e)
                | Inr b \<Rightarrow> if status \<noteq> 200 then Inl (Status status) else Inr b)))"

definition doGETJSON :: "geo_env \<Rightarrow> time option \<Rightarrow> string \<Rightarrow> geo_error + string" where
  "doGETJSON env deadline urlStr =
     (case geo_try env deadline urlStr HttpDirect of
        Inr b \<Rightarrow> Inr b
      | Inl directErr \<Rightarrow>
          (case geo_try env deadline urlStr HttpEnv of
             Inr b \<Rightarrow> Inr b
           | Inl envErr \<Rightarrow> Inl (HttpFailed directErr envErr)))"

definition geo_fields :: string where
  "geo_fields = ''success,message,ip,country,country_code,region,city,connection''"

definition geo_endpoint :: "resolver \<Rightarrow> string \<Rightarrow> string option" where
  "geo_endpoint r ip =
     map_option (\<lambda>u.
       let q = values_Set ''fields'' geo_fields (url_Query u);
           q' = (if TrimSpace (rs_language r) \<noteq> [] then values_Set ''lang'' (rs_language r) q else q)
       in url_String (u\<lparr>u_RawQuery := values_Encode q'\<rparr>))
     (url_Parse (rs_baseURL r @ PathEscape ip))"

definition geo_of_answer :: "string \<Rightarrow> ipwhois \<Rightarrow> geo_info" where
  "geo_of_answer ip w =
     \<lparr>gi_IP = (if TrimSpace (iw_IP w) = [] then ip else TrimSpace (iw_IP w)),
      gi_Country = TrimSpace (iw_Country w), gi_CountryCode = TrimSpace (iw_CountryCode w),
      gi_Region = TrimSpace (iw_Region w), gi_City = TrimSpace (iw_City w),
      gi_ASN = (if 0 < iw_ASN w then ''AS'' @ Itoa (iw_ASN w) else []),
      gi_ISP = TrimSpace (iw_ISP w), gi_Error = []\<rparr>"

definition lookupIPWhoIs ::
  "geo_env \<Rightarrow> resolver \<Rightarrow> time option \<Rightarrow> string \<Rightarrow> geo_error + geo_info" where
  "lookupIPWhoIs env r deadline ip =
     (case geo_endpoint r ip of
        None \<Rightarrow> Inl BadEndpoint
      | Some endpoint \<Rightarrow>
          (case doGETJSON env deadline endpoint of
             Inl e \<Rightarrow> Inl e
           | Inr body \<Rightarrow>
               (case ge_json env body of
                  Inl e \<Rightarrow> Inl (BadGeoJSON e)
                | Inr w \<Rightarrow>
                    if \<not> iw_Success w then
                      (let msg = TrimSpace (iw_Message w) in
                       Inl (GeoRefused (if msg = [] then ''geo lookup failed'' else msg)))
                    else Inr (geo_of_answer ip w))))"

section \<open>Lookups\<close>

text \<open>A cache entry that has not expired.\<close>

definition cached :: "time \<Rightarrow> ('a \<times> time) option \<Rightarrow> 'a option" where
  "cached now entry =
     (case entry of None \<Rightarrow> None | Some (x, expires) \<Rightarrow> if now < expires then Some x else None)"

text \<open>\<open>singleflight.Do\<close>: the answer of the call in flight, or else the call itself.\<close>

definition Do :: "('e + 'a) option \<Rightarrow> ('e + 'a) \<times> 's \<Rightarrow> 's \<Rightarrow> ('e + 'a) \<times> 's" where
  "Do flight own s = (case flight of Some answer \<Rightarrow> (answer, s) | None \<Rightarrow> own)"

text \<open>
  \<open>LookupIP\<close> reads the clock at the cache (0), in \<open>withBoundedTimeout\<close> (1, 2) and when it stores
  its answer (3).
\<close>

definition fetch_ip ::
  "geo_env \<Rightarrow> clock \<Rightarrow> time option \<Rightarrow> string \<Rightarrow> resolver \<Rightarrow> (geo_error + geo_info) \<times> resolver" where
  "fetch_ip env clk deadline ip r =
     (case lookupIPWhoIs env r deadline ip of
        Inl e \<Rightarrow> (Inl e, r)
      | Inr info \<Rightarrow>
          (Inr info, r\<lparr>rs_ipCache := (rs_ipCache r)(ip \<mapsto> (info, clk 3 + rs_cacheTTL r))\<rparr>))"

definition lookup_ip ::
  "geo_env \<Rightarrow> clock \<Rightarrow> time option \<Rightarrow> string \<Rightarrow> resolver \<Rightarrow> (geo_error + geo_info) \<times> resolver" where
  "lookup_ip env clk deadline ip0 r =
     (let ip = TrimSpace ip0 in
      if ip = [] then (Inl EmptyIP, r)
      else
        (case ParseAddr ip of
           None \<Rightarrow> (Inl (InvalidIP ip), r)
         | Some a \<Rightarrow>
             if \<not> isPublicAddr a then (Inl (NonPublicIP ip), r)
             else
               (case cached (clk 0) (rs_ipCache r ip) of
                  Some info \<Rightarrow> (Inr info, r)
                | None \<Rightarrow>
                    (let deadline' = withBoundedTimeout (clk 1) (clk 2) deadline (rs_timeout r)
                     in Do (ge_ip_flight env ip) (fetch_ip env clk deadline' ip r) r))))"

text \<open>
  \<open>LookupHost\<close> reads the clock at the cache (0), in \<open>withBoundedTimeout\<close> (1, 2) and when it stores
  the address (3); the readings of \<open>LookupIP\<close> come behind them.
\<close>

definition fetch_host ::
  "geo_env \<Rightarrow> clock \<Rightarrow> time option \<Rightarrow> string \<Rightarrow> resolver \<Rightarrow> (geo_error + string) \<times> resolver" where
  "fetch_host env clk deadline host r =
     (case resolveHostToPublicIP env deadline host of
        Inl e \<Rightarrow> (Inl e, r)
      | Inr ip \<Rightarrow>
          (Inr ip, r\<lparr>rs_hostCache := (rs_hostCache r)(host \<mapsto> (ip, clk 3 + rs_hostCacheTTL r))\<rparr>))"

definition ip_clock :: "clock \<Rightarrow> clock" where
  "ip_clock clk = (\<lambda>n. clk (n + 4))"

definition resolve_host ::
  "geo_env \<Rightarrow> clock \<Rightarrow> time option \<Rightarrow> string \<Rightarrow> resolver \<Rightarrow> (geo_error + geo_info) \<times> resolver" where
  "resolve_host env clk deadline host r =
     (let deadline' = withBoundedTimeout (clk 1) (clk 2) deadline (rs_timeout r) in
      case Do (ge_host_flight env host) (fetch_host env clk deadline' host r) r of
        (Inl e, r') \<Rightarrow> (Inl e, r')
      | (Inr ip, r') \<Rightarrow>
          if TrimSpace ip = [] then (Inl (EmptyAnswer host), r')
          else lookup_ip env (ip_clock clk) deadline' ip r')"

definition lookup_host ::
  "geo_env \<Rightarrow> clock \<Rightarrow> time option \<Rightarrow> string \<Rightarrow> resolver \<Rightarrow> (geo_error + geo_info) \<times> resolver" where
  "lookup_host env clk deadline host0 r =
     (let host = TrimSpace host0 in
      if host = [] then (Inl EmptyHost, r)
      else
        (case ParseAddr host of
           Some a \<Rightarrow>
             if \<not> isPublicAddr a then (Inl (NonPublicIP host), r)
             else lookup_ip env (ip_clock clk) deadline (addr_String a) r
         | None \<Rightarrow>
             (case cached (clk 0) (rs_hostCache r host) of
                None \<Rightarrow> resolve_host env clk deadline host r
              | Some ip \<Rightarrow>
                  if ip \<noteq> [] then lookup_ip env (ip_clock clk) deadline ip r
                  else resolve_host env clk deadline host r)))"

text \<open>The methods of a \<open>*Resolver\<close>, which may be nil.\<close>

definition LookupIP ::
  "geo_env \<Rightarrow> clock \<Rightarrow> time option \<Rightarrow> string \<Rightarrow> resolver option \<Rightarrow>
    (geo_error + geo_info) \<times> resolver option" where
  "LookupIP env clk deadline ip ro =
     (case ro of None \<Rightarrow> (Inl NilResolver, None) | Some r \<Rightarrow> map_prod id Some (lookup_ip env clk deadline ip r))"

definition LookupHost ::
  "geo_env \<Rightarrow> clock \<Rightarrow> time option \<Rightarrow> string \<Rightarrow> resolver option \<Rightarrow>
    (geo_error + geo_info) \<times> resolver option" where
  "LookupHost env clk deadline host ro =
     (case ro of None \<Rightarrow> (Inl NilResolver, None) | Some r \<Rightarrow> map_prod id Some (lookup_host env clk deadline host r))"

end
