(* ===== verification/Geo_Lookup.thy ===== *)
theory Geo_Lookup
  imports Geo_Resolver
begin

text \<open>
  Facts on the GeoIP resolver: whom a lookup asks and until when, what its caches hold, that they answer
  a second lookup alone, and which address stands for a host.
\<close>

section \<open>Whom a lookup asks\<close>

definition public_ip :: "string \<Rightarrow> bool" where
  "public_ip t \<longleftrightarrow> (\<exists>a. ParseAddr t = Some a \<and> isPublicAddr a)"

text \<open>A deadline that is at most \<open>latest\<close> and not behind the caller's.\<close>

definition within :: "time \<Rightarrow> time option \<Rightarrow> time option \<Rightarrow> bool" where
  "within latest deadline d \<longleftrightarrow>
     (\<exists>t. d = Some t \<and> t \<le> latest \<and> (\<forall>t0. deadline = Some t0 \<longrightarrow> t \<le> t0))"

lemma withBoundedTimeout_within:
  assumes "0 < d" and "now \<le> later" and "later + d \<le> latest"
  shows "within latest deadline (withBoundedTimeout now later deadline d)"
  using assms by (auto simp: within_def withBoundedTimeout_def split: option.splits)

lemma within_trans: "within l d d' \<Longrightarrow> within l' d' d'' \<Longrightarrow> within l' d d''"
  by (fastforce simp: within_def)

text \<open>
  Two environments that answer alike what a lookup may ask: DNS for host names, the service for public
  addresses, both within the deadline.
\<close>

definition agree :: "resolver \<Rightarrow> time \<Rightarrow> time option \<Rightarrow> geo_env \<Rightarrow> geo_env \<Rightarrow> bool" where
  "agree r latest deadline env env' \<longleftrightarrow>
     (\<forall>d host. within latest deadline d \<and> ParseAddr host = None \<longrightarrow> ge_dns env' d host = ge_dns env d host) \<and>
     (\<forall>d client ip u. within latest deadline d \<and> public_ip ip \<and> geo_endpoint r ip = Some u \<longrightarrow>
        ge_http env' d client u = ge_http env d client u) \<and>
     ge_json env' = ge_json env \<and> ge_host_flight env' = ge_host_flight env \<and>
     ge_ip_flight env' = ge_ip_flight env"

lemma agree_lookupIPWhoIs:
  assumes "agree r latest deadline env env'" and "within latest deadline d" and "public_ip ip"
  shows "lookupIPWhoIs env' r d ip = lookupIPWhoIs env r d ip"
proof -
  have "geo_try env' d u client = geo_try env d u client" if "geo_endpoint r ip = Some u" for client u
  proof -
    have "ge_http env' d client u = ge_http env d client u"
      using assms that unfolding agree_def by blast
    then show ?thesis by (simp only: geo_try_def)
  qed
  then have "doGETJSON env' d u = doGETJSON env d u" if "geo_endpoint r ip = Some u" for u
    using that by (simp only: doGETJSON_def)
  moreover have "ge_json env' = ge_json env" using assms(1) by (simp add: agree_def)
  ultimately show ?thesis
    by (cases "geo_endpoint r ip") (simp_all only: lookupIPWhoIs_def option.case)
qed

lemma agree_lookup_ip:
  assumes "agree r latest deadline env env'" and "0 < rs_timeout r" and "clk 1 \<le> clk 2"
    and "clk 2 + rs_timeout r \<le> latest" and "\<And>d'. within latest d d' \<Longrightarrow> within latest deadline d'"
  shows "lookup_ip env' clk d ip r = lookup_ip env clk d ip r"
proof -
  let ?d = "withBoundedTimeout (clk 1) (clk 2) d (rs_timeout r)"
  have "within latest deadline ?d" by (rule assms(5) [OF withBoundedTimeout_within [OF assms(2-4)]])
  then have "fetch_ip env' clk ?d (TrimSpace ip) r = fetch_ip env clk ?d (TrimSpace ip) r"
    if "public_ip (TrimSpace ip)"
    using agree_lookupIPWhoIs [OF assms(1) _ that] by (simp add: fetch_ip_def)
  moreover have "ge_ip_flight env' = ge_ip_flight env" using assms(1) by (simp add: agree_def)
  ultimately show ?thesis
    by (auto simp: lookup_ip_def public_ip_def Let_def split: option.split)
qed

text \<open>What a lookup leaves of the resolver.\<close>

definition same_service :: "resolver \<Rightarrow> resolver \<Rightarrow> bool" where
  "same_service r r' \<longleftrightarrow>
     rs_baseURL r' = rs_baseURL r \<and> rs_language r' = rs_language r \<and> rs_timeout r' = rs_timeout r \<and>
     rs_cacheTTL r' = rs_cacheTTL r \<and> rs_hostCacheTTL r' = rs_hostCacheTTL r"

lemma same_endpoint: "same_service r r' \<Longrightarrow> geo_endpoint r' ip = geo_endpoint r ip"
  unfolding same_service_def geo_endpoint_def by (elim conjE) (simp only:)

lemma agree_same: "same_service r r' \<Longrightarrow> agree r latest deadline env env' \<Longrightarrow> agree r' latest deadline env env'"
  unfolding agree_def by (simp only: same_endpoint) blast

lemma fetch_host_keeps: "same_service r (snd (fetch_host env clk d host r))"
  by (simp add: fetch_host_def same_service_def split: sum.split)

lemma agree_resolve_host:
  assumes "agree r latest deadline env env'" and "0 < rs_timeout r" and "ParseAddr host = None"
    and "clk 1 \<le> clk 2" "clk 2 \<le> clk 5" "clk 5 \<le> clk 6" and "clk 6 + rs_timeout r \<le> latest"
  shows "resolve_host env' clk deadline host r = resolve_host env clk deadline host r"
proof -
  let ?d = "withBoundedTimeout (clk 1) (clk 2) deadline (rs_timeout r)"
  have d: "within latest deadline ?d" by (rule withBoundedTimeout_within) (use assms in auto)
  have dns: "ge_dns env' ?d host = ge_dns env ?d host" using assms(1,3) d unfolding agree_def by blast
  then have own: "fetch_host env' clk ?d host r = fetch_host env clk ?d host r"
    by (simp add: fetch_host_def resolveHostToPublicIP_def)
  have flight: "ge_host_flight env' = ge_host_flight env" using assms(1) by (simp add: agree_def)
  define r' where "r' = snd (Do (ge_host_flight env host) (fetch_host env clk ?d host r) r)"
  have same: "same_service r r'"
    using fetch_host_keeps [of r env clk ?d host] by (simp add: r'_def Do_def same_service_def split: option.split)
  have "lookup_ip env' (ip_clock clk) ?d ip r' = lookup_ip env (ip_clock clk) ?d ip r'" for ip
  proof (rule agree_lookup_ip [OF agree_same [OF same assms(1)]])
    show "within latest deadline d'" if "within latest ?d d'" for d' by (rule within_trans [OF d that])
  qed (use assms same in \<open>auto simp: same_service_def ip_clock_def\<close>)
  then show ?thesis
    unfolding resolve_host_def Let_def own flight r'_def by (auto split: prod.split sum.split)
qed

text \<open>
  C11. What a lookup of a host asks the network, and for how long.  DNS is only asked about host names, the
  GeoIP service only about public addresses (with the URL of \<open>geo_endpoint\<close>), and every request
  carries a deadline, at most the resolver's timeout after the clock and never behind the caller's:
  whatever an environment answers to any other question, the result and the caches are the same.  A
  private, loopback or link-local address is refused without any question.
\<close>

theorem lookup_asks_only:
  assumes "agree r (clk 6 + rs_timeout r) deadline env env'" and "0 < rs_timeout r" and "mono clk"
  shows "LookupHost env' clk deadline host (Some r) = LookupHost env clk deadline host (Some r) \<and>
    (\<forall>a. ParseAddr (TrimSpace host) = Some a \<and> \<not> isPublicAddr a \<longrightarrow>
       LookupHost env clk deadline host (Some r) = (Inl (NonPublicIP (TrimSpace host)), Some r))"
proof
  have clk: "clk m \<le> clk n" if "m \<le> n" for m n using assms(3) that by (rule monoD)
  have ip: "lookup_ip env' (ip_clock clk) deadline ip r = lookup_ip env (ip_clock clk) deadline ip r" for ip
    by (rule agree_lookup_ip [OF assms(1,2)]) (auto simp: ip_clock_def clk)
  have resolve: "resolve_host env' clk deadline h r = resolve_host env clk deadline h r"
    if "ParseAddr h = None" for h
    by (rule agree_resolve_host [OF assms(1,2) that]) (auto simp: clk)
  show "LookupHost env' clk deadline host (Some r) = LookupHost env clk deadline host (Some r)"
    using ip resolve by (simp add: LookupHost_def lookup_host_def Let_def split: option.split)
  have "TrimSpace host \<noteq> []" if "ParseAddr (TrimSpace host) = Some a" for a
    using that by (auto simp: ParseAddr_def)
  then show "\<forall>a. ParseAddr (TrimSpace host) = Some a \<and> \<not> isPublicAddr a \<longrightarrow>
       LookupHost env clk deadline host (Some r) = (Inl (NonPublicIP (TrimSpace host)), Some r)"
    by (auto simp: LookupHost_def lookup_host_def Let_def)
qed

section \<open>The caches\<close>

definition one_slash :: "string \<Rightarrow> bool" where
  "one_slash base \<longleftrightarrow> (\<exists>b. base = b @ ''/'' \<and> (b = [] \<or> last b \<noteq> CHR ''/''))"

text \<open>
  At the instant \<open>now\<close>: the durations are positive, the base URL ends in one slash, the caches hold public
  addresses only, and no entry outlives its time to live.
\<close>

definition resolver_ok :: "time \<Rightarrow> resolver \<Rightarrow> bool" where
  "resolver_ok now r \<longleftrightarrow>
     0 < rs_timeout r \<and> 0 < rs_cacheTTL r \<and> 0 < rs_hostCacheTTL r \<and>
     one_slash (rs_baseURL r) \<and>
     (\<forall>ip info t. rs_ipCache r ip = Some (info, t) \<longrightarrow> public_ip ip \<and> t \<le> now + rs_cacheTTL r) \<and>
     (\<forall>h ip t. rs_hostCache r h = Some (ip, t) \<longrightarrow>
        ParseAddr h = None \<and> (\<exists>a. isPublicAddr a \<and> ip = addr_String a) \<and> t \<le> now + rs_hostCacheTTL r)"

lemma trim_slashes_last: "trim_slashes s = [] \<or> last (trim_slashes s) \<noteq> CHR ''/''"
  using hd_dropWhile [of "\<lambda>c. c = CHR ''/''" "rev s"]
  by (cases "dropWhile (\<lambda>c. c = CHR ''/'') (rev s) = []") (auto simp: trim_slashes_def last_rev)

lemma resolver_ok_later: "resolver_ok now r \<Longrightarrow> now \<le> later \<Longrightarrow> resolver_ok later r"
  by (fastforce simp: resolver_ok_def)

lemma resolver_ok_store_ip:
  assumes "resolver_ok now r" and "public_ip ip"
  shows "resolver_ok now (r\<lparr>rs_ipCache := (rs_ipCache r)(ip \<mapsto> (info, now + rs_cacheTTL r))\<rparr>)"
  using assms by (auto simp: resolver_ok_def)

lemma resolver_ok_store_host:
  assumes "resolver_ok now r" and "ParseAddr h = None" and "isPublicAddr a"
  shows "resolver_ok now (r\<lparr>rs_hostCache := (rs_hostCache r)(h \<mapsto> (addr_String a, now + rs_hostCacheTTL r))\<rparr>)"
  using assms by (auto simp: resolver_ok_def)

lemma resolver_ok_lookup_ip:
  assumes "resolver_ok now r" and "now \<le> clk 3"
  shows "resolver_ok (clk 3) (snd (lookup_ip env clk deadline ip r))"
proof -
  have "resolver_ok (clk 3) (snd (fetch_ip env clk d (TrimSpace ip) r))" if "public_ip (TrimSpace ip)" for d
    using resolver_ok_store_ip [OF resolver_ok_later [OF assms] that] resolver_ok_later [OF assms]
    by (simp add: fetch_ip_def split: sum.split)
  then show ?thesis
    using resolver_ok_later [OF assms]
    by (auto simp: lookup_ip_def Let_def public_ip_def Do_def split: option.split)
qed

lemma public_text_result: "public_text t = Some t' \<Longrightarrow> \<exists>a. isPublicAddr a \<and> t' = addr_String a"
  by (auto simp: public_text_def split: option.splits if_splits)

lemma first_public_result:
  "first_public_v4 ips = Some t \<Longrightarrow> \<exists>a. isPublicAddr a \<and> t = addr_String a"
  "first_public ips = Some t \<Longrightarrow> \<exists>a. isPublicAddr a \<and> t = addr_String a"
  by (induction ips) (auto split: if_splits option.splits dest: public_text_result)

lemma resolver_ok_fetch_host:
  assumes "resolver_ok now r" and "now \<le> clk 3" and "ParseAddr host = None"
  shows "resolver_ok (clk 3) (snd (fetch_host env clk d host r))"
proof (cases "resolveHostToPublicIP env d host")
  case (Inr t)
  then have "\<exists>a. isPublicAddr a \<and> t = addr_String a"
    by (auto simp: resolveHostToPublicIP_def split: sum.splits if_splits option.splits dest: first_public_result)
  then show ?thesis
    using resolver_ok_store_host [OF resolver_ok_later [OF assms(1,2)] assms(3)] Inr by (auto simp: fetch_host_def)
qed (simp add: fetch_host_def resolver_ok_later [OF assms(1,2)])

lemma resolver_ok_resolve_host:
  assumes "resolver_ok now r" and "now \<le> clk 3" and "clk 3 \<le> clk 7" and "ParseAddr host = None"
  shows "resolver_ok (clk 7) (snd (resolve_host env clk deadline host r))"
proof -
  let ?d = "withBoundedTimeout (clk 1) (clk 2) deadline (rs_timeout r)"
  define r' where "r' = snd (Do (ge_host_flight env host) (fetch_host env clk ?d host r) r)"
  have ok: "resolver_ok (clk 3) r'"
    using resolver_ok_fetch_host [where clk = clk, OF assms(1,2,4)] resolver_ok_later [OF assms(1,2)]
    by (simp add: r'_def Do_def split: option.split)
  have "resolver_ok (clk 7) (snd (lookup_ip env (ip_clock clk) ?d ip r'))" for ip
    using resolver_ok_lookup_ip [OF ok, of "ip_clock clk"] assms(3) by (simp add: ip_clock_def)
  then show ?thesis
    using resolver_ok_later [OF ok assms(3)]
    unfolding resolve_host_def Let_def r'_def by (auto split: prod.split sum.split)
qed

text \<open>
  C39. The caches of the resolver hold nothing but public addresses, each for at most its time to live: a new
  resolver starts so, whatever its options (its durations are positive, its base URL ends in exactly one
  slash), and every lookup, successful or not, of a host or of an address, keeps it so.
\<close>

theorem resolver_ok_kept:
  assumes "resolver_ok now r" and "mono clk" and "now \<le> clk 0"
  shows "resolver_ok now (NewResolver o1) \<and>
    resolver_ok (clk 7) (the (snd (LookupIP env clk deadline ip (Some r)))) \<and>
    resolver_ok (clk 7) (the (snd (LookupHost env clk deadline host (Some r))))"
proof (intro conjI)
  have clk: "clk m \<le> clk n" if "m \<le> n" for m n using assms(2) that by (rule monoD)
  have now: "now \<le> clk n" for n using assms(3) clk [of 0 n] by simp
  show "resolver_ok now (NewResolver o1)"
    using trim_slashes_last by (auto simp: NewResolver_def resolver_ok_def one_slash_def positive_or_def Let_def second_def hour_def)
  have ip: "resolver_ok (clk 7) (snd (lookup_ip env clk deadline ip r))"
    by (rule resolver_ok_later [OF resolver_ok_lookup_ip [OF assms(1) now]]) (simp add: clk)
  then show "resolver_ok (clk 7) (the (snd (LookupIP env clk deadline ip (Some r))))"
    by (simp add: LookupIP_def)
  have later: "resolver_ok (clk 7) (snd (lookup_ip env (ip_clock clk) deadline ip r))" for ip
    using resolver_ok_lookup_ip [OF assms(1), of "ip_clock clk"] now by (simp add: ip_clock_def)
  have "resolver_ok (clk 7) (snd (resolve_host env clk deadline h r))" if "ParseAddr h = None" for h
    by (rule resolver_ok_resolve_host [OF assms(1) now _ that]) (simp add: clk)
  then show "resolver_ok (clk 7) (the (snd (LookupHost env clk deadline host (Some r))))"
    using later resolver_ok_later [OF assms(1) now] by (simp add: LookupHost_def lookup_host_def Let_def split: option.split)
qed

lemma lookup_ip_cached:
  assumes "lookup_ip env clk deadline ip0 r = (Inr info, r')" and "\<And>ip. ge_ip_flight env ip = None"
  shows "\<exists>e. rs_ipCache r' (TrimSpace ip0) = Some (info, e) \<and> (clk 0 < e \<or> e = clk 3 + rs_cacheTTL r) \<and>
    rs_hostCache r' = rs_hostCache r \<and>
    (\<forall>env' later deadline'. later 0 < e \<longrightarrow> lookup_ip env' later deadline' ip0 r' = (Inr info, r'))"
proof -
  let ?ip = "TrimSpace ip0"
  obtain a where a: "?ip \<noteq> []" "ParseAddr ?ip = Some a" "isPublicAddr a"
    using assms(1) by (auto simp: lookup_ip_def Let_def split: option.splits if_splits)
  show ?thesis
  proof (cases "cached (clk 0) (rs_ipCache r ?ip)")
    case None
    then have "fetch_ip env clk (withBoundedTimeout (clk 1) (clk 2) deadline (rs_timeout r)) ?ip r = (Inr info, r')"
      using assms a by (simp add: lookup_ip_def Let_def Do_def)
    then have "r' = r\<lparr>rs_ipCache := (rs_ipCache r)(?ip \<mapsto> (info, clk 3 + rs_cacheTTL r))\<rparr>"
      by (auto simp: fetch_ip_def split: sum.splits)
    then show ?thesis
      using a by (auto simp: lookup_ip_def Let_def cached_def)
  next
    case (Some x)
    then have r': "x = info" "r' = r" using assms(1) a by (simp_all add: lookup_ip_def Let_def)
    with Some obtain e where "rs_ipCache r ?ip = Some (info, e)" "clk 0 < e"
      by (auto simp: cached_def split: option.splits if_splits)
    then show ?thesis
      using a r' by (auto simp: lookup_ip_def Let_def cached_def)
  qed
qed

text \<open>
  C40. A lookup that succeeded while no other one was in flight is answered from the caches until an
  entry expires.  It leaves an entry for an address and, when the host is a name, one for the host,
  each either new, with its full time to live, or still alive during the lookup; and as long as
  these have not expired every later lookup of the host gives the same location, asks nothing (the
  environment may answer anything, or nothing at all) and changes nothing.
\<close>

theorem lookup_host_cached:
  assumes "LookupHost env clk deadline host (Some r) = (Inr info, Some r')"
    and "ge_host_flight env (TrimSpace host) = None" and "\<And>ip. ge_ip_flight env ip = None"
  shows "\<exists>t e1 e2. rs_ipCache r' (TrimSpace t) = Some (info, e2) \<and>
    (clk 4 < e2 \<or> e2 = clk 7 + rs_cacheTTL r) \<and>
    (ParseAddr (TrimSpace host) = None \<longrightarrow>
       rs_hostCache r' (TrimSpace host) = Some (t, e1) \<and> (clk 0 < e1 \<or> e1 = clk 3 + rs_hostCacheTTL r)) \<and>
    (\<forall>env' later deadline'.
       later 4 < e2 \<longrightarrow> (ParseAddr (TrimSpace host) = None \<longrightarrow> later 0 < e1) \<longrightarrow>
       LookupHost env' later deadline' host (Some r') = (Inr info, Some r'))"
proof -
  let ?h = "TrimSpace host" and ?d = "withBoundedTimeout (clk 1) (clk 2) deadline (rs_timeout r)"
  have look: "lookup_host env clk deadline host r = (Inr info, r')" and ne: "?h \<noteq> []"
    using assms(1) by (auto simp: LookupHost_def lookup_host_def Let_def map_prod_def split: prod.splits)
  show ?thesis
  proof (cases "ParseAddr ?h")
    case (Some a)
    then have a: "isPublicAddr a" "lookup_ip env (ip_clock clk) deadline (addr_String a) r = (Inr info, r')"
      using look ne by (auto simp: lookup_host_def Let_def split: if_splits)
    from lookup_ip_cached [OF a(2) assms(3)] obtain e where
      e: "rs_ipCache r' (TrimSpace (addr_String a)) = Some (info, e)" "clk 4 < e \<or> e = clk 7 + rs_cacheTTL r"
      "\<forall>env' later deadline'. later 0 < e \<longrightarrow> lookup_ip env' later deadline' (addr_String a) r' = (Inr info, r')"
      by (auto simp: ip_clock_def)
    then have "LookupHost env' later deadline' host (Some r') = (Inr info, Some r')" if "later 4 < e"
      for env' later deadline'
      using that Some a(1) ne by (simp add: LookupHost_def lookup_host_def Let_def ip_clock_def)
    with e Some show ?thesis
      by (intro exI [of _ "addr_String a"] exI [of _ e] conjI) simp_all
  next
    case None
    obtain t e1 r1 where t: "rs_hostCache r1 ?h = Some (t, e1)" "clk 0 < e1 \<or> e1 = clk 3 + rs_hostCacheTTL r"
      "t \<noteq> []" "rs_cacheTTL r1 = rs_cacheTTL r" "\<exists>d. lookup_ip env (ip_clock clk) d t r1 = (Inr info, r')"
    proof (cases "\<exists>t. cached (clk 0) (rs_hostCache r ?h) = Some t \<and> t \<noteq> []")
      case True
      then obtain t where c: "cached (clk 0) (rs_hostCache r ?h) = Some t" "t \<noteq> []" by blast
      then obtain e1 where "rs_hostCache r ?h = Some (t, e1)" "clk 0 < e1"
        by (auto simp: cached_def split: option.splits if_splits)
      moreover have "lookup_ip env (ip_clock clk) deadline t r = (Inr info, r')"
        using look ne None c by (simp add: lookup_host_def Let_def)
      ultimately show thesis using that c(2) by blast
    next
      case False
      then have "resolve_host env clk deadline ?h r = (Inr info, r')"
        using look ne None by (auto simp: lookup_host_def Let_def split: option.splits if_splits)
      then obtain t where "resolveHostToPublicIP env ?d ?h = Inr t" "TrimSpace t \<noteq> []"
        "lookup_ip env (ip_clock clk) ?d t
          (r\<lparr>rs_hostCache := (rs_hostCache r)(?h \<mapsto> (t, clk 3 + rs_hostCacheTTL r))\<rparr>) = (Inr info, r')"
        using assms(2) by (auto simp: resolve_host_def Let_def Do_def fetch_host_def split: sum.splits if_splits)
      moreover from this have "t \<noteq> []" by auto
      ultimately show thesis
        by (intro that [of "r\<lparr>rs_hostCache := (rs_hostCache r)(?h \<mapsto> (t, clk 3 + rs_hostCacheTTL r))\<rparr>" t
              "clk 3 + rs_hostCacheTTL r"]) auto
    qed
    obtain d where "lookup_ip env (ip_clock clk) d t r1 = (Inr info, r')" using t(5) by blast
    from lookup_ip_cached [OF this assms(3)] obtain e2 where
      e2: "rs_ipCache r' (TrimSpace t) = Some (info, e2)" "clk 4 < e2 \<or> e2 = clk 7 + rs_cacheTTL r"
      "rs_hostCache r' = rs_hostCache r1"
      "\<forall>env' later deadline'. later 0 < e2 \<longrightarrow> lookup_ip env' later deadline' t r' = (Inr info, r')"
      using t(4) by (auto simp: ip_clock_def)
    then have "LookupHost env' later deadline' host (Some r') = (Inr info, Some r')"
      if "later 4 < e2" "later 0 < e1" for env' later deadline'
      using that None ne t(1,3) by (simp add: LookupHost_def lookup_host_def Let_def ip_clock_def cached_def)
    with e2 t(1,2) None show ?thesis
      by (intro exI [of _ t] exI [of _ e1] exI [of _ e2] conjI) simp_all
  qed
qed

section \<open>The address of a host\<close>

definition public_v4 :: "nat list \<Rightarrow> bool" where
  "public_v4 ip \<longleftrightarrow> (case To4 ip of None \<Rightarrow> False | Some v4 \<Rightarrow> isPublicAddr (V4 v4))"

definition dns_ip :: "nat list \<Rightarrow> bool" where
  "dns_ip ip \<longleftrightarrow> (ip = [] \<or> length ip = 4 \<or> length ip = 16) \<and> list_all (\<lambda>b. b < 256) ip"

lemma To4_octets:
  assumes "dns_ip ip" and "To4 ip = Some v4"
  obtains a b c d where "v4 = [a, b, c, d]" "a < 256" "b < 256" "c < 256" "d < 256"
proof -
  have "list_all (\<lambda>b. b < 256) v4" and len: "length v4 = 4"
    using assms by (auto simp: dns_ip_def To4_def list_all_iff dest: in_set_dropD split: if_splits)
  moreover obtain a b c d where "v4 = [a, b, c, d]"
    using len by (auto simp: numeral_eq_Suc length_Suc_conv)
  ultimately show thesis using that by simp
qed

lemma public_text_v4:
  assumes "dns_ip ip" and "To4 ip = Some v4"
  shows "public_text (IP_String v4) = (if isPublicAddr (V4 v4) then Some (v4_text v4) else None)"
  using To4_octets [OF assms]
  by (rule To4_octets [OF assms]) (simp add: IP_String_def To4_def public_text_def ParseAddr_v4 addr_String_def)

lemma first_public_v4_find:
  assumes "list_all dns_ip ips"
  shows "first_public_v4 ips = map_option (\<lambda>ip. v4_text (the (To4 ip))) (find public_v4 ips)"
  using assms
proof (induction ips)
  case (Cons ip ips)
  have "To4 [] = None" by (simp add: To4_def)
  then show ?case
    using Cons public_text_v4 [of ip] by (auto simp: public_v4_def split: option.split)
qed simp

text \<open>
  A host is resolved to its first public IPv4 address, in the order of the DNS answer and whatever other
  addresses, private or IPv6, stand before it; an IPv6 address is taken only when there is no such
  address, and a host without a public address is an error.
\<close>

theorem resolve_prefers_v4:
  assumes "ge_dns env d host = Inr ips" and "list_all dns_ip ips"
  shows "resolveHostToPublicIP env d host =
    (case find public_v4 ips of
       Some ip \<Rightarrow> Inr (v4_text (the (To4 ip)))
     | None \<Rightarrow>
         if ips = [] then Inl (NoAddresses host)
         else (case first_public ips of None \<Rightarrow> Inl (NoPublicIP host) | Some t \<Rightarrow> Inr t)) \<and>
    (\<forall>t. resolveHostToPublicIP env d host = Inr t \<longrightarrow> (\<exists>a. isPublicAddr a \<and> t = addr_String a))"
  using assms first_public_v4_find [OF assms(2)]
  by (auto simp: resolveHostToPublicIP_def dest: first_public_result split: option.split)

section \<open>An example\<close>

text \<open>A host with a private, an IPv6 and a public IPv4 address; the service answers through the proxy only.\<close>

definition demo_dns :: "nat list list" where
  "demo_dns = [[10, 0, 0, 1], [32, 1, 13, 184] @ replicate 11 0 @ [1], [8, 8, 4, 4]]"

definition demo_geo :: geo_env where
  "demo_geo =
     \<lparr>ge_dns = (\<lambda>_ _. Inr demo_dns),
      ge_http = (\<lambda>_ client _. if client = HttpEnv then Answer 200 (Inr ''{}'') else NoAnswer ''refused''),
      ge_json = (\<lambda>_. Inr \<lparr>iw_Success = True, iw_Message = [], iw_IP = [], iw_Country = ''Japan'',
                          iw_CountryCode = ''JP'', iw_Region = [], iw_City = [], iw_ASN = 7, iw_ISP = []\<rparr>),
      ge_host_flight = (\<lambda>_. None), ge_ip_flight = (\<lambda>_. None)\<rparr>"

text \<open>The same environment, but with other answers to what is never asked.\<close>

definition demo_other :: geo_env where
  "demo_other = demo_geo\<lparr>ge_dns := (\<lambda>_ h. if ParseAddr h = None then Inr demo_dns else Inl ''asked''),
     ge_http := (\<lambda>d client u. if d = None then NoAnswer ''asked'' else ge_http demo_geo d client u)\<rparr>"

definition demo_options :: resolver_options where
  "demo_options = \<lparr>ro_APIBaseURL = [], ro_Timeout = 0, ro_CacheTTL = 0, ro_HostCacheTTL = 0, ro_Language = []\<rparr>"

definition demo_resolver :: resolver where
  "demo_resolver = NewResolver demo_options"

definition demo_info :: geo_info where
  "demo_info = empty_geo\<lparr>gi_IP := ''8.8.4.4'', gi_Country := ''Japan'', gi_CountryCode := ''JP'', gi_ASN := ''AS7''\<rparr>"

lemma demo_endpoint:
  "geo_endpoint demo_resolver ''8.8.4.4'' =
     Some ''https://ipwho.is/8.8.4.4?fields=success%2Cmessage%2Cip%2Ccountry%2Ccountry_code%2Cregion%2Ccity%2Cconnection&lang=zh-CN''"
  by code_simp

lemma demo_timeout: "rs_timeout demo_resolver = 5 * second" "0 < rs_timeout demo_resolver"
  by (simp_all add: demo_resolver_def NewResolver_def demo_options_def positive_or_def second_def Let_def)

definition demo_clock :: clock where
  "demo_clock n = 100 + int n"

lemma demo_clock: "mono demo_clock"
  by (simp add: demo_clock_def mono_def)

definition demo_stored :: resolver where
  "demo_stored = demo_resolver\<lparr>rs_hostCache := [''h.example'' \<mapsto> (''8.8.4.4'', 103 + hour)]\<rparr>"

definition demo_filled :: resolver where
  "demo_filled = demo_stored\<lparr>rs_ipCache := [''8.8.4.4'' \<mapsto> (demo_info, 107 + 7 * 24 * hour)]\<rparr>"

lemmas demo_resolver_defs = demo_resolver_def NewResolver_def demo_options_def positive_or_def Let_def

lemma demo_lookup: "lookupIPWhoIs demo_geo demo_stored d ''8.8.4.4'' = Inr demo_info"
proof -
  have "same_service demo_resolver demo_stored" by (simp add: same_service_def demo_stored_def)
  note endpoint = same_endpoint [OF this, of "''8.8.4.4''", unfolded demo_endpoint]
  have "case url_Parse (the (geo_endpoint demo_resolver ''8.8.4.4'')) of None \<Rightarrow> False | Some _ \<Rightarrow> True"
    by code_simp
  then have "url_Parse (the (geo_endpoint demo_resolver ''8.8.4.4'')) \<noteq> None" by (simp split: option.splits)
  then obtain x where x: "url_Parse (the (geo_endpoint demo_resolver ''8.8.4.4'')) = Some x" by blast
  have clean: "TrimSpace ''Japan'' = ''Japan''" "TrimSpace ''JP'' = ''JP''" "Itoa 7 = ''7''" by code_simp+
  show ?thesis
    using x unfolding demo_endpoint option.sel
    by (simp add: lookupIPWhoIs_def endpoint doGETJSON_def geo_try_def demo_geo_def geo_of_answer_def clean
        demo_info_def empty_geo_def)
qed

lemma demo_parse:
  "TrimSpace ''h.example'' = ''h.example''" "ParseAddr ''h.example'' = None" "TrimSpace ''8.8.4.4'' = ''8.8.4.4''"
  "ParseAddr ''8.8.4.4'' = Some (V4 [8, 8, 4, 4])" "isPublicAddr (V4 [8, 8, 4, 4])"
  by code_simp+

lemma demo_resolve: "resolveHostToPublicIP demo_geo d ''h.example'' = Inr ''8.8.4.4''"
proof -
  have "first_public_v4 demo_dns = Some ''8.8.4.4''" by code_simp
  then show ?thesis by (simp add: resolveHostToPublicIP_def demo_geo_def demo_dns_def)
qed

lemma demo_first:
  "LookupHost demo_geo demo_clock None ''h.example'' (Some demo_resolver) = (Inr demo_info, Some demo_filled)"
proof -
  let ?d = "withBoundedTimeout 101 102 None (rs_timeout demo_resolver)"
  have empty: "rs_hostCache demo_resolver = (\<lambda>_. None)" "rs_ipCache demo_stored = (\<lambda>_. None)"
    "rs_hostCacheTTL demo_resolver = hour" "rs_cacheTTL demo_stored = 7 * 24 * hour"
    by (simp_all add: demo_resolver_defs demo_stored_def)
  have flights: "ge_host_flight demo_geo h = None" "ge_ip_flight demo_geo h = None" for h
    by (simp_all add: demo_geo_def)
  have "fetch_host demo_geo demo_clock ?d ''h.example'' demo_resolver = (Inr ''8.8.4.4'', demo_stored)"
    by (simp add: fetch_host_def demo_resolve empty demo_stored_def demo_clock_def)
  moreover have "lookup_ip demo_geo (ip_clock demo_clock) ?d ''8.8.4.4'' demo_stored = (Inr demo_info, demo_filled)"
    by (simp add: lookup_ip_def demo_parse cached_def empty Do_def flights fetch_ip_def demo_lookup demo_filled_def
        ip_clock_def demo_clock_def)
  ultimately have "resolve_host demo_geo demo_clock None ''h.example'' demo_resolver = (Inr demo_info, demo_filled)"
    by (simp add: resolve_host_def Do_def flights demo_parse demo_clock_def)
  then show ?thesis
    by (simp add: LookupHost_def lookup_host_def demo_parse cached_def empty)
qed

theorem lookup_asks_only_witness:
  "LookupHost demo_other demo_clock None ''h.example'' (Some demo_resolver) =
     LookupHost demo_geo demo_clock None ''h.example'' (Some demo_resolver) \<and>
   LookupHost demo_geo demo_clock None ''127.0.0.1'' (Some demo_resolver) =
     (Inl (NonPublicIP ''127.0.0.1''), Some demo_resolver)"
proof -
  have agrees: "agree demo_resolver (demo_clock 6 + rs_timeout demo_resolver) None demo_geo demo_other"
    by (auto simp: agree_def demo_other_def demo_geo_def within_def)
  have "TrimSpace ''127.0.0.1'' = ''127.0.0.1''" "ParseAddr ''127.0.0.1'' = Some (V4 [127, 0, 0, 1])"
    "\<not> isPublicAddr (V4 [127, 0, 0, 1])"
    by code_simp+
  then show ?thesis
    using lookup_asks_only [OF agrees demo_timeout(2) demo_clock, of "''h.example''"]
      lookup_asks_only [OF agrees demo_timeout(2) demo_clock, of "''127.0.0.1''"] by simp
qed

lemma demo_resolver_ok: "resolver_ok 0 demo_resolver"
proof -
  have "rs_baseURL demo_resolver = ''https://ipwho.is'' @ ''/''" by code_simp
  then show ?thesis
    unfolding resolver_ok_def one_slash_def
    by (intro conjI exI [of _ "''https://ipwho.is''"]) (simp_all add: demo_resolver_defs second_def hour_def)
qed

theorem resolver_ok_kept_witness:
  "resolver_ok 107 demo_filled \<and> rs_hostCache demo_filled ''h.example'' = Some (''8.8.4.4'', 103 + hour)"
  using resolver_ok_kept [OF demo_resolver_ok demo_clock, of demo_options demo_geo None "''8.8.4.4''" "''h.example''"]
  by (simp add: demo_first) (simp add: demo_clock_def demo_filled_def demo_stored_def)

text \<open>A network that answers nothing.\<close>

definition demo_dead :: geo_env where
  "demo_dead = demo_geo\<lparr>ge_dns := (\<lambda>_ _. Inl ''down''), ge_http := (\<lambda>_ _ _. NoAnswer ''down'')\<rparr>"

theorem lookup_host_cached_witness:
  "LookupHost demo_dead (\<lambda>_. 1000) (Some 1000) ''h.example'' (Some demo_filled) = (Inr demo_info, Some demo_filled)"
proof -
  have entries: "rs_hostCache demo_filled ''h.example'' = Some (''8.8.4.4'', 103 + hour)"
    "rs_ipCache demo_filled ''8.8.4.4'' = Some (demo_info, 107 + 7 * 24 * hour)"
    by (simp_all add: demo_filled_def demo_stored_def demo_resolver_defs demo_clock_def)
  have "ge_host_flight demo_geo h = None" "ge_ip_flight demo_geo h = None" for h
    by (simp_all add: demo_geo_def)
  from lookup_host_cached [OF demo_first this] obtain t e1 e2 where
    "rs_ipCache demo_filled (TrimSpace t) = Some (demo_info, e2)"
    "rs_hostCache demo_filled ''h.example'' = Some (t, e1)"
    "\<forall>env' later deadline'. later 4 < e2 \<longrightarrow> later 0 < e1 \<longrightarrow>
       LookupHost env' later deadline' ''h.example'' (Some demo_filled) = (Inr demo_info, Some demo_filled)"
    by (auto simp: demo_parse)
  with entries show ?thesis
    by (auto simp: demo_parse second_def hour_def)
qed

theorem resolve_prefers_v4_witness:
  "resolveHostToPublicIP demo_geo None ''h.example'' = Inr ''8.8.4.4''"
proof -
  have "ge_dns demo_geo None ''h.example'' = Inr demo_dns" by (simp add: demo_geo_def)
  moreover have "list_all dns_ip demo_dns" "find public_v4 demo_dns = Some [8, 8, 4, 4]" by code_simp+
  moreover have "v4_text (the (To4 [8, 8, 4, 4])) = ''8.8.4.4''" by code_simp
  ultimately show ?thesis using resolve_prefers_v4 [of demo_geo None "''h.example''" demo_dns] by simp
qed

end
