(* ===== verification/App.thy ===== *)
theory App
  imports Builder_Nodes Server_Access Geo_Lookup
begin

text \<open>
  The program as a whole (\<open>cmd/easy_proxies/main.go\<close>, \<open>internal/app/app.go\<close> and the context key of
  \<open>internal/monitor/context.go\<close>): the configuration is loaded, the monitor, the box manager and the
  subscription manager are created, connected and started, and at the end stopped.

  Here the components are put together.  What the box manager has as parameters is now the model of the
  component that it calls: the verdict of the builder is \<open>Build\<close>, the location of a host is asked of the
  GeoIP resolver.  Signals, the command line and the exit code are left out.
\<close>

section \<open>The monitor in a context\<close>

text \<open>A context as the monitor that is stored under \<open>managerKey\<close>; other keys do not matter here.\<close>

type_synonym 'm ctx = "'m option"

definition ContextWith :: "'m ctx \<Rightarrow> 'm option \<Rightarrow> 'm ctx" where
  "ContextWith ctx mgr = (case mgr of None \<Rightarrow> ctx | Some m \<Rightarrow> Some m)"

definition FromContext :: "'m ctx \<Rightarrow> 'm option" where
  "FromContext ctx = ctx"

section \<open>The components put together\<close>

record app_env =
  ap_sub :: sub_env
  ap_build :: build_env
  ap_geo :: geo_env
  ap_geo_clock :: clock
  ap_geo_error :: "geo_error \<Rightarrow> string"
  ap_resolver :: resolver
  ap_token :: string
  ap_mtime :: "string \<Rightarrow> time"

text \<open>The verdict of the builder, and a lookup by the resolver.\<close>

definition build_verdict :: "build_env \<Rightarrow> config \<Rightarrow> build_error option" where
  "build_verdict env c = (case Build env (Some c) of Inl e \<Rightarrow> Some e | Inr _ \<Rightarrow> None)"

definition resolver_lookup :: "app_env \<Rightarrow> string \<Rightarrow> string + geo_info" where
  "resolver_lookup env host =
     (case fst (LookupHost (ap_geo env) (ap_geo_clock env) None host (Some (ap_resolver env))) of
        Inl e \<Rightarrow> Inl (ap_geo_error env e) | Inr info \<Rightarrow> Inr info)"

definition app_bm :: "app_env \<Rightarrow> bm_env" where
  "app_bm env = (se_bm (ap_sub env))\<lparr>be_build := build_verdict (ap_build env), be_lookup := resolver_lookup env\<rparr>"

definition app_sub :: "app_env \<Rightarrow> sub_env" where
  "app_sub env = (ap_sub env)\<lparr>se_bm := app_bm env\<rparr>"

section \<open>Running\<close>

text \<open>The monitor's configuration that \<open>Run\<close> builds; the remaining field is the zero value.\<close>

definition run_monitor_config :: "config \<Rightarrow> monitor_config" where
  "run_monitor_config c =
     (let own = cf_Mode c = ''multi-port'' \<or> cf_Mode c = ''hybrid'' in
      \<lparr>mc_Enabled = ManagementEnabled c, mc_Listen = mgc_Listen (cf_Management c),
       mc_ProbeTarget = mgc_ProbeTarget (cf_Management c), mc_Password = mgc_Password (cf_Management c),
       mc_ProxyUsername = (if own then mpc_Username (cf_MultiPort c) else lc_Username (cf_Listener c)),
       mc_ProxyPassword = (if own then mpc_Password (cf_MultiPort c) else lc_Password (cf_Listener c)),
       mc_ExternalIP = cf_ExternalIP c, mc_SkipCertVerify = False\<rparr>)"

text \<open>The state around a box manager as long as there is no subscription manager.\<close>

definition unmanaged :: "bm_state \<Rightarrow> (string \<Rightarrow> time) \<Rightarrow> sub_state" where
  "unmanaged box mtime =
     \<lparr>ss_box = box, ss_mtime = mtime, ss_status = zero_status, ss_refreshMu = False,
      ss_manualRefresh = False, ss_configChanged = False, ss_started = False, ss_subscriptions = [],
      ss_refreshCfg = zero_refresh, ss_lastSubHash = [], ss_lastNodesModTime = 0\<rparr>"

text \<open>The server that \<open>ensureMonitor\<close> creates, with the node manager and the configuration bound.\<close>

definition monitor_server :: "app_env \<Rightarrow> bm_state \<Rightarrow> server option" where
  "monitor_server env box =
     (if bm_monitorServer box
      then map_option (\<lambda>s. SetConfig (SetNodeManager s))
             (NewServer (bm_monitorCfg box) (bm_monitorMgr box) (ap_token env) (unmanaged box (ap_mtime env)))
      else None)"

text \<open>
  \<open>Run\<close> up to the wait for a signal: an error of the start, or the server, if there is one, and the
  subscription manager.  \<open>None\<close> is a start that does not return.
\<close>

definition Run ::
  "app_env \<Rightarrow> config \<Rightarrow> pool_world \<Rightarrow> disk \<Rightarrow> (bm_error + server option \<times> sub_state) option" where
  "Run env c w d =
     (let box0 = New (Some c) (run_monitor_config c) w d;
          sv0 = monitor_server env (ensureMonitor box0) in
      case bm_Start (app_bm env) box0 of
        None \<Rightarrow> None
      | Some (Some e, _) \<Rightarrow> Some (Inl e)
      | Some (None, box) \<Rightarrow>
          (let sv1 = map_option (\<lambda>s. SetConfig (set_box box s)) sv0;
               sub = snd (sub_Start (sub_New (app_sub env) box (ap_mtime env)));
               sv2 = map_option (\<lambda>s. SetSubscriptionRefresher (s\<lparr>sv_sub := sub\<rparr>)) sv1
           in Some (Inr (sv2, sub))))"

text \<open>The deferred calls at the end: the loop of the subscription manager stops, the box manager closes.\<close>

definition run_shutdown :: "app_env \<Rightarrow> sub_state \<Rightarrow> loop_at \<times> sub_state" where
  "run_shutdown env sub = (Stopped, sub\<lparr>ss_box := snd (bm_Close (app_bm env) (ss_box sub))\<rparr>)"

datatype exit_error = LoadFailed string | RunFailed bm_error

definition main_program ::
  "app_env \<Rightarrow> string \<Rightarrow> pool_world \<Rightarrow> disk \<Rightarrow> (exit_error + server option \<times> sub_state) option" where
  "main_program env configPath w d =
     (case Load (be_cfg (app_bm env)) configPath d of
        None \<Rightarrow> None
      | Some (Inl e, _) \<Rightarrow> Some (Inl (LoadFailed e))
      | Some (Inr c, d') \<Rightarrow>
          (case Run env c w d' of
             None \<Rightarrow> None
           | Some (Inl e) \<Rightarrow> Some (Inl (RunFailed e))
           | Some (Inr x) \<Rightarrow> Some (Inr x)))"

end
