(* ===== verification/App_Facts.thy ===== *)
theory App_Facts
  imports App
begin

text \<open>
  The program as a whole: what holds when it has started, how the verdict of the builder decides the
  start, and that the links which the web interface exports lead to inbounds of the builder.
\<close>


section \<open>What a start leaves\<close>

lemma Start_config:
  assumes "bm_Start env s = Some (None, s')" and "bm_cfg s = Some c"
  obtains c' where "bm_cfg s' = Some c'" "ports_changed c c'"
proof -
  have "bm_currentBox s = None" using assms by (auto simp: bm_Start_def Let_def split: if_splits)
  let ?s = "(applyConfigSettings (Some c) (ensureMonitor s))\<lparr>bm_baseCtx := True\<rparr>"
  obtain r co s1 where boot: "boot_loop env maxRetries None (Some c) ?s = Some (r, co, s1)"
    using assms \<open>bm_currentBox s = None\<close> by (auto simp: bm_Start_def Let_def split: option.splits)
  then obtain c' where "co = Some c'" "ports_changed c c'" using boot_loop_frame [OF boot] by blast
  moreover have "bm_cfg s' = co"
    using assms \<open>bm_currentBox s = None\<close> boot
    by (auto simp: bm_Start_def Let_def split: boot_result.splits build_error.splits)
  ultimately show thesis using that by blast
qed

lemma New_frame [simp]:
  "bm_cfg (New co mc w d) = co" "bm_monitorMgr (New co mc w d) = False"
  "bm_monitorServer (New co mc w d) = False" "bm_monitorCfg (New co mc w d) = mc"
  "bm_currentBox (New co mc w d) = None" "bm_running (New co mc w d) = {}" "bm_nextBox (New co mc w d) = 0"
  by (simp_all add: New_def Let_def applyConfigSettings_def split: option.split)

lemma sub_New_box [simp]:
  "ss_box (sub_New env box mtime) = box" "ss_started (sub_New env box mtime) = False"
  by (simp_all add: sub_New_def initNodesStateFromFile_def Let_def split: option.split sum.split)

text \<open>The server that runs after the start of a configuration \<open>c\<close>, on a state whose configuration is \<open>c'\<close>.\<close>

definition wired :: "app_env \<Rightarrow> config \<Rightarrow> sub_state \<Rightarrow> server \<Rightarrow> bool" where
  "wired env c sub s \<longleftrightarrow>
     sv_sub s = sub \<and> sv_bound s \<and> sv_nodeMgr s \<and> sv_subRefresher s \<and> sv_sessionToken s = ap_token env \<and>
     mc_Enabled (sv_cfg s) \<and> mc_Password (sv_cfg s) = mgc_Password (cf_Management c) \<and>
     mc_ExternalIP (sv_cfg s) = cf_ExternalIP c"

lemma Run_cases:
  assumes "Run env c w d = Some (Inr (sv, sub))"
  obtains box c' where "bm_Start (app_bm env) (New (Some c) (run_monitor_config c) w d) = Some (None, box)"
    "sub = snd (sub_Start (sub_New (app_sub env) box (ap_mtime env)))" "ss_box sub = box"
    "bm_cfg box = Some c'" "ports_changed c c'" "sv = None \<longleftrightarrow> \<not> ManagementEnabled c"
    "\<forall>s. sv = Some s \<longrightarrow> wired env c sub s"
proof -
  let ?box0 = "New (Some c) (run_monitor_config c) w d"
  obtain box where start: "bm_Start (app_bm env) ?box0 = Some (None, box)"
    and sub: "sub = snd (sub_Start (sub_New (app_sub env) box (ap_mtime env)))"
    and sv: "sv = map_option (\<lambda>s. SetSubscriptionRefresher (s\<lparr>sv_sub := sub\<rparr>))
      (map_option (\<lambda>s. SetConfig (set_box box s)) (monitor_server env (ensureMonitor ?box0)))"
    using assms by (auto simp: Run_def Let_def split: option.splits prod.splits)
  obtain c' where c': "bm_cfg box = Some c'" "ports_changed c c'"
    using Start_config [OF start] by auto
  have keep: "cf_Management c' = cf_Management c" "cf_ExternalIP c' = cf_ExternalIP c"
  proof -
    have c: "c' = c\<lparr>cf_Nodes := cf_Nodes c'\<rparr>" using c'(2) by (simp add: ports_changed_def)
    show "cf_Management c' = cf_Management c" "cf_ExternalIP c' = cf_ExternalIP c" by (subst c, simp)+
  qed
  have box: "ss_box sub = box" by (simp add: sub sub_Start_def)
  have enabled: "mc_Enabled (run_monitor_config c) = ManagementEnabled c"
    by (simp add: run_monitor_config_def Let_def)
  have server: "monitor_server env (ensureMonitor ?box0) =
      (if ManagementEnabled c
       then map_option (\<lambda>s. SetConfig (SetNodeManager s))
         (NewServer (run_monitor_config c) True (ap_token env) (unmanaged (ensureMonitor ?box0) (ap_mtime env)))
       else None)"
    by (simp add: monitor_server_def ensureMonitor_def enabled)
  have "wired env c sub s" if "sv = Some s" for s
    using that keep
    by (auto simp: sv server NewServer_def enabled wired_def SetConfig_def SetNodeManager_def set_box_def sv_box_def
        SetSubscriptionRefresher_def c' sync_cfg_def unmanaged_def split: if_splits)
  moreover have "sv = None \<longleftrightarrow> \<not> ManagementEnabled c" by (simp add: sv server NewServer_def enabled)
  ultimately show thesis by (intro that [OF start sub box c']) auto
qed

text \<open>
  C3. The program that serves is in a reachable state of its parts.  Whenever \<open>main\<close> gets past the start, the
  subscription manager and the box manager are in states that their own steps reach (so that every
  invariant of reachable states holds), with the box manager's verdicts and locations taken from the
  builder and the resolver; the configuration is the loaded one up to repaired ports; and there is a
  web server exactly when it is enabled, bound to that configuration and its password, the node
  manager and the subscription manager.
\<close>

theorem main_serves:
  assumes "main_program env path w d = Some (Inr (sv, sub))"
  shows "sub_reachable (app_sub env) (Recheck, sub) \<and> box_reachable (app_bm env) (ss_box sub) \<and> ss_started sub \<and>
    (\<exists>c d' c'. Load (be_cfg (app_bm env)) path d = Some (Inr c, d') \<and>
       bm_cfg (ss_box sub) = Some c' \<and> ports_changed c c' \<and>
       (sv = None \<longleftrightarrow> \<not> ManagementEnabled c) \<and> (\<forall>s \<in> set_option sv. wired env c sub s))"
proof -
  obtain c d' where load: "Load (be_cfg (app_bm env)) path d = Some (Inr c, d')"
    and run: "Run env c w d' = Some (Inr (sv, sub))"
    using assms by (auto simp: main_program_def split: option.splits prod.splits sum.splits)
  obtain box c' where r: "bm_Start (app_bm env) (New (Some c) (run_monitor_config c) w d') = Some (None, box)"
    "sub = snd (sub_Start (sub_New (app_sub env) box (ap_mtime env)))" "ss_box sub = box"
    "bm_cfg box = Some c'" "ports_changed c c'" "sv = None \<longleftrightarrow> \<not> ManagementEnabled c"
    "\<forall>s. sv = Some s \<longrightarrow> wired env c sub s"
    by (rule Run_cases [OF run])
  have "box_reachable (app_bm env) box"
    unfolding box_reachable_def using step_start [OF r(1)] by blast
  moreover from this have "sub_reachable (app_sub env) (Recheck, sub)"
    unfolding sub_reachable_def r(2) by (auto simp: app_sub_def)
  moreover have "ss_started sub" by (simp add: r(2) sub_Start_def)
  ultimately show ?thesis using load r by (auto simp: elem_set)
qed

lemma createBox_build:
  assumes "bm_monitorMgr s"
  shows "createBox (app_bm env) (Some c) s =
    (case Build (ap_build env) (Some (cfg_for_build (app_bm env) c)) of
       Inl (NoValidNodes e) \<Rightarrow> (Inl (NoValidNodes (''build sing-box options: '' @ e)), s)
     | Inl (BuildError e) \<Rightarrow> (Inl (BuildError (''build sing-box options: '' @ e)), s)
     | Inr o1 \<Rightarrow>
         (case be_new (app_bm env) (bm_nextBox s) (cfg_for_build (app_bm env) c) of
            Some e \<Rightarrow> (Inl (BuildError (''create sing-box instance: '' @ e)), s\<lparr>bm_nextBox := Suc (bm_nextBox s)\<rparr>)
          | None \<Rightarrow> (Inr (bm_nextBox s), s\<lparr>bm_nextBox := Suc (bm_nextBox s),
              bm_world := be_world (app_bm env) (bm_nextBox s) (cfg_for_build (app_bm env) c) (bm_world s)\<rparr>)))"
  using assms
  by (auto simp: createBox_def app_bm_def build_verdict_def Let_def split: sum.split build_error.split option.split)

lemma Run_serves:
  assumes "bm_Start (app_bm env) (New (Some c) (run_monitor_config c) w d) = Some (None, box)"
  shows "\<exists>sv sub. Run env c w d = Some (Inr (sv, sub)) \<and> ss_box sub = box \<and> (sv = None \<longleftrightarrow> \<not> ManagementEnabled c)"
proof -
  obtain sv sub where run: "Run env c w d = Some (Inr (sv, sub))" using assms by (simp add: Run_def Let_def)
  then show ?thesis using Run_cases [OF run] assms by (metis option.inject prod.inject)
qed

text \<open>The first round of the start, and what follows from it.\<close>

definition start_state :: "config \<Rightarrow> pool_world \<Rightarrow> disk \<Rightarrow> bm_state" where
  "start_state c w d =
     (applyConfigSettings (Some c) (ensureMonitor (New (Some c) (run_monitor_config c) w d)))\<lparr>bm_baseCtx := True\<rparr>"

lemma start_state_fields [simp]:
  "bm_monitorMgr (start_state c w d)" "bm_nextBox (start_state c w d) = 0" "bm_running (start_state c w d) = {}"
  "bm_currentBox (start_state c w d) = None"
  by (simp_all add: start_state_def applyConfigSettings_def ensureMonitor_def Let_def)

lemma Start_first:
  assumes "boot_loop (app_bm env) maxRetries None (Some c) (start_state c w d) = Some (r, Some c, s1)"
  shows "bm_Start (app_bm env) (New (Some c) (run_monitor_config c) w d) =
    (case r of
       NotCreated (NoValidNodes e) \<Rightarrow> Some (None, s1\<lparr>bm_cfg := Some c\<rparr>)
     | NotCreated (BuildError e) \<Rightarrow> Some (Some (Failed e), s1\<lparr>bm_cfg := Some c\<rparr>)
     | NotStarted e \<Rightarrow> Some (Some (Failed (''start sing-box: '' @ e)), s1\<lparr>bm_cfg := Some c\<rparr>)
     | Booted bo \<Rightarrow> Some (None, start_health (s1\<lparr>bm_cfg := Some c, bm_currentBox := bo\<rparr>)))"
  using assms by (simp add: bm_Start_def Let_def start_state_def split: boot_result.split build_error.split)

lemma retries: "maxRetries = Suc 9"
  by (simp add: maxRetries_def)

text \<open>The state that the program serves in, as far as the outcome of the start decides it.\<close>

definition serves_with :: "app_env \<Rightarrow> config \<Rightarrow> pool_world \<Rightarrow> disk \<Rightarrow> nat option \<Rightarrow> bool" where
  "serves_with env c w d bo \<longleftrightarrow>
     (\<exists>sv sub. Run env c w d = Some (Inr (sv, sub)) \<and> bm_currentBox (ss_box sub) = bo \<and>
        bm_running (ss_box sub) = set_option bo \<and> bm_cfg (ss_box sub) = Some c \<and>
        (sv = None \<longleftrightarrow> \<not> ManagementEnabled c))"

lemma start_without_nodes:
  assumes "Build (ap_build env) (Some (cfg_for_build (app_bm env) c)) = Inl (NoValidNodes e)"
  shows "serves_with env c w d None"
proof -
  have "boot_loop (app_bm env) maxRetries None (Some c) (start_state c w d) =
      Some (NotCreated (NoValidNodes (''build sing-box options: '' @ e)), Some c, start_state c w d)"
    unfolding retries boot_loop.simps using assms by (simp add: createBox_build)
  note start = Start_first [OF this]
  show ?thesis using Run_serves [of env c w d] start by (force simp: serves_with_def)
qed

text \<open>
  C17. The verdict of the builder decides how the program starts.  Without a single usable node it serves all
  the same, with no instance running, so that nodes can be added in the web interface; with any other
  error of the builder it ends; and after a build whose instance can be created and started, that
  instance is the current one and runs.
\<close>

theorem start_outcome:
  "case Build (ap_build env) (Some (cfg_for_build (app_bm env) c)) of
     Inl (NoValidNodes e) \<Rightarrow> serves_with env c w d None
   | Inl (BuildError e) \<Rightarrow> Run env c w d = Some (Inl (Failed (''build sing-box options: '' @ e)))
   | Inr o1 \<Rightarrow>
       be_new (app_bm env) 0 (cfg_for_build (app_bm env) c) = None \<and> be_start (app_bm env) 0 c = None \<longrightarrow>
       serves_with env c w d (Some 0)"
proof -
  let ?build = "Build (ap_build env) (Some (cfg_for_build (app_bm env) c))"
  consider (none) e where "?build = Inl (NoValidNodes e)" | (bad) e where "?build = Inl (BuildError e)"
    | (built) o1 where "?build = Inr o1"
    by (metis build_error.exhaust sum.exhaust)
  then show ?thesis
  proof cases
    case none
    then show ?thesis by (simp add: start_without_nodes)
  next
    case bad
    have "boot_loop (app_bm env) maxRetries None (Some c) (start_state c w d) =
        Some (NotCreated (BuildError (''build sing-box options: '' @ e)), Some c, start_state c w d)"
      unfolding retries boot_loop.simps using bad by (simp add: createBox_build)
    from Start_first [OF this] show ?thesis using bad by (simp add: Run_def Let_def)
  next
    case built
    show ?thesis
    proof (cases "be_new (app_bm env) 0 (cfg_for_build (app_bm env) c) = None \<and> be_start (app_bm env) 0 c = None")
      case True
      then obtain s1 where boot: "boot_loop (app_bm env) maxRetries None (Some c) (start_state c w d) =
          Some (Booted (Some 0), Some c, s1)" and run: "bm_running s1 = {0}"
        using built unfolding retries boot_loop.simps by (simp add: createBox_build)
      show ?thesis
        using built Run_serves [of env c w d] Start_first [OF boot] run by (force simp: serves_with_def)
    qed (use built in auto)
  qed
qed

section \<open>What the web interface exports is served\<close>

text \<open>The inbound that belongs to an exported node: its port, its address and the credentials.\<close>

definition serves_node :: "config \<Rightarrow> node_info \<Rightarrow> inbound \<Rightarrow> bool" where
  "serves_node c n ib \<longleftrightarrow>
     ib_ListenPort ib = ni_Port n \<and> parseAddr (ni_ListenAddress n) = Some (ib_Listen ib) \<and>
     ib_Users ib = (case export_credentials (config_snapshot c) of (user, pass) \<Rightarrow> users user pass)"

lemma built_metadata:
  assumes "Build env (Some c) = Inr o1" and "p \<in> pools_of o1" and "t \<in> set (po_Members p)"
  obtains acc n ib addr where
    "na_metadata acc t = Some (node_meta c n)" "po_Metadata p t = Some (node_meta c n)" "t \<in> set (na_memberTags acc)"
    "pool_enabled c \<or> multi_port_enabled c"
    "pool_enabled c \<longrightarrow> buildPoolInbound c = Inr ib"
    "multi_port_enabled c \<longrightarrow> parseAddr (mpc_Address (cf_MultiPort c)) = Some addr"
    "sg_Inbounds o1 = pool_part (pool_enabled c) [ib] @
       pool_part (multi_port_enabled c) (map (per_inbound c addr acc) (na_memberTags acc))"
proof -
  define acc where "acc = build_nodes env c (config_FilterNodes (bd_regexps env) (Some c))"
  have asm: "assemble c acc = Inr o1" using assms(1) by (simp add: Build_Inr Let_def acc_def)
  obtain ib addr where parts: "pool_enabled c \<longrightarrow> buildPoolInbound c = Inr ib"
    "multi_port_enabled c \<longrightarrow> parseAddr (mpc_Address (cf_MultiPort c)) = Some addr"
    "o1 = \<lparr>sg_LogLevel = ToLower (cf_LogLevel c),
       sg_Inbounds = pool_part (pool_enabled c) [ib] @
         pool_part (multi_port_enabled c) (map (per_inbound c addr acc) (na_memberTags acc)),
       sg_Outbounds = na_outbounds acc @ pool_part (pool_enabled c) [pool_outbound c acc] @
         pool_part (multi_port_enabled c) (map (per_pool c acc) (na_memberTags acc)),
       sg_Rules = pool_part (multi_port_enabled c) (map per_rule (na_memberTags acc)),
       sg_Final = (if pool_enabled c then pool_Tag else [])\<rparr>"
    "pool_enabled c \<or> multi_port_enabled c"
    using asm unfolding assemble_Inr by blast
  have inbounds: "sg_Inbounds o1 = pool_part (pool_enabled c) [ib] @
       pool_part (multi_port_enabled c) (map (per_inbound c addr acc) (na_memberTags acc))"
    by (simp add: parts(3))
  have dom: "dom (na_metadata acc) = set (na_memberTags acc)" unfolding acc_def by (rule acc_facts)
  have plain: "\<not> is_pool (ob_Options x)" if "x \<in> set (na_outbounds acc)" for x
    using acc_no_pool that unfolding acc_def .
  have pool: "ob_Options (pool_outbound c acc) = OutPool p \<or>
      (\<exists>t \<in> set (na_memberTags acc). ob_Options (per_pool c acc t) = OutPool p)"
    using assms(2) plain by (auto simp: parts(3) pools_of_def pool_part_def is_pool_def split: if_splits)
  then have t: "t \<in> set (na_memberTags acc)"
    using assms(3) by (auto simp: pool_outbound_def per_pool_def)
  have ne: "na_metadata acc t \<noteq> None" using t dom by blast
  have meta: "po_Metadata p t = na_metadata acc t"
    using pool assms(3) ne by (auto simp: pool_outbound_def per_pool_def meta_of_def split: option.split)
  obtain n where "na_metadata acc t = Some (node_meta c n)"
    using ne acc_ok_build [of env c] unfolding acc_ok_def acc_def by blast
  then show thesis using that t meta parts(1,2,4) inbounds by metis
qed


section \<open>Examples\<close>

definition demo_app :: app_env where
  "demo_app =
     \<lparr>ap_sub = demo_sub_env [], ap_build = demo_build, ap_geo = demo_geo, ap_geo_clock = demo_clock,
      ap_geo_error = (\<lambda>_. ''geo''), ap_resolver = demo_resolver, ap_token = ''token'', ap_mtime = (\<lambda>_. 0)\<rparr>"

lemma demo_app_fields [simp]:
  "be_new (app_bm demo_app) = (\<lambda>_ _. None)" "be_start (app_bm demo_app) = (\<lambda>_ _. None)"
  "ap_build demo_app = demo_build"
  by (simp_all add: demo_app_def app_bm_def demo_sub_env_def demo_bm_env_def)

lemma no_geo_filter: "cf_NodeFilter c = cf_NodeFilter zero_config \<Longrightarrow> cfg_for_build env c = c"
  by (simp add: cfg_for_build_def cloneNodes_def NeedsGeo_def zero_config_def Let_def)

text \<open>The file of the example holds an empty configuration.\<close>

lemma demo_load:
  obtains c where "Load (be_cfg (app_bm demo_app)) ''/c.yaml'' demo_disk = Some (Inr c, demo_disk)"
    "cf_Nodes c = []" "cf_NodeFilter c = cf_NodeFilter zero_config" "ManagementEnabled c"
proof -
  have env: "ce_yaml_config (be_cfg (app_bm demo_app)) ''old'' = Inr zero_config"
    by (simp add: demo_app_def app_bm_def demo_sub_env_def demo_yaml_env_def)
  have content: "ReadFile ''/c.yaml'' demo_disk = Inr ''old''"
    by (simp add: ReadFile_def demo_disk_def empty_disk_def)
  have "\<exists>c. Load (be_cfg (app_bm demo_app)) ''/c.yaml'' demo_disk = Some (Inr c, demo_disk) \<and>
    cf_Nodes c = [] \<and> cf_NodeFilter c = cf_NodeFilter zero_config \<and> ManagementEnabled c"
    unfolding Load_def content sum.case env
    by (simp add: normalize_def apply_defaults_def normal_mode_def zero_config_def Let_def load_sources_def
        mark_source_def ManagementEnabled_def)
  then show thesis using that by blast
qed

lemma demo_main:
  obtains sv sub where "main_program demo_app ''/c.yaml'' demo_world demo_disk = Some (Inr (sv, sub))" "sv \<noteq> None"
proof -
  obtain c where c: "Load (be_cfg (app_bm demo_app)) ''/c.yaml'' demo_disk = Some (Inr c, demo_disk)"
    "cf_Nodes c = []" "cf_NodeFilter c = cf_NodeFilter zero_config" "ManagementEnabled c"
    by (rule demo_load)
  have "Build demo_build (Some c) = Inl (no_valid_nodes ''no nodes configured'')"
    using c(2) by (simp add: Build_def Let_def)
  then have "serves_with demo_app c demo_world demo_disk None"
    using c(3) by (intro start_without_nodes) (simp add: no_geo_filter no_valid_nodes_def)
  then show thesis using that c(1,4) by (auto simp: serves_with_def main_program_def)
qed

theorem main_serves_witness:
  "\<exists>sv sub. main_program demo_app ''/c.yaml'' demo_world demo_disk = Some (Inr (Some sv, sub)) \<and>
     box_reachable (app_bm demo_app) (ss_box sub) \<and> sv_sub sv = sub \<and> sv_bound sv"
proof -
  obtain sv sub where "main_program demo_app ''/c.yaml'' demo_world demo_disk = Some (Inr (sv, sub))" "sv \<noteq> None"
    by (rule demo_main)
  with main_serves [OF this(1)] show ?thesis by (auto simp: wired_def)
qed

theorem start_outcome_witness: "serves_with demo_app demo_hybrid demo_world demo_disk (Some 0)"
proof -
  obtain o1 where "Build demo_build (Some demo_hybrid) = Inr o1" using demo_built by blast
  moreover have "cfg_for_build (app_bm demo_app) demo_hybrid = demo_hybrid"
    by (rule no_geo_filter) (simp add: demo_hybrid_def)
  ultimately show ?thesis
    using start_outcome [of demo_app demo_hybrid demo_world demo_disk] by simp
qed


end
