(* ===== verification/Spec2Isabelle.thy ===== *)
theory Spec2Isabelle
  imports App_Facts
begin

text \<open>
  Verification library for the proxy pool, a Go program that offers many proxy nodes behind a few local
  HTTP proxies.  All paths below are under \<open>src/\<close>.

  The program.  \<open>cmd/easy_proxies/main.go\<close> loads a configuration and hands it to \<open>internal/app/app.go\<close>.
  The configuration (\<open>internal/config\<close>) collects node URIs from the file itself, from a nodes file and from
  subscriptions, names them, and gives them ports.  The builder (\<open>internal/builder\<close>) translates it into
  options of sing-box: an outbound per node, pools over them, inbounds and routing rules.  The box manager
  (\<open>internal/boxmgr\<close>) runs one sing-box instance at a time, reloads it, and edits the nodes of the
  configuration.  Inside the instance the pool outbound (\<open>internal/outbound/pool\<close>) chooses a member for
  every connection, counts, blacklists and probes the members, with one shared state per node; what it
  learns it reports to the monitor (\<open>internal/monitor/manager.go\<close>), whose web interface
  (\<open>internal/monitor/server.go\<close>) shows and changes it.  The subscription manager (\<open>internal/subscription\<close>)
  refreshes the nodes and reloads the box manager.  Locations of nodes come from the GeoIP resolver
  (\<open>internal/geo\<close>).

  Theories and what they model.

  \<^item> \<open>Prelude\<close>: the model's basic types, the collections of simplification rules, and the interfaces
    as locales: \<open>strict_weak_order\<close> (what a \<open>less\<close> function gives to \<open>sort.Slice\<close>), \<open>tag_registry\<close> (a table
    of objects by tag), \<open>port_scanner\<close> (the loops that look for a port); \<open>Monitor\<close> adds \<open>prober\<close> (what
    a health-check round needs of a probe).  Each is interpreted on the definitions of the component that
    provides it.
  \<^item> \<open>Go_Strings\<close>, \<open>Go_Url\<close>, \<open>Go_Base64\<close>, \<open>Go_Duration\<close>, \<open>Go_Ip\<close>, \<open>Go_Sha256\<close>: the part of Go's standard
    library that the program computes with; \<open>Url_Facts\<close>: escaping, parsing and query values.
  \<^item> \<open>Config\<close> (types, defaults, node filter), \<open>Node_Text\<close> (URIs, subscriptions, Clash proxies),
    \<open>Config_Load\<close> (loading, names, ports), \<open>Config_Ports\<close> and \<open>Config_Save\<close> (what they guarantee):
    \<open>config/config.go\<close>.  \<open>Config_Geo\<close>: \<open>config/geoip.go\<close>.  \<open>Geo_Info\<close>: \<open>geo/info.go\<close>.
  \<^item> \<open>Geo_Resolver\<close>, \<open>Geo_Lookup\<close>: \<open>geo/resolver.go\<close>.  The two caches are maps with expiry times, the
    calls of \<open>time.Now\<close> are the readings of a clock, and contexts are their deadlines.
  \<^item> \<open>Monitor\<close>: \<open>monitor/manager.go\<close>; \<open>Shared_State\<close>: \<open>outbound/pool/shared_state.go\<close>; \<open>Pool\<close>, \<open>Pool_Choice\<close>,
    \<open>Pool_Traffic\<close>: \<open>outbound/pool/pool.go\<close>.  Entries, shared states and pools are objects in explicit
    heaps; the records of the three extend each other, so an operation of the pool works on the whole
    state and one of the monitor only on its own part.
  \<^item> \<open>Builder\<close>, \<open>Builder_Facts\<close>, \<open>Builder_Nodes\<close>: \<open>builder/builder.go\<close>.
  \<^item> \<open>Box_Manager\<close>, \<open>Box_Nodes\<close>, \<open>Box_Reload\<close>: \<open>boxmgr/manager.go\<close>.  \<open>Subscription\<close>, \<open>Sub_Refresh\<close>:
    \<open>subscription/manager.go\<close>.
  \<^item> \<open>Server_Settings\<close>, \<open>Server\<close>, \<open>Server_Access\<close>: \<open>monitor/server.go\<close>, one handler per route.
  \<^item> \<open>App\<close>, \<open>App_Facts\<close>: \<open>main.go\<close>, \<open>app.go\<close>, \<open>monitor/context.go\<close>, and the components put together: what the
    box manager has as a parameter is here the model of the builder and of the resolver.

  Conventions.  Definitions have the names of the code.  A struct is a record, a pointer that may be nil an
  option, an error a value of a sum type, a mutex that serialises operations one step of a transition
  relation.  Ports are 16-bit words and wrap as in the code; \<open>int\<close> values are unbounded integers where the
  code only counts with them, and text that is read as a number is checked against 64 bits.  An operation
  that may not return gives an option, and panics are \<open>None\<close> or an error value.

  What the lemmas show, by groups.

  \<^item> Choice and accounting: the candidates of a connection, the order in which each mode tries them, the
    blacklist threshold, one active connection counted per open connection, probe verdicts, and that the
    monitor mirrors the pools in every reachable state.
  \<^item> Configuration: what a normalised configuration satisfies, first free ports, ports kept over reloads,
    termination of the port search, the round trip of the nodes file, saving.
  \<^item> Builder: its options are closed under references and its tags distinct, it fails exactly when it
    should, connections leave through the intended nodes, the pools can be created, and building the URI
    of a Clash proxy is equivalent to a direct translation of its fields.
  \<^item> Lifecycle: one running instance, the outcome of a reload as a refinement of commit or roll back, node
    edits as all or nothing, the outcome of a refresh.
  \<^item> Web interface: authentication, reading does not write, settings applied or rolled back, exported lines.
  \<^item> Resolver: only public addresses are asked about and within the deadline (two environments that agree
    there give the same result), the caches hold public addresses for at most their time to live, and
    answer a second lookup alone.
  \<^item> Whole program: a program that serves is in a reachable state of its parts, the verdict of the builder
    decides the start, and exported links lead to inbounds of the build.

  Bounds and fuel.  The port searches are \<open>partial_function\<close>s: \<open>None\<close> is a search that goes round for ever;
  they return when one of the \<open>2 ^ 16\<close> ports is free, which is a theorem.  The start of an instance has the
  code's own bound of ten rounds, dialling the code's bound on attempts, the wait for healthy nodes is over
  the list of polling rounds.  All other recursion is structural or has a proved measure.

  Parameters.  What is not in the repository is a parameter of the definitions, in the records \<open>cfg_env\<close>,
  \<open>bm_env\<close>, \<open>sub_env\<close>, \<open>api_env\<close>, \<open>probe_env\<close>, \<open>build_env\<close>, \<open>geo_env\<close> and \<open>app_env\<close>: YAML and JSON, HTTP
  and DNS, regular expressions, whether a port can be bound, the creation and start of a sing-box
  instance, dialling, random choice, the order of maps, calls in flight of \<open>singleflight\<close>.

  Not modelled.  Logging (except the links that are printed), the wording of most messages, the listening
  socket and the embedded page of the web interface, command line, signals and exit code, sing-box itself
  and its registration of the pool type, the recycling of slices, and data races: goroutines appear as
  steps in any order where the code synchronises them (\<open>box_step\<close>, \<open>sub_step\<close>, \<open>sys_step\<close>), worker pools
  with independent jobs as the jobs in order.  Of the GeoIP resolver the texts of errors are constructors.
  Some lemmas record what the code does against its intention, for instance \<open>equal_tags\<close>, \<open>port_cut\<close>,
  \<open>credentials_ignored\<close> (builder), \<open>reload_loses_created_node\<close>, \<open>concurrent_reloads_leak\<close> (box manager),
  \<open>refused_update_kept\<close> (settings), \<open>normalize_duplicate_ports\<close> (configuration).
\<close>

end
